(* ===== verification/Prelude.thy ===== *)
theory Prelude
  imports Main "HOL-Library.Word" "HOL-Library.List_Lexorder" "HOL-Library.Sublist"
begin

text \<open>
  Shared vocabulary of the mantlemint development: Go's byte slices and fixed width
  integers, the three-way outcome of a Go call (a value, an error value, a panic), and the
  generic facts about byte strings, partial maps and sorted enumerations that the component
  theories build on.
\<close>

section \<open>Machine data\<close>

type_synonym byte = "8 word"
type_synonym bytes = "byte list"
type_synonym int64 = "64 word"
type_synonym uint64 = "64 word"

text \<open>
  Go strings are byte sequences; a string literal of the source is a \<^typ>\<open>string\<close> here and
  \<open>bytes_of\<close> is the conversion \<open>[]byte(s)\<close>.
\<close>

definition bytes_of :: "string \<Rightarrow> bytes" where
  "bytes_of s = map (\<lambda>c. of_nat (of_char c)) s"

section \<open>Outcome of a Go call\<close>

text \<open>
  \<open>Ok\<close> carries the returned value, \<open>Err\<close> a non-nil \<open>error\<close>, \<open>Panic\<close> a run-time panic.
  A slice or interface result that may be \<open>nil\<close> is an \<open>option\<close> inside \<open>Ok\<close>.
\<close>

datatype 'a res = Ok 'a | Err string | Panic string

primrec bind_res :: "'a res \<Rightarrow> ('a \<Rightarrow> 'b res) \<Rightarrow> 'b res" where
  "bind_res (Ok x) f = f x"
| "bind_res (Err e) f = Err e"
| "bind_res (Panic p) f = Panic p"

primrec map_ok :: "('a \<Rightarrow> 'b) \<Rightarrow> 'a res \<Rightarrow> 'b res" where
  "map_ok f (Ok x) = Ok (f x)"
| "map_ok f (Err e) = Err e"
| "map_ok f (Panic p) = Panic p"

primrec is_Ok :: "'a res \<Rightarrow> bool" where
  "is_Ok (Ok x) = True"
| "is_Ok (Err e) = False"
| "is_Ok (Panic p) = False"

lemma bind_res_cong [fundef_cong]:
  "m = m' \<Longrightarrow> (\<And>x. m' = Ok x \<Longrightarrow> f x = g x) \<Longrightarrow> bind_res m f = bind_res m' g"
  by (cases m') auto

lemma bind_res_eq_Ok: "bind_res m f = Ok y \<longleftrightarrow> (\<exists>x. m = Ok x \<and> f x = Ok y)"
  by (cases m) auto

lemma bind_res_eq_Err:
  "bind_res m f = Err e \<longleftrightarrow> m = Err e \<or> (\<exists>x. m = Ok x \<and> f x = Err e)"
  by (cases m) auto

lemma bind_res_Ok_right [simp]: "bind_res m Ok = m"
  by (cases m) auto

lemma bind_res_assoc [simp]:
  "bind_res (bind_res m f) g = bind_res m (\<lambda>x. bind_res (f x) g)"
  by (cases m) auto

lemma map_ok_bind_res [simp]: "map_ok f (bind_res m g) = bind_res m (\<lambda>x. map_ok f (g x))"
  by (cases m) auto

lemma map_ok_map_ok [simp]: "map_ok f (map_ok g m) = map_ok (\<lambda>x. f (g x)) m"
  by (cases m) auto

lemma bind_map_ok [simp]: "bind_res (map_ok g m) f = bind_res m (\<lambda>x. f (g x))"
  by (cases m) auto

lemma map_ok_eq_Ok: "map_ok f m = Ok y \<longleftrightarrow> (\<exists>x. m = Ok x \<and> y = f x)"
  by (cases m) auto

lemma is_Ok_iff: "is_Ok m \<longleftrightarrow> (\<exists>x. m = Ok x)"
  by (cases m) auto

section \<open>Byte strings in lexicographic order\<close>

text \<open>
  \<open>bytes.Compare\<close> is the order of \<open>HOL-Library.List_Lexorder\<close> on \<^typ>\<open>bytes\<close>. A byte
  string read as a base 256 number gives the same order on strings of one length.
\<close>

definition be_nat :: "bytes \<Rightarrow> nat" where
  "be_nat bs = foldl (\<lambda>a b. a * 256 + unat b) 0 bs"

lemma foldl_be: "foldl (\<lambda>a b. a * 256 + unat b) a bs = a * 256 ^ length bs + be_nat (bs :: bytes)"
proof (induction bs arbitrary: a)
  case Nil
  then show ?case by (simp add: be_nat_def)
next
  case (Cons b bs)
  have "be_nat (b # bs) = unat b * 256 ^ length bs + be_nat bs"
    using Cons.IH [of "unat b"] by (simp add: be_nat_def)
  then show ?case
    using Cons.IH [of "a * 256 + unat b"] by (simp add: algebra_simps)
qed

lemma be_nat_Nil [simp]: "be_nat [] = 0"
  by (simp add: be_nat_def)

lemma be_nat_Cons: "be_nat (b # bs) = unat b * 256 ^ length bs + be_nat bs"
  using foldl_be [of "unat b" bs] by (simp add: be_nat_def)

lemma unat_byte_less: "unat (b :: byte) < 256"
  using unsigned_less [of b] by simp

lemma be_nat_less: "be_nat bs < 256 ^ length bs"
proof (induction bs)
  case Nil
  then show ?case by simp
next
  case (Cons b bs)
  have "unat b * 256 ^ length bs + be_nat bs < (unat b + 1) * 256 ^ length bs"
    using Cons.IH by simp
  also have "\<dots> \<le> 256 * 256 ^ length bs"
    using unat_byte_less [of b] by (intro mult_right_mono) auto
  finally show ?case by (simp add: be_nat_Cons)
qed

lemma be_nat_less_iff: "length bs = length cs \<Longrightarrow> bs < cs \<longleftrightarrow> be_nat bs < be_nat cs"
proof (induction bs cs rule: list_induct2)
  case Nil
  then show ?case by simp
next
  case (Cons b bs c cs)
  have lt: "be_nat (x # xs) < be_nat (y # ys)"
    if "x < y" and "length xs = length ys" for x y :: byte and xs ys
  proof -
    have "be_nat (x # xs) < (unat x + 1) * 256 ^ length xs"
      using be_nat_less [of xs] by (simp add: be_nat_Cons)
    also have "\<dots> \<le> unat y * 256 ^ length xs"
      using that(1) by (intro mult_right_mono) (auto simp: word_less_nat_alt)
    also have "\<dots> \<le> be_nat (y # ys)"
      using that(2) by (simp add: be_nat_Cons)
    finally show ?thesis .
  qed
  consider "b < c" | "b = c" | "c < b" by fastforce
  then show ?case
  proof cases
    case 1
    then show ?thesis using lt [of b c bs cs] Cons.hyps by auto
  next
    case 2
    then show ?thesis using Cons by (simp add: be_nat_Cons)
  next
    case 3
    then show ?thesis using lt [of c b cs bs] Cons.hyps by auto
  qed
qed

lemma be_nat_inj: "length bs = length cs \<Longrightarrow> be_nat bs = be_nat cs \<Longrightarrow> bs = cs"
  by (metis be_nat_less_iff less_irrefl linorder_neqE)

lemma be_nat_le_iff: "length bs = length cs \<Longrightarrow> bs \<le> cs \<longleftrightarrow> be_nat bs \<le> be_nat cs"
  by (metis be_nat_less_iff linorder_not_less)

text \<open>The base 256 digits of a number, most significant first.\<close>

definition be_digits :: "nat \<Rightarrow> nat \<Rightarrow> bytes" where
  "be_digits k n = map (\<lambda>i. of_nat (n div 256 ^ i)) (rev [0..<k])"

lemma length_be_digits [simp]: "length (be_digits k n) = k"
  by (simp add: be_digits_def)

lemma be_digits_Suc: "be_digits (Suc k) n = of_nat (n div 256 ^ k) # be_digits k n"
  by (simp add: be_digits_def)

lemma be_nat_be_digits: "be_nat (be_digits k n) = n mod 256 ^ k"
proof (induction k)
  case 0
  then show ?case by (simp add: be_digits_def)
next
  case (Suc k)
  have "n mod (256 ^ k * 256) = 256 ^ k * (n div 256 ^ k mod 256) + n mod 256 ^ k"
    by (rule mod_mult2_eq)
  with Suc show ?case
    by (simp add: be_digits_Suc be_nat_Cons unat_of_nat ac_simps)
qed

lemma be_digits_be_nat: "be_digits (length bs) (be_nat bs) = bs"
  by (rule be_nat_inj) (simp_all add: be_nat_be_digits be_nat_less)

lemma append_less_append_iff [simp]: "(p @ x < p @ (y :: 'a :: linorder list)) \<longleftrightarrow> x < y"
  by (induction p) auto

lemma append_le_append_iff [simp]: "(p @ x \<le> p @ (y :: 'a :: linorder list)) \<longleftrightarrow> x \<le> y"
  by (induction p) auto

end
