(* ===== verification/Tm_DB.thy ===== *)
theory Tm_DB
  imports Prelude
begin

text \<open>
  The key-value database interface of \<open>src/db/types.go\<close>, which mirrors the
  \<open>tm-db\<close> package. The databases themselves (GoLevelDB, PrefixDB) are not part of the
  repository: a \<open>tmdb\<close> record holds their operations as a parameter of the model, over an
  arbitrary type of store states and of batch states. The locales \<open>kv_point\<close>, \<open>kv_read\<close>,
  \<open>kv_write\<close>, \<open>kv_batch\<close> and \<open>level_session\<close> name the documented behaviour the code relies on; \<open>mem_db\<close> is a
  concrete in-memory instance of the whole contract.
\<close>

section \<open>Operations of a database\<close>

text \<open>
  An iterator is the list of the entries it has still to visit: the interface forbids
  writes to the domain while an iterator exists over it, so a snapshot is all a caller can
  observe. A batch operation receives the store because batches of this repository read the
  database while they are filled. A \<open>nil\<close> slice is \<^const>\<open>None\<close>.
\<close>

type_synonym entries = "(bytes \<times> bytes) list"

record ('s, 'b) tmdb =
  tm_Get :: "'s \<Rightarrow> bytes \<Rightarrow> bytes option res"
  tm_Has :: "'s \<Rightarrow> bytes \<Rightarrow> bool res"
  tm_Set :: "'s \<Rightarrow> bytes \<Rightarrow> bytes \<Rightarrow> 's res"
  tm_SetSync :: "'s \<Rightarrow> bytes \<Rightarrow> bytes \<Rightarrow> 's res"
  tm_Delete :: "'s \<Rightarrow> bytes \<Rightarrow> 's res"
  tm_DeleteSync :: "'s \<Rightarrow> bytes \<Rightarrow> 's res"
  tm_Iterator :: "'s \<Rightarrow> bytes option \<Rightarrow> bytes option \<Rightarrow> entries res"
  tm_ReverseIterator :: "'s \<Rightarrow> bytes option \<Rightarrow> bytes option \<Rightarrow> entries res"
  tm_Close :: "'s \<Rightarrow> 's res"
  tm_NewBatch :: "'s \<Rightarrow> 'b"
  batch_Set :: "'s \<Rightarrow> 'b \<Rightarrow> bytes \<Rightarrow> bytes \<Rightarrow> 'b res"
  batch_Delete :: "'s \<Rightarrow> 'b \<Rightarrow> bytes \<Rightarrow> 'b res"
  batch_Write :: "'s \<Rightarrow> 'b \<Rightarrow> ('s \<times> 'b) res"
  batch_WriteSync :: "'s \<Rightarrow> 'b \<Rightarrow> ('s \<times> 'b) res"
  batch_Close :: "'b \<Rightarrow> 'b res"

text \<open>
  A GoLevelDB session, with the two iterators of \<open>tmdb.NewPrefixDB(session, prefix)\<close> that the
  driver uses; the extra argument is the prefix.
\<close>

record ('s, 'b) leveldb = "('s, 'b) tmdb" +
  prefix_Iterator :: "'s \<Rightarrow> bytes \<Rightarrow> bytes option \<Rightarrow> bytes option \<Rightarrow> entries res"
  prefix_ReverseIterator :: "'s \<Rightarrow> bytes \<Rightarrow> bytes option \<Rightarrow> bytes option \<Rightarrow> entries res"

text \<open>The methods of a database iterator, on the entries still to visit.\<close>

definition it_Valid :: "entries \<Rightarrow> bool" where
  "it_Valid it = (it \<noteq> [])"

fun it_Next :: "entries \<Rightarrow> entries res" where
  "it_Next [] = Panic ''iterator is invalid''"
| "it_Next (e # it) = Ok it"

fun it_Key :: "entries \<Rightarrow> bytes res" where
  "it_Key [] = Panic ''iterator is invalid''"
| "it_Key (e # it) = Ok (fst e)"

fun it_Value :: "entries \<Rightarrow> bytes res" where
  "it_Value [] = Panic ''iterator is invalid''"
| "it_Value (e # it) = Ok (snd e)"

section \<open>Meaning of iterators and batches\<close>

text \<open>
  Start is inclusive and end exclusive; \<open>nil\<close> leaves that side open.
\<close>

definition in_range :: "bytes option \<Rightarrow> bytes option \<Rightarrow> bytes \<Rightarrow> bool" where
  "in_range st en k \<longleftrightarrow>
     (case st of None \<Rightarrow> True | Some a \<Rightarrow> a \<le> k) \<and> (case en of None \<Rightarrow> True | Some b \<Rightarrow> k < b)"

definition range_keys :: "(bytes \<rightharpoonup> bytes) \<Rightarrow> bytes option \<Rightarrow> bytes option \<Rightarrow> bytes list" where
  "range_keys m st en = sorted_list_of_set {k \<in> dom m. in_range st en k}"

definition range_entries :: "(bytes \<rightharpoonup> bytes) \<Rightarrow> bytes option \<Rightarrow> bytes option \<Rightarrow> entries" where
  "range_entries m st en = map (\<lambda>k. (k, the (m k))) (range_keys m st en)"

text \<open>A logical database under a key prefix; the empty key is not a key.\<close>

definition prefix_map :: "bytes \<Rightarrow> (bytes \<rightharpoonup> bytes) \<Rightarrow> (bytes \<rightharpoonup> bytes)" where
  "prefix_map p m = (\<lambda>k. if k = [] then None else m (p @ k))"

datatype batch_op = OpSet bytes bytes | OpDelete bytes

primrec op_key :: "batch_op \<Rightarrow> bytes" where
  "op_key (OpSet k v) = k"
| "op_key (OpDelete k) = k"

primrec op_value :: "batch_op \<Rightarrow> bytes option" where
  "op_value (OpSet k v) = Some v"
| "op_value (OpDelete k) = None"

definition apply_op :: "batch_op \<Rightarrow> (bytes \<rightharpoonup> bytes) \<Rightarrow> (bytes \<rightharpoonup> bytes)" where
  "apply_op p m = m(op_key p := op_value p)"

definition apply_ops :: "batch_op list \<Rightarrow> (bytes \<rightharpoonup> bytes) \<Rightarrow> (bytes \<rightharpoonup> bytes)" where
  "apply_ops ps m = fold apply_op ps m"

text \<open>A client call that adds one operation to a batch.\<close>

definition batch_push :: "('s, 'b, 'z) tmdb_scheme \<Rightarrow> 's \<Rightarrow> 'b \<Rightarrow> batch_op \<Rightarrow> 'b res" where
  "batch_push D s b p =
     (case p of OpSet k v \<Rightarrow> batch_Set D s b k v | OpDelete k \<Rightarrow> batch_Delete D s b k)"

section \<open>The documented contract\<close>

text \<open>
  \<open>keys\<close> is the set of keys the contract speaks about and \<open>inv\<close> the condition on the store
  under which it holds.
\<close>

locale kv_point =
  fixes D :: "('s, 'b, 'z) tmdb_scheme"
    and contents :: "'s \<Rightarrow> bytes \<rightharpoonup> bytes"
    and inv :: "'s \<Rightarrow> bool"
    and keys :: "bytes set"
  assumes finite_contents: "inv s \<Longrightarrow> finite (dom (contents s))"
    and contents_keys: "inv s \<Longrightarrow> contents s k \<noteq> None \<Longrightarrow> k \<in> keys"
    and get_contents: "inv s \<Longrightarrow> k \<in> keys \<Longrightarrow> tm_Get D s k = Ok (contents s k)"
    and has_contents: "inv s \<Longrightarrow> k \<in> keys \<Longrightarrow> tm_Has D s k = Ok (contents s k \<noteq> None)"

locale kv_read = kv_point D contents inv keys
  for D :: "('s, 'b, 'z) tmdb_scheme"
    and contents :: "'s \<Rightarrow> bytes \<rightharpoonup> bytes"
    and inv :: "'s \<Rightarrow> bool"
    and keys :: "bytes set" +
  assumes iter_contents: "inv s \<Longrightarrow> st \<noteq> Some [] \<Longrightarrow> en \<noteq> Some [] \<Longrightarrow>
      tm_Iterator D s st en = Ok (range_entries (contents s) st en)"
    and riter_contents: "inv s \<Longrightarrow> st \<noteq> Some [] \<Longrightarrow> en \<noteq> Some [] \<Longrightarrow>
      tm_ReverseIterator D s st en = Ok (rev (range_entries (contents s) st en))"

text \<open>
  \<open>holds s b ps\<close>: the open batch \<open>b\<close> over the store \<open>s\<close> has collected the operations \<open>ps\<close>.
\<close>

locale kv_batch =
  fixes D :: "('s, 'b, 'z) tmdb_scheme"
    and contents :: "'s \<Rightarrow> bytes \<rightharpoonup> bytes"
    and holds :: "'s \<Rightarrow> 'b \<Rightarrow> batch_op list \<Rightarrow> bool"
    and inv :: "'s \<Rightarrow> bool"
    and keys :: "bytes set"
  assumes batch_new: "inv s \<Longrightarrow> holds s (tm_NewBatch D s) []"
    and batch_push: "inv s \<Longrightarrow> holds s b ps \<Longrightarrow> op_key p \<in> keys \<Longrightarrow>
      \<exists>b'. batch_push D s b p = Ok b' \<and> holds s b' (ps @ [p])"
    and batch_write: "inv s \<Longrightarrow> holds s b ps \<Longrightarrow>
      \<exists>s' b'. batch_WriteSync D s b = Ok (s', b') \<and> inv s' \<and> contents s' = apply_ops ps (contents s)"
    and batch_close: "\<exists>b'. batch_Close D b = Ok b'"

locale kv_write =
  fixes D :: "('s, 'b, 'z) tmdb_scheme"
    and contents :: "'s \<Rightarrow> bytes \<rightharpoonup> bytes"
    and inv :: "'s \<Rightarrow> bool"
    and keys :: "bytes set"
  assumes set_contents: "inv s \<Longrightarrow> k \<in> keys \<Longrightarrow>
      \<exists>s'. tm_Set D s k v = Ok s' \<and> inv s' \<and> contents s' = (contents s)(k \<mapsto> v)"
    and delete_contents: "inv s \<Longrightarrow> k \<in> keys \<Longrightarrow>
      \<exists>s'. tm_Delete D s k = Ok s' \<and> inv s' \<and> contents s' = (contents s)(k := None)"

text \<open>
  A healthy GoLevelDB session: no I/O error, documented reads, ordered iteration, prefix
  databases, batches that apply their operations in the order they were added. The empty
  string is not a key.
\<close>

locale level_session =
  kv_read S contents "\<lambda>s. True" "- {[]}" +
  kv_write S contents "\<lambda>s. True" "- {[]}" +
  kv_batch S contents "\<lambda>s b ps. pending b = Some ps" "\<lambda>s. True" "- {[]}"
  for S :: "('s, 'b) leveldb"
    and contents :: "'s \<Rightarrow> bytes \<rightharpoonup> bytes"
    and pending :: "'b \<Rightarrow> batch_op list option" +
  assumes prefix_iter: "p \<noteq> [] \<Longrightarrow> st \<noteq> Some [] \<Longrightarrow> en \<noteq> Some [] \<Longrightarrow>
      prefix_Iterator S s p st en = Ok (range_entries (prefix_map p (contents s)) st en)"
    and prefix_riter: "p \<noteq> [] \<Longrightarrow> st \<noteq> Some [] \<Longrightarrow> en \<noteq> Some [] \<Longrightarrow>
      prefix_ReverseIterator S s p st en = Ok (rev (range_entries (prefix_map p (contents s)) st en))"

section \<open>Facts about ranges, prefixes and batches\<close>

lemma in_range_None [simp]: "in_range None None k"
  by (simp add: in_range_def)

lemma set_range_keys: "finite (dom m) \<Longrightarrow> set (range_keys m st en) = {k \<in> dom m. in_range st en k}"
  by (simp add: range_keys_def)

lemma sorted_range_keys: "sorted_wrt (<) (range_keys m st en)"
  by (simp add: range_keys_def)

lemma distinct_range_keys [simp]: "distinct (range_keys m st en)"
  using sorted_range_keys [of m st en] by (simp add: strict_sorted_iff)

lemma keys_range_entries [simp]: "map fst (range_entries m st en) = range_keys m st en"
  by (simp add: range_entries_def comp_def)

lemma sorted_range_entries: "sorted_wrt (<) (map fst (range_entries m st en))"
  by (simp add: sorted_range_keys)

lemma in_set_range_entries:
  "finite (dom m) \<Longrightarrow> (k, v) \<in> set (range_entries m st en) \<longleftrightarrow> m k = Some v \<and> in_range st en k"
  by (force simp: range_entries_def set_range_keys)

lemma range_entries_unique:
  assumes "finite (dom m)" and "sorted_wrt (<) (map fst es)"
    and "\<And>k v. (k, v) \<in> set es \<longleftrightarrow> m k = Some v \<and> in_range st en k"
  shows "range_entries m st en = es"
proof -
  have "set (map fst es) = {k \<in> dom m. in_range st en k}"
    using assms(3) by force
  moreover have "sorted_list_of_set (set (map fst es)) = map fst es"
    using assms(2) by (intro sorted_list_of_set.idem_if_sorted_distinct) (auto simp: strict_sorted_iff)
  ultimately have keys: "range_keys m st en = map fst es"
    by (simp add: range_keys_def)
  have "map (\<lambda>k. (k, the (m k))) (map fst es) = map (\<lambda>e. e) es"
    unfolding map_map o_def by (rule map_cong [OF refl]) (use assms(3) in force)
  then show ?thesis
    by (simp add: range_entries_def keys)
qed

lemma range_entries_Nil:
  assumes "finite (dom m)" and "\<And>k. m k \<noteq> None \<Longrightarrow> \<not> in_range st en k"
  shows "range_entries m st en = []"
  using assms by (intro range_entries_unique) auto

text \<open>The first entry of an ascending iteration, the last of it for a descending one.\<close>

lemma range_entries_first:
  assumes "finite (dom m)" and "m k = Some v" and "in_range st en k"
    and least: "\<And>k'. m k' \<noteq> None \<Longrightarrow> in_range st en k' \<Longrightarrow> k \<le> k'"
  shows "\<exists>es. range_entries m st en = (k, v) # es"
proof -
  obtain k0 v0 es where es: "range_entries m st en = (k0, v0) # es"
    using in_set_range_entries [OF assms(1), of k v st en] assms(2,3)
    by (cases "range_entries m st en") auto
  have "k0 \<le> k"
    using in_set_range_entries [OF assms(1), of k v st en] assms(2,3) sorted_range_entries [of m st en]
    by (auto simp: es)
  moreover have "m k0 = Some v0" and "in_range st en k0"
    using in_set_range_entries [OF assms(1), of k0 v0 st en] by (auto simp: es)
  ultimately have "k0 = k" and "v0 = v"
    using least [of k0] assms(2) by auto
  with es show ?thesis by simp
qed

lemma range_entries_last:
  assumes "finite (dom m)" and "m k = Some v" and "in_range st en k"
    and greatest: "\<And>k'. m k' \<noteq> None \<Longrightarrow> in_range st en k' \<Longrightarrow> k' \<le> k"
  shows "\<exists>es. rev (range_entries m st en) = (k, v) # es"
proof -
  have mem: "(k, v) \<in> set (range_entries m st en)"
    using assms(1-3) by (simp add: in_set_range_entries)
  then obtain es k0 v0 where es: "range_entries m st en = es @ [(k0, v0)]"
    by (cases "range_entries m st en" rule: rev_cases) auto
  have "k \<le> k0"
    using mem sorted_range_entries [of m st en]
    by (auto simp: es sorted_wrt_append)
  moreover have "m k0 = Some v0" and "in_range st en k0"
    using in_set_range_entries [OF assms(1), of k0 v0 st en] by (auto simp: es)
  ultimately have "k0 = k" and "v0 = v"
    using greatest [of k0] assms(2) by auto
  with es show ?thesis by simp
qed

lemma finite_dom_prefix_map [simp]: "finite (dom m) \<Longrightarrow> finite (dom (prefix_map p m))"
proof -
  assume "finite (dom m)"
  moreover have "(\<lambda>k. p @ k) ` dom (prefix_map p m) \<subseteq> dom m"
    by (auto simp: prefix_map_def split: if_splits)
  ultimately have "finite ((\<lambda>k. p @ k) ` dom (prefix_map p m))"
    by (rule rev_finite_subset)
  then show ?thesis
    by (rule finite_imageD) (simp add: inj_on_def)
qed

lemma prefix_map_Nil [simp]: "prefix_map p m [] = None"
  by (simp add: prefix_map_def)

lemma prefix_map_nonempty: "k \<noteq> [] \<Longrightarrow> prefix_map p m k = m (p @ k)"
  by (simp add: prefix_map_def)

lemma apply_ops_Nil [simp]: "apply_ops [] m = m"
  by (simp add: apply_ops_def)

lemma apply_ops_Cons [simp]: "apply_ops (p # ps) m = apply_ops ps (apply_op p m)"
  by (simp add: apply_ops_def)

lemma apply_ops_append [simp]: "apply_ops (ps @ qs) m = apply_ops qs (apply_ops ps m)"
  by (simp add: apply_ops_def)

text \<open>A batch leaves the keys it does not mention alone.\<close>

lemma apply_ops_other: "k \<notin> op_key ` set ps \<Longrightarrow> apply_ops ps m k = m k"
  by (induction ps arbitrary: m) (auto simp: apply_op_def)

lemma apply_ops_agree: "m k = m' k \<Longrightarrow> apply_ops ps m k = apply_ops ps m' k"
proof (induction ps arbitrary: m m')
  case (Cons p ps)
  then have "apply_op p m k = apply_op p m' k" by (simp add: apply_op_def)
  then show ?case unfolding apply_ops_Cons by (rule Cons.IH)
qed simp

text \<open>What a batch leaves under a key is decided by the last operation on it.\<close>

lemma apply_ops_last: "apply_ops (ps @ [p]) m (op_key p) = op_value p"
  by (simp add: apply_op_def)

lemma finite_dom_apply_ops [simp]: "finite (dom m) \<Longrightarrow> finite (dom (apply_ops ps m))"
proof (induction ps arbitrary: m)
  case (Cons p ps)
  have "finite (dom (apply_op p m))"
    using Cons.prems by (cases p) (simp_all add: apply_op_def)
  then show ?case
    using Cons.IH by simp
qed simp

section \<open>An in-memory instance of the contract\<close>

text \<open>
  An association list with the newest entry first, and batches that collect their operations
  until they are written or closed.
\<close>

type_synonym mem_store = entries
type_synonym mem_batch = "batch_op list option"

definition mem_entries :: "mem_store \<Rightarrow> bytes option \<Rightarrow> bytes option \<Rightarrow> entries" where
  "mem_entries s st en =
     map (\<lambda>k. (k, the (map_of s k))) (filter (in_range st en) (sort (remdups (map fst s))))"

definition mem_strip :: "bytes \<Rightarrow> mem_store \<Rightarrow> mem_store" where
  "mem_strip p s = map (\<lambda>e. (drop (length p) (fst e), snd e))
     (filter (\<lambda>e. take (length p) (fst e) = p \<and> length p < length (fst e)) s)"

definition mem_set :: "mem_store \<Rightarrow> bytes \<Rightarrow> bytes \<Rightarrow> mem_store res" where
  "mem_set s k v = (if k = [] then Err ''key cannot be empty'' else Ok ((k, v) # s))"

definition mem_delete :: "mem_store \<Rightarrow> bytes \<Rightarrow> mem_store res" where
  "mem_delete s k = (if k = [] then Err ''key cannot be empty'' else Ok (filter (\<lambda>e. fst e \<noteq> k) s))"

definition mem_apply :: "mem_store \<Rightarrow> batch_op list \<Rightarrow> mem_store" where
  "mem_apply s ps = fold (\<lambda>p s. case p of OpSet k v \<Rightarrow> (k, v) # s
     | OpDelete k \<Rightarrow> filter (\<lambda>e. fst e \<noteq> k) s) ps s"

definition mem_write :: "mem_store \<Rightarrow> mem_batch \<Rightarrow> (mem_store \<times> mem_batch) res" where
  "mem_write s b = (case b of None \<Rightarrow> Err ''batch has been written or closed''
     | Some ps \<Rightarrow> Ok (mem_apply s ps, None))"

definition mem_push :: "mem_batch \<Rightarrow> batch_op \<Rightarrow> mem_batch res" where
  "mem_push b p = (if op_key p = [] then Err ''key cannot be empty'' else
     (case b of None \<Rightarrow> Err ''batch has been written or closed'' | Some ps \<Rightarrow> Ok (Some (ps @ [p]))))"

definition mem_contents :: "mem_store \<Rightarrow> bytes \<rightharpoonup> bytes" where
  "mem_contents s k = (if k = [] then None else map_of s k)"

definition mem_db :: "(mem_store, mem_batch) leveldb" where
  "mem_db = \<lparr>
     tm_Get = (\<lambda>s k. if k = [] then Err ''key cannot be empty'' else Ok (map_of s k)),
     tm_Has = (\<lambda>s k. if k = [] then Err ''key cannot be empty'' else Ok (map_of s k \<noteq> None)),
     tm_Set = mem_set, tm_SetSync = mem_set, tm_Delete = mem_delete, tm_DeleteSync = mem_delete,
     tm_Iterator = (\<lambda>s st en. Ok (mem_entries (mem_strip [] s) st en)),
     tm_ReverseIterator = (\<lambda>s st en. Ok (rev (mem_entries (mem_strip [] s) st en))),
     tm_Close = Ok,
     tm_NewBatch = (\<lambda>s. Some []),
     batch_Set = (\<lambda>s b k v. mem_push b (OpSet k v)),
     batch_Delete = (\<lambda>s b k. mem_push b (OpDelete k)),
     batch_Write = mem_write, batch_WriteSync = mem_write, batch_Close = (\<lambda>b. Ok None),
     prefix_Iterator = (\<lambda>s p st en. Ok (mem_entries (mem_strip p s) st en)),
     prefix_ReverseIterator = (\<lambda>s p st en. Ok (rev (mem_entries (mem_strip p s) st en)))\<rparr>"

lemma map_of_mem_strip: "map_of (mem_strip p s) k = prefix_map p (map_of s) k"
proof -
  have eq: "take (length p) x = p \<and> length p < length x \<and> drop (length p) x = k
      \<longleftrightarrow> k \<noteq> [] \<and> x = p @ k" for x :: bytes
    by (metis append_take_drop_id append_eq_conv_conj drop_eq_Nil linorder_not_le)
  show ?thesis
  proof (induction s)
    case Nil
    then show ?case by (simp add: mem_strip_def prefix_map_def)
  next
    case (Cons e s)
    then show ?case
      using eq [of "fst e"] by (auto simp: mem_strip_def prefix_map_def split: if_splits)
  qed
qed

lemma mem_entries_range: "mem_entries s st en = range_entries (map_of s) st en"
proof (rule range_entries_unique [symmetric])
  show "finite (dom (map_of s))" by (rule finite_dom_map_of)
  have "sorted_wrt (<) (filter (in_range st en) (sort (remdups (map fst s))))"
    by (simp add: strict_sorted_iff sorted_wrt_filter)
  then show "sorted_wrt (<) (map fst (mem_entries s st en))"
    by (simp add: mem_entries_def comp_def)
  show "(k, v) \<in> set (mem_entries s st en) \<longleftrightarrow> map_of s k = Some v \<and> in_range st en k" for k v
    by (force simp: mem_entries_def dom_map_of_conv_image_fst [symmetric] image_iff)
qed

lemma mem_contents_prefix: "mem_contents s = prefix_map [] (map_of s)"
  by (auto simp: mem_contents_def prefix_map_def)

lemma mem_contents_mem_apply:
  "[] \<notin> op_key ` set ps \<Longrightarrow> mem_contents (mem_apply s ps) = apply_ops ps (mem_contents s)"
proof (induction ps arbitrary: s)
  case Nil
  then show ?case by (simp add: mem_apply_def)
next
  case (Cons p ps)
  have "map_of (filter (\<lambda>e. fst e \<noteq> k) s) = (map_of s)(k := None)" for k :: bytes
    by (auto simp: map_of_filter_in fun_eq_iff split: prod.splits)
       (induction s; auto)+
  then have "mem_contents (mem_apply s [p]) = apply_op p (mem_contents s)"
    using Cons.prems by (cases p) (auto simp: mem_apply_def mem_contents_def apply_op_def)
  moreover have "mem_apply s (p # ps) = mem_apply (mem_apply s [p]) ps"
    by (simp add: mem_apply_def)
  ultimately show ?case
    using Cons by simp
qed

definition mem_pending :: "mem_batch \<Rightarrow> batch_op list option" where
  "mem_pending b = (case b of None \<Rightarrow> None
     | Some ps \<Rightarrow> if [] \<in> op_key ` set ps then None else Some ps)"

lemma mem_pending_Some: "mem_pending b = Some ps \<longleftrightarrow> b = Some ps \<and> [] \<notin> op_key ` set ps"
  by (auto simp: mem_pending_def split: option.splits if_splits)

lemma mem_entries_strip:
  "mem_entries (mem_strip p s) st en = range_entries (prefix_map p (mem_contents s)) st en"
proof -
  have "map_of (mem_strip p s) = prefix_map p (mem_contents s)"
    by (auto simp: map_of_mem_strip prefix_map_def mem_contents_def)
  then show ?thesis by (simp add: mem_entries_range)
qed

lemma mem_set_ok: "k \<noteq> [] \<Longrightarrow>
    \<exists>s'. mem_set s k v = Ok s' \<and> mem_contents s' = (mem_contents s)(k \<mapsto> v)"
  by (auto simp: mem_set_def mem_contents_def)

lemma mem_delete_ok: "k \<noteq> [] \<Longrightarrow>
    \<exists>s'. mem_delete s k = Ok s' \<and> mem_contents s' = (mem_contents s)(k := None)"
  using mem_contents_mem_apply [of "[OpDelete k]" s]
  by (simp add: mem_delete_def mem_apply_def apply_op_def)

lemma mem_push_ok: "mem_pending b = Some ps \<Longrightarrow> op_key p \<noteq> [] \<Longrightarrow>
    \<exists>b'. mem_push b p = Ok b' \<and> mem_pending b' = Some (ps @ [p])"
  by (auto simp: mem_push_def mem_pending_def split: option.splits if_splits)

lemma mem_write_ok: "mem_pending b = Some ps \<Longrightarrow>
    \<exists>s' b'. mem_write s b = Ok (s', b') \<and> mem_contents s' = apply_ops ps (mem_contents s) \<and>
      mem_pending b' = None"
  by (auto simp: mem_write_def mem_pending_def mem_contents_mem_apply split: option.splits if_splits)

interpretation mem: level_session mem_db mem_contents mem_pending
proof unfold_locales
  show "finite (dom (mem_contents s))" for s
    by (simp add: mem_contents_prefix finite_dom_map_of)
  have "prefix_map [] (mem_contents s) = mem_contents s" for s
    by (auto simp: prefix_map_def mem_contents_def)
  then show "tm_Iterator mem_db s st en = Ok (range_entries (mem_contents s) st en)"
    and "tm_ReverseIterator mem_db s st en = Ok (rev (range_entries (mem_contents s) st en))"
    for s st en by (simp_all add: mem_db_def mem_entries_strip)
  have "batch_push mem_db s b p = mem_push b p" for s b p
    by (cases p) (simp_all add: batch_push_def mem_db_def)
  then show "\<exists>b'. batch_push mem_db s b p = Ok b' \<and> mem_pending b' = Some (ps @ [p])"
    if "mem_pending b = Some ps" "op_key p \<in> - {[]}" for s b p ps
    using mem_push_ok that by simp
  show "\<exists>s' b'. batch_WriteSync mem_db s b = Ok (s', b') \<and> True \<and>
      mem_contents s' = apply_ops ps (mem_contents s)" if "mem_pending b = Some ps" for s b ps
    using mem_write_ok [OF that, of s] by (auto simp: mem_db_def)
  show "k \<in> - {[]}" if "mem_contents s k \<noteq> None" for s k
    using that by (auto simp: mem_contents_def)
qed (use mem_set_ok mem_delete_ok in
    \<open>simp_all add: mem_db_def mem_contents_def mem_entries_strip mem_pending_def\<close>)

end
