(* ===== verification/Rollbackable.thy ===== *)
theory Rollbackable
  imports Tm_DB
begin

text \<open>
  \<open>src/db/rollbackable/rollbackable_batch.go\<close>: a batch that records, next to the operations
  it collects, a second batch that restores the value every touched key had in the database.
\<close>

section \<open>Definitions\<close>

record 'b rollbackable =
  rb_Batch :: 'b
  rb_RollbackBatch :: 'b
  rb_RecordCount :: int

definition NewRollbackableBatch :: "('s, 'b, 'z) tmdb_scheme \<Rightarrow> 's \<Rightarrow> 'b rollbackable" where
  "NewRollbackableBatch D s =
     \<lparr>rb_Batch = tm_NewBatch D s, rb_RollbackBatch = tm_NewBatch D s, rb_RecordCount = 0\<rparr>"

definition rb_backup ::
  "('s, 'b, 'z) tmdb_scheme \<Rightarrow> 's \<Rightarrow> 'b rollbackable \<Rightarrow> bytes \<Rightarrow> 'b rollbackable res" where
  "rb_backup D s b key =
     (let b = b\<lparr>rb_RecordCount := rb_RecordCount b + 1\<rparr> in
      bind_res (tm_Get D s key) (\<lambda>data.
        map_ok (\<lambda>r. b\<lparr>rb_RollbackBatch := r\<rparr>)
          (case data of
             None \<Rightarrow> batch_Delete D s (rb_RollbackBatch b) key
           | Some v \<Rightarrow> batch_Set D s (rb_RollbackBatch b) key v)))"

definition rb_Set ::
  "('s, 'b, 'z) tmdb_scheme \<Rightarrow> 's \<Rightarrow> 'b rollbackable \<Rightarrow> bytes \<Rightarrow> bytes \<Rightarrow> 'b rollbackable res" where
  "rb_Set D s b key value =
     bind_res (rb_backup D s b key) (\<lambda>b.
       map_ok (\<lambda>x. b\<lparr>rb_Batch := x\<rparr>) (batch_Set D s (rb_Batch b) key value))"

definition rb_Delete ::
  "('s, 'b, 'z) tmdb_scheme \<Rightarrow> 's \<Rightarrow> 'b rollbackable \<Rightarrow> bytes \<Rightarrow> 'b rollbackable res" where
  "rb_Delete D s b key =
     bind_res (rb_backup D s b key) (\<lambda>b.
       map_ok (\<lambda>x. b\<lparr>rb_Batch := x\<rparr>) (batch_Delete D s (rb_Batch b) key))"

text \<open>The embedded \<open>tmdb.Batch\<close> serves the remaining methods of the interface.\<close>

definition rb_Write ::
  "('s, 'b, 'z) tmdb_scheme \<Rightarrow> 's \<Rightarrow> 'b rollbackable \<Rightarrow> ('s \<times> 'b rollbackable) res" where
  "rb_Write D s b = map_ok (\<lambda>(s', x). (s', b\<lparr>rb_Batch := x\<rparr>)) (batch_Write D s (rb_Batch b))"

definition rb_WriteSync ::
  "('s, 'b, 'z) tmdb_scheme \<Rightarrow> 's \<Rightarrow> 'b rollbackable \<Rightarrow> ('s \<times> 'b rollbackable) res" where
  "rb_WriteSync D s b = map_ok (\<lambda>(s', x). (s', b\<lparr>rb_Batch := x\<rparr>)) (batch_WriteSync D s (rb_Batch b))"

definition rb_Close :: "('s, 'b, 'z) tmdb_scheme \<Rightarrow> 'b rollbackable \<Rightarrow> 'b rollbackable res" where
  "rb_Close D b = map_ok (\<lambda>x. b\<lparr>rb_Batch := x\<rparr>) (batch_Close D (rb_Batch b))"

text \<open>A sequence of client calls on the batch, as the operations they add.\<close>

definition rb_push ::
  "('s, 'b, 'z) tmdb_scheme \<Rightarrow> 's \<Rightarrow> 'b rollbackable \<Rightarrow> batch_op \<Rightarrow> 'b rollbackable res" where
  "rb_push D s b p = (case p of OpSet k v \<Rightarrow> rb_Set D s b k v | OpDelete k \<Rightarrow> rb_Delete D s b k)"

fun rb_run ::
  "('s, 'b, 'z) tmdb_scheme \<Rightarrow> 's \<Rightarrow> 'b rollbackable \<Rightarrow> batch_op list \<Rightarrow> 'b rollbackable res" where
  "rb_run D s b [] = Ok b"
| "rb_run D s b (p # ps) = bind_res (rb_push D s b p) (\<lambda>b. rb_run D s b ps)"

section \<open>Undoing a batch\<close>

text \<open>The operation that gives a key back the value it has in \<open>m\<close>.\<close>

definition undo_op :: "(bytes \<rightharpoonup> bytes) \<Rightarrow> batch_op \<Rightarrow> batch_op" where
  "undo_op m p = (case m (op_key p) of None \<Rightarrow> OpDelete (op_key p) | Some v \<Rightarrow> OpSet (op_key p) v)"

lemma op_key_undo_op [simp]: "op_key (undo_op m p) = op_key p"
  by (simp add: undo_op_def split: option.split)

lemma op_value_undo_op [simp]: "op_value (undo_op m p) = m (op_key p)"
  by (simp add: undo_op_def split: option.split)

lemma apply_undo_agree:
  "apply_ops (map (undo_op m) ps) m' k = (if k \<in> op_key ` set ps then m k else m' k)"
  by (induction ps arbitrary: m') (auto simp: apply_op_def)

lemma apply_undo: "apply_ops (map (undo_op m) ps) (apply_ops ps m) = m"
  by (rule ext) (simp add: apply_undo_agree apply_ops_other)

section \<open>What the two batches hold\<close>

text \<open>
  \<open>rb_holds\<close>: the collected batch holds the operations \<open>ps\<close> in order and the rollback batch
  holds their undo operations with respect to the stored contents \<open>m\<close>.
\<close>

definition rb_holds ::
  "('b \<Rightarrow> batch_op list option) \<Rightarrow> (bytes \<rightharpoonup> bytes) \<Rightarrow> 'b rollbackable \<Rightarrow> batch_op list \<Rightarrow> bool" where
  "rb_holds pending m b ps \<longleftrightarrow>
     pending (rb_Batch b) = Some ps \<and> pending (rb_RollbackBatch b) = Some (map (undo_op m) ps) \<and>
     rb_RecordCount b = int (length ps)"

context level_session
begin

lemma rb_holds_new: "rb_holds pending (contents s) (NewRollbackableBatch S s) []"
  by (simp add: rb_holds_def NewRollbackableBatch_def batch_new)

lemma rb_backup_holds:
  assumes "rb_holds pending (contents s) b ps" and "op_key p \<noteq> []"
  shows "\<exists>r. rb_backup S s b (op_key p) =
      Ok (b\<lparr>rb_RecordCount := rb_RecordCount b + 1, rb_RollbackBatch := r\<rparr>) \<and>
    pending r = Some (map (undo_op (contents s)) (ps @ [p]))"
proof -
  have "pending (rb_RollbackBatch b) = Some (map (undo_op (contents s)) ps)"
    using assms(1) by (simp add: rb_holds_def)
  from batch_push [OF _ this, of "undo_op (contents s) p" s] assms(2)
  obtain r where r: "batch_push S s (rb_RollbackBatch b) (undo_op (contents s) p) = Ok r"
    and "pending r = Some (map (undo_op (contents s)) (ps @ [p]))"
    by auto
  moreover have "rb_backup S s b (op_key p) =
      map_ok (\<lambda>r. b\<lparr>rb_RecordCount := rb_RecordCount b + 1, rb_RollbackBatch := r\<rparr>)
        (batch_push S s (rb_RollbackBatch b) (undo_op (contents s) p))"
    using assms(2)
    by (cases "contents s (op_key p)")
       (simp_all add: rb_backup_def get_contents undo_op_def batch_push_def)
  ultimately show ?thesis by auto
qed

lemma rb_push_eq: "rb_push S s b p =
    bind_res (rb_backup S s b (op_key p)) (\<lambda>b.
      map_ok (\<lambda>x. b\<lparr>rb_Batch := x\<rparr>) (batch_push S s (rb_Batch b) p))"
  by (cases p) (simp_all add: rb_push_def rb_Set_def rb_Delete_def batch_push_def)

lemma rb_push_holds:
  assumes "rb_holds pending (contents s) b ps" and "op_key p \<noteq> []"
  shows "\<exists>b'. rb_push S s b p = Ok b' \<and> rb_holds pending (contents s) b' (ps @ [p])"
proof -
  obtain r where r: "rb_backup S s b (op_key p) =
      Ok (b\<lparr>rb_RecordCount := rb_RecordCount b + 1, rb_RollbackBatch := r\<rparr>)"
    and pr: "pending r = Some (map (undo_op (contents s)) (ps @ [p]))"
    using rb_backup_holds [OF assms] by blast
  have pend: "pending (rb_Batch b) = Some ps" and n: "rb_RecordCount b = int (length ps)"
    using assms(1) by (simp_all add: rb_holds_def)
  obtain x where "batch_push S s (rb_Batch b) p = Ok x" and "pending x = Some (ps @ [p])"
    using batch_push [OF _ pend, of p s] assms(2) by auto
  with r pr n show ?thesis
    by (simp add: rb_push_eq rb_holds_def)
qed

lemma rb_run_holds:
  assumes "rb_holds pending (contents s) b ps" and "[] \<notin> op_key ` set qs"
  shows "\<exists>b'. rb_run S s b qs = Ok b' \<and> rb_holds pending (contents s) b' (ps @ qs)"
  using assms
proof (induction qs arbitrary: b ps)
  case Nil
  then show ?case by simp
next
  case (Cons q qs)
  obtain b1 where b1: "rb_push S s b q = Ok b1" "rb_holds pending (contents s) b1 (ps @ [q])"
    using rb_push_holds [OF Cons.prems(1), of q] Cons.prems(2) by auto
  from Cons.IH [OF b1(2)] Cons.prems(2) obtain b' where
    "rb_run S s b1 qs = Ok b'" "rb_holds pending (contents s) b' (ps @ q # qs)"
    by auto
  with b1(1) show ?case by simp
qed

lemma rb_write_holds:
  assumes "rb_holds pending (contents s) b ps"
  shows "\<exists>s' b'. rb_WriteSync S s b = Ok (s', b') \<and> contents s' = apply_ops ps (contents s) \<and>
    rb_RollbackBatch b' = rb_RollbackBatch b"
proof -
  have "pending (rb_Batch b) = Some ps"
    using assms by (simp add: rb_holds_def)
  from batch_write [OF _ this, of s] show ?thesis
    by (auto simp: rb_WriteSync_def)
qed

text \<open>Writing the rollback batch after the batch gives the store its earlier contents.\<close>

lemma rollback_restores:
  assumes "rb_holds pending (contents s) b ps"
    and "rb_WriteSync S s b = Ok (s1, b1)"
  shows "\<exists>s2 r. batch_WriteSync S s1 (rb_RollbackBatch b1) = Ok (s2, r) \<and> contents s2 = contents s"
proof -
  obtain "contents s1 = apply_ops ps (contents s)" and same: "rb_RollbackBatch b1 = rb_RollbackBatch b"
    using rb_write_holds [OF assms(1)] assms(2) by auto
  moreover have "pending (rb_RollbackBatch b1) = Some (map (undo_op (contents s)) ps)"
    using assms(1) same by (simp add: rb_holds_def)
  ultimately show ?thesis
    using batch_write [of "rb_RollbackBatch b1" _ s1] by (force simp: apply_undo)
qed

end

end
