(* ===== verification/Lib_Bytes.thy ===== *)
theory Lib_Bytes
  imports Prelude
begin

unbundle bit_operations_syntax

text \<open>
  The byte helpers of \<open>src/lib/bytes.go\<close>: concatenation and the big-endian encoding of
  64 bit numbers that orders keys by height. The shifts and masks are those of Go's
  \<open>binary.BigEndian\<close>.
\<close>

section \<open>Definitions\<close>

definition ConcatBytes :: "bytes list \<Rightarrow> bytes" where
  "ConcatBytes items = foldl (\<lambda>buf item. buf @ item) [] items"

definition UintToBigEndian :: "uint64 \<Rightarrow> bytes" where
  "UintToBigEndian n = map (\<lambda>i. ucast (drop_bit (8 * i) n)) [7, 6, 5, 4, 3, 2, 1, 0]"

definition BigEndianToUint :: "bytes \<Rightarrow> uint64 res" where
  "BigEndianToUint bs =
     (if length bs < 8 then Panic ''runtime error: index out of range''
      else Ok (foldl (\<lambda>acc b. push_bit 8 acc OR ucast b) 0 (take 8 bs)))"

section \<open>Lemmas\<close>

lemma foldl_append_concat: "foldl (@) buf items = buf @ concat items"
  by (induction items arbitrary: buf) auto

lemma ConcatBytes_concat: "ConcatBytes items = concat items"
  using foldl_append_concat [of "[]" items] by (simp add: ConcatBytes_def)

lemma length_UintToBigEndian [simp]: "length (UintToBigEndian n) = 8"
  by (simp add: UintToBigEndian_def)

lemma UintToBigEndian_not_Nil [simp]: "UintToBigEndian n \<noteq> []"
  using length_UintToBigEndian [of n] by fastforce

lemma ucast_drop_bit_digit: "(ucast (drop_bit (8 * i) (n :: uint64)) :: byte) = of_nat (unat n div 256 ^ i)"
proof -
  have "unat (drop_bit (8 * i) n) = unat n div 256 ^ i"
    unfolding unat_drop_bit_eq by (simp add: drop_bit_eq_div power_mult)
  then show ?thesis
    by (metis of_nat_unat)
qed

lemma unat_uint64_less: "unat (n :: uint64) < 18446744073709551616"
  using unsigned_less [of n, where 'a = nat] by simp

lemma UintToBigEndian_digits: "UintToBigEndian n = be_digits 8 (unat n)"
  unfolding UintToBigEndian_def be_digits_def ucast_drop_bit_digit by (simp add: upt_rec)

lemma be_nat_UintToBigEndian [simp]: "be_nat (UintToBigEndian n) = unat n"
  using unat_uint64_less [of n] by (simp add: UintToBigEndian_digits be_nat_be_digits)

lemma push_byte: "push_bit 8 (acc :: uint64) OR ucast (b :: byte) = acc * 256 + ucast b"
proof -
  have "push_bit 8 acc + ucast b = push_bit 8 acc OR ucast b"
    by (rule disjunctive_add) (auto simp: bit_simps dest: bit_imp_le_length)
  then show ?thesis by (simp add: push_bit_eq_mult)
qed

lemma foldl_push_bytes:
  "foldl (\<lambda>acc b. push_bit 8 acc OR ucast b) acc (bs :: bytes)
     = acc * 256 ^ length bs + (of_nat (be_nat bs) :: uint64)"
proof (induction bs arbitrary: acc)
  case Nil
  then show ?case by simp
next
  case (Cons b bs)
  then show ?case
    by (simp add: push_byte be_nat_Cons algebra_simps)
qed

lemma BigEndianToUint_be_nat:
  "length bs = 8 \<Longrightarrow> BigEndianToUint bs = Ok (of_nat (be_nat bs))"
  by (simp add: BigEndianToUint_def foldl_push_bytes)

lemma UintToBigEndian_less_iff: "UintToBigEndian m < UintToBigEndian n \<longleftrightarrow> m < n"
  by (simp add: be_nat_less_iff word_less_nat_alt)

lemma UintToBigEndian_le_iff: "UintToBigEndian m \<le> UintToBigEndian n \<longleftrightarrow> m \<le> n"
  by (simp add: be_nat_le_iff word_le_nat_alt)

lemma UintToBigEndian_inject [simp]: "UintToBigEndian m = UintToBigEndian n \<longleftrightarrow> m = n"
  by (metis be_nat_UintToBigEndian word_unat_eq_iff)

lemma UintToBigEndian_surj: "length bs = 8 \<Longrightarrow> \<exists>n. bs = UintToBigEndian n"
proof -
  assume len: "length bs = 8"
  then have "be_nat bs < 2 ^ 64"
    using be_nat_less [of bs] by simp
  then have "be_nat (UintToBigEndian (of_nat (be_nat bs))) = be_nat bs"
    by (simp add: unat_of_nat)
  then have "UintToBigEndian (of_nat (be_nat bs)) = bs"
    by (intro be_nat_inj) (simp_all add: len)
  then show ?thesis by metis
qed

lemma UintToBigEndian_hd:
  "\<exists>x xs. UintToBigEndian n = x # xs \<and> unat x = unat n div 256 ^ 7 \<and> length xs = 7"
proof -
  have "unat n div 256 ^ 7 < 256"
    using unat_uint64_less [of n] by (simp add: less_mult_imp_div_less)
  moreover have "UintToBigEndian n = of_nat (unat n div 256 ^ 7) # be_digits 7 (unat n)"
    using be_digits_Suc [of 7 "unat n"] by (simp add: UintToBigEndian_digits)
  ultimately show ?thesis
    by (simp add: unat_of_nat)
qed

end
