(* ===== verification/Hld_Height.thy ===== *)
theory Hld_Height
  imports Prelude "HOL-Library.Signed_Division"
begin

text \<open>
  Block heights of \<open>src/db/hld/cluster_utils.go\<close>. A \<open>Height\<close> is an \<open>int64\<close>, kept at
  its width; signed comparisons are \<open><s\<close> and \<open>\<le>s\<close>, Go's division truncates.
\<close>

section \<open>Definitions\<close>

type_synonym Height = int64

definition maxHeight :: Height where
  "maxHeight = 9223372036854775807"

definition Height_Cluster :: "Height \<Rightarrow> Height" where
  "Height_Cluster h = word_of_int (sint h sdiv 1000)"

definition Height_ToInt64 :: "Height \<Rightarrow> int64" where
  "Height_ToInt64 h = h"

definition Height_IsLatestHeight :: "Height \<Rightarrow> bool" where
  "Height_IsLatestHeight h = (if h = maxHeight then True else False)"

definition Height_CurrentOrLatest :: "Height \<Rightarrow> Height" where
  "Height_CurrentOrLatest h = (if h = 0 then maxHeight else h)"

definition Height_CurrentOrNever :: "Height \<Rightarrow> Height" where
  "Height_CurrentOrNever h = (if h = 0 then - 1 else h)"

definition Key_CurrentOrDefault :: "bytes option \<Rightarrow> bytes" where
  "Key_CurrentOrDefault k = (case k of Some b \<Rightarrow> b | None \<Rightarrow> [0])"

section \<open>Lemmas\<close>

lemma sint_maxHeight: "sint maxHeight = 2 ^ 63 - 1"
  by (simp add: maxHeight_def)

text \<open>No height exceeds the sentinel for the latest height.\<close>

lemma maxHeight_greatest: "h \<le>s maxHeight"
  using sint_lt [of h] by (simp add: word_sle_eq sint_maxHeight)

lemma Height_CurrentOrLatest_idem [simp]:
  "Height_CurrentOrLatest (Height_CurrentOrLatest h) = Height_CurrentOrLatest h"
  by (simp add: Height_CurrentOrLatest_def maxHeight_def)

lemma Height_CurrentOrLatest_nonzero [simp]: "h \<noteq> 0 \<Longrightarrow> Height_CurrentOrLatest h = h"
  by (simp add: Height_CurrentOrLatest_def)

end
