(* ===== verification/He_LevelDB.thy ===== *)
theory He_LevelDB
  imports Tm_DB Rollbackable Lib_Bytes Hld_Height
begin

text \<open>
  The height-aware LevelDB driver of \<open>src/db/heleveldb\<close>. Every client key is stored three
  times in one session: its current value under prefix 0, an entry of the iteration index
  under prefix 1, and one version per height under prefix 2, where the height is an eight
  byte suffix of the key and the first byte of the value tells a deletion from a value.
  The session is a parameter (\<open>S\<close>, its state \<open>s\<close>); a driver value holds its mode only.
\<close>

section \<open>Keys and heights (\<open>types.go\<close>)\<close>

definition DriverModeKeySuffixAsc :: int where
  "DriverModeKeySuffixAsc = 0"

definition DriverModeKeySuffixDesc :: int where
  "DriverModeKeySuffixDesc = 1"

definition cCurrentDataPrefix :: bytes where
  "cCurrentDataPrefix = [0]"

definition cKeysForIteratorPrefix :: bytes where
  "cKeysForIteratorPrefix = [1]"

definition cDataWithHeightPrefix :: bytes where
  "cDataWithHeightPrefix = [2]"

definition prefixCurrentDataKey :: "bytes \<Rightarrow> bytes" where
  "prefixCurrentDataKey key = cCurrentDataPrefix @ key"

definition prefixKeysForIteratorKey :: "bytes \<Rightarrow> bytes" where
  "prefixKeysForIteratorKey key = cKeysForIteratorPrefix @ key"

definition prefixDataWithHeightKey :: "bytes \<Rightarrow> bytes" where
  "prefixDataWithHeightKey key = cDataWithHeightPrefix @ key"

definition maxUint64 :: uint64 where
  "maxUint64 = 18446744073709551615"

definition serializeHeight :: "int \<Rightarrow> int64 \<Rightarrow> bytes" where
  "serializeHeight mode height =
     (if mode = DriverModeKeySuffixAsc then UintToBigEndian height
      else UintToBigEndian (maxUint64 - height))"

definition deserializeHeight :: "int \<Rightarrow> bytes \<Rightarrow> int64 res" where
  "deserializeHeight mode data =
     (if mode = DriverModeKeySuffixAsc then BigEndianToUint data
      else map_ok (\<lambda>n. maxUint64 - n) (BigEndianToUint data))"

section \<open>Driver (\<open>leveldb_driver.go\<close>)\<close>

record driver =
  drv_mode :: int

record DriverConfig =
  cfg_Name :: string
  cfg_Dir :: string
  cfg_Mode :: int

text \<open>\<open>open_db\<close> is \<open>tmdb.NewGoLevelDB\<close>, which opens or creates the session.\<close>

definition NewLevelDBDriver ::
  "(string \<Rightarrow> string \<Rightarrow> 's res) \<Rightarrow> DriverConfig \<Rightarrow> ('s \<times> driver) res" where
  "NewLevelDBDriver open_db config =
     bind_res (open_db (cfg_Name config) (cfg_Dir config)) (\<lambda>ldb.
       Ok (ldb, \<lparr>drv_mode = cfg_Mode config\<rparr>))"

definition newInnerIterator ::
  "('s, 'b) leveldb \<Rightarrow> driver \<Rightarrow> 's \<Rightarrow> int64 \<Rightarrow> bytes \<Rightarrow> entries res" where
  "newInnerIterator S d s requestHeight pdb =
     (if drv_mode d = DriverModeKeySuffixAsc
      then let heightEnd = UintToBigEndian (requestHeight + 1)
           in prefix_ReverseIterator S s pdb None (Some heightEnd)
      else let heightStart = UintToBigEndian (maxUint64 - requestHeight)
           in prefix_Iterator S s pdb (Some heightStart) None)"

text \<open>
  The error of \<open>newInnerIterator\<close> is dropped; the deferred \<open>iter.Close()\<close> on the nil
  iterator it comes with panics.
\<close>

definition driver_Get ::
  "('s, 'b) leveldb \<Rightarrow> driver \<Rightarrow> 's \<Rightarrow> int64 \<Rightarrow> bytes \<Rightarrow> bytes option res" where
  "driver_Get S d s maxH key =
     (if maxH = 0 then tm_Get S s (prefixCurrentDataKey key)
      else
        let requestHeight = Height_ToInt64 (Height_CurrentOrLatest maxH);
            requestHeightMin = Height_ToInt64 (Height_CurrentOrNever 0)
        in if requestHeight <s requestHeightMin then Err ''invalid height''
           else (case newInnerIterator S d s requestHeight (prefixDataWithHeightKey key) of
               Err e \<Rightarrow> Panic ''runtime error: invalid memory address or nil pointer dereference''
             | Panic p \<Rightarrow> Panic p
             | Ok iter \<Rightarrow>
                 if \<not> it_Valid iter then Ok None
                 else bind_res (it_Value iter) (\<lambda>value.
                   case value of
                     [] \<Rightarrow> Panic ''runtime error: index out of range''
                   | deleted # rest \<Rightarrow>
                       if deleted = 1 then Ok None
                       else if length value > 1 then Ok (Some rest) else Ok (Some []))))"

definition driver_Has ::
  "('s, 'b) leveldb \<Rightarrow> driver \<Rightarrow> 's \<Rightarrow> int64 \<Rightarrow> bytes \<Rightarrow> bool res" where
  "driver_Has S d s maxH key =
     (if maxH = 0 then tm_Has S s (prefixCurrentDataKey key)
      else
        let requestHeight = Height_ToInt64 (Height_CurrentOrLatest maxH);
            requestHeightMin = Height_ToInt64 (Height_CurrentOrNever 0)
        in if requestHeight <s requestHeightMin then Err ''invalid height''
           else (case newInnerIterator S d s requestHeight (prefixDataWithHeightKey key) of
               Err e \<Rightarrow> Panic ''runtime error: invalid memory address or nil pointer dereference''
             | Panic p \<Rightarrow> Panic p
             | Ok iter \<Rightarrow>
                 if \<not> it_Valid iter then Ok False
                 else bind_res (it_Value iter) (\<lambda>value.
                   case value of
                     [] \<Rightarrow> Panic ''runtime error: index out of range''
                   | deleted # rest \<Rightarrow> if deleted = 1 then Ok False else Ok True)))"

definition driver_Set :: "'s \<Rightarrow> int64 \<Rightarrow> bytes \<Rightarrow> bytes \<Rightarrow> 's res" where
  "driver_Set s atHeight key value = Panic ''should never reach here''"

definition driver_SetSync :: "'s \<Rightarrow> int64 \<Rightarrow> bytes \<Rightarrow> bytes \<Rightarrow> 's res" where
  "driver_SetSync s atHeight key value = Panic ''should never reach here''"

definition driver_Delete :: "'s \<Rightarrow> int64 \<Rightarrow> bytes \<Rightarrow> 's res" where
  "driver_Delete s atHeight key = Panic ''should never reach here''"

definition driver_DeleteSync :: "'s \<Rightarrow> int64 \<Rightarrow> bytes \<Rightarrow> 's res" where
  "driver_DeleteSync s atHeight key = driver_Delete s atHeight key"

section \<open>Iterator (\<open>leveldb_iterator.go\<close>)\<close>

text \<open>
  The embedded iterator runs over the index; \<open>Valid\<close> skips keys without a live value at
  the height and caches the value it found. \<open>bytes.Equal\<close> does not tell a nil slice from an
  empty one, so the cached key starts as the empty string.
\<close>

record level_iter =
  li_driver :: driver
  li_Iterator :: entries
  li_maxHeight :: int64
  li_start :: "bytes option"
  li_end :: "bytes option"
  li_lastValidKey :: bytes
  li_lastValidValue :: "bytes option"

definition NewLevelDBIterator ::
  "('s, 'b) leveldb \<Rightarrow> driver \<Rightarrow> 's \<Rightarrow> int64 \<Rightarrow> bytes option \<Rightarrow> bytes option \<Rightarrow> level_iter res" where
  "NewLevelDBIterator S d s maxH start end =
     bind_res (prefix_Iterator S s cKeysForIteratorPrefix start end) (\<lambda>iter.
       Ok \<lparr>li_driver = d, li_Iterator = iter, li_maxHeight = maxH, li_start = start, li_end = end,
           li_lastValidKey = [], li_lastValidValue = None\<rparr>)"

definition NewLevelDBReverseIterator ::
  "('s, 'b) leveldb \<Rightarrow> driver \<Rightarrow> 's \<Rightarrow> int64 \<Rightarrow> bytes option \<Rightarrow> bytes option \<Rightarrow> level_iter res" where
  "NewLevelDBReverseIterator S d s maxH start end =
     bind_res (prefix_ReverseIterator S s cKeysForIteratorPrefix start end) (\<lambda>iter.
       Ok \<lparr>li_driver = d, li_Iterator = iter, li_maxHeight = maxH, li_start = start, li_end = end,
           li_lastValidKey = [], li_lastValidValue = None\<rparr>)"

definition level_Domain :: "level_iter \<Rightarrow> (bytes option \<times> bytes option) res" where
  "level_Domain i = Panic ''implement me''"

definition level_Key :: "level_iter \<Rightarrow> bytes res" where
  "level_Key i = it_Key (li_Iterator i)"

definition level_Next :: "level_iter \<Rightarrow> level_iter res" where
  "level_Next i = map_ok (\<lambda>it. i\<lparr>li_Iterator := it\<rparr>) (it_Next (li_Iterator i))"

text \<open>The loop of \<open>Valid\<close>, on the entries of the embedded iterator.\<close>

fun level_Valid_loop ::
  "('s, 'b) leveldb \<Rightarrow> 's \<Rightarrow> level_iter \<Rightarrow> entries \<Rightarrow> (bool \<times> level_iter) res" where
  "level_Valid_loop S s i [] = Ok (False, i\<lparr>li_Iterator := []\<rparr>)"
| "level_Valid_loop S s i (e # it) =
     (if li_lastValidKey i = fst e then Ok (True, i\<lparr>li_Iterator := e # it\<rparr>)
      else (case driver_Get S (li_driver i) s (li_maxHeight i) (fst e) of
          Panic p \<Rightarrow> Panic p
        | Err _ \<Rightarrow> level_Valid_loop S s i it
        | Ok None \<Rightarrow> level_Valid_loop S s i it
        | Ok (Some val) \<Rightarrow>
            Ok (True, i\<lparr>li_Iterator := e # it, li_lastValidKey := fst e,
                       li_lastValidValue := Some val\<rparr>)))"

definition level_Valid :: "('s, 'b) leveldb \<Rightarrow> 's \<Rightarrow> level_iter \<Rightarrow> (bool \<times> level_iter) res" where
  "level_Valid S s i = level_Valid_loop S s i (li_Iterator i)"

definition level_Value :: "('s, 'b) leveldb \<Rightarrow> 's \<Rightarrow> level_iter \<Rightarrow> bytes option res" where
  "level_Value S s i =
     bind_res (level_Key i) (\<lambda>key.
       if li_lastValidKey i = key then Ok (li_lastValidValue i)
       else (case driver_Get S (li_driver i) s (li_maxHeight i) key of
           Err e \<Rightarrow> Panic e
         | Panic p \<Rightarrow> Panic p
         | Ok val \<Rightarrow> Ok val))"

text \<open>What the driver hands out: a plain iterator of the current data or a height iterator.\<close>

datatype hl_iterator = CurrentIter entries | HeightIter level_iter

definition driver_Iterator ::
  "('s, 'b) leveldb \<Rightarrow> driver \<Rightarrow> 's \<Rightarrow> int64 \<Rightarrow> bytes option \<Rightarrow> bytes option \<Rightarrow> hl_iterator res" where
  "driver_Iterator S d s maxH start end =
     (if maxH = 0 then map_ok CurrentIter (prefix_Iterator S s cCurrentDataPrefix start end)
      else map_ok HeightIter (NewLevelDBIterator S d s maxH start end))"

definition driver_ReverseIterator ::
  "('s, 'b) leveldb \<Rightarrow> driver \<Rightarrow> 's \<Rightarrow> int64 \<Rightarrow> bytes option \<Rightarrow> bytes option \<Rightarrow> hl_iterator res" where
  "driver_ReverseIterator S d s maxH start end =
     (if maxH = 0 then map_ok CurrentIter (prefix_ReverseIterator S s cCurrentDataPrefix start end)
      else map_ok HeightIter (NewLevelDBReverseIterator S d s maxH start end))"

definition hl_Valid :: "('s, 'b) leveldb \<Rightarrow> 's \<Rightarrow> hl_iterator \<Rightarrow> (bool \<times> hl_iterator) res" where
  "hl_Valid S s i = (case i of
       CurrentIter it \<Rightarrow> Ok (it_Valid it, i)
     | HeightIter li \<Rightarrow> map_ok (\<lambda>(ok, li). (ok, HeightIter li)) (level_Valid S s li))"

definition hl_Key :: "hl_iterator \<Rightarrow> bytes res" where
  "hl_Key i = (case i of CurrentIter it \<Rightarrow> it_Key it | HeightIter li \<Rightarrow> level_Key li)"

definition hl_Value :: "('s, 'b) leveldb \<Rightarrow> 's \<Rightarrow> hl_iterator \<Rightarrow> bytes option res" where
  "hl_Value S s i = (case i of
       CurrentIter it \<Rightarrow> map_ok Some (it_Value it) | HeightIter li \<Rightarrow> level_Value S s li)"

definition hl_Next :: "hl_iterator \<Rightarrow> hl_iterator res" where
  "hl_Next i = (case i of
       CurrentIter it \<Rightarrow> map_ok CurrentIter (it_Next it)
     | HeightIter li \<Rightarrow> map_ok HeightIter (level_Next li))"

text \<open>
  The client loop of \<open>src/db/types.go\<close>, \<open>for ; itr.Valid(); itr.Next() { itr.Key(); itr.Value() }\<close>,
  collecting what it reads.
\<close>

fun hl_left :: "hl_iterator \<Rightarrow> nat" where
  "hl_left (CurrentIter it) = length it"
| "hl_left (HeightIter li) = length (li_Iterator li)"

lemma level_Valid_loop_length:
  "level_Valid_loop S s i it = Ok (ok, i') \<Longrightarrow> length (li_Iterator i') \<le> length it"
  by (induction S s i it rule: level_Valid_loop.induct)
     (auto split: if_splits res.splits option.splits intro: le_SucI)

lemma hl_Valid_left: "hl_Valid S s i = Ok (ok, i') \<Longrightarrow> hl_left i' \<le> hl_left i"
  by (cases i) (auto simp: hl_Valid_def level_Valid_def map_ok_eq_Ok dest: level_Valid_loop_length)

lemma it_Next_length: "it_Next it = Ok it' \<Longrightarrow> length it' < length it"
  by (cases it) auto

lemma hl_Next_left: "hl_Next i = Ok i' \<Longrightarrow> hl_left i' < hl_left i"
  by (cases i) (auto simp: hl_Next_def level_Next_def map_ok_eq_Ok dest: it_Next_length)

function hl_collect :: "('s, 'b) leveldb \<Rightarrow> 's \<Rightarrow> hl_iterator \<Rightarrow> (bytes \<times> bytes option) list res" where
  "hl_collect S s i =
     bind_res (hl_Valid S s i) (\<lambda>r.
       if \<not> fst r then Ok []
       else bind_res (hl_Key (snd r)) (\<lambda>k.
         bind_res (hl_Value S s (snd r)) (\<lambda>v.
           bind_res (hl_Next (snd r)) (\<lambda>i'.
             map_ok (\<lambda>rest. (k, v) # rest) (hl_collect S s i')))))"
  by pat_completeness auto
termination
proof (relation "measure (\<lambda>(S, s, i). hl_left i)")
  show "wf (measure (\<lambda>(S, s, i). hl_left i))" by simp
next
  fix S :: "('s, 'b) leveldb" and s i r k v i'
  assume "hl_Valid S s i = Ok r" and "hl_Next (snd r) = Ok i'"
  then have "hl_left i' < hl_left i"
    using hl_Valid_left [of S s i "fst r" "snd r"] hl_Next_left [of "snd r" i'] by simp
  then show "((S, s, i'), (S, s, i)) \<in> measure (\<lambda>(S, s, i). hl_left i)" by simp
qed

declare hl_collect.simps [simp del]

section \<open>Batch (\<open>leveldb_batch.go\<close>)\<close>

record 'b level_batch =
  lb_height :: int64
  lb_batch :: "'b rollbackable"
  lb_mode :: int

definition keyBytesWithHeight :: "'b level_batch \<Rightarrow> bytes \<Rightarrow> bytes" where
  "keyBytesWithHeight b key = prefixDataWithHeightKey key @ serializeHeight (lb_mode b) (lb_height b)"

definition NewLevelDBBatch :: "('s, 'b) leveldb \<Rightarrow> 's \<Rightarrow> int64 \<Rightarrow> driver \<Rightarrow> 'b level_batch" where
  "NewLevelDBBatch S s atHeight d =
     \<lparr>lb_height = atHeight, lb_batch = NewRollbackableBatch S s, lb_mode = drv_mode d\<rparr>"

definition lb_Set ::
  "('s, 'b) leveldb \<Rightarrow> 's \<Rightarrow> 'b level_batch \<Rightarrow> bytes \<Rightarrow> bytes \<Rightarrow> 'b level_batch res" where
  "lb_Set S s b key value =
     (let newKey = keyBytesWithHeight b key;
          buf = [0] @ value
      in bind_res (rb_Set S s (lb_batch b) (prefixCurrentDataKey key) (drop 1 buf)) (\<lambda>rb.
         bind_res (rb_Set S s rb (prefixKeysForIteratorKey key) []) (\<lambda>rb.
         map_ok (\<lambda>rb. b\<lparr>lb_batch := rb\<rparr>) (rb_Set S s rb newKey buf))))"

definition lb_Delete ::
  "('s, 'b) leveldb \<Rightarrow> 's \<Rightarrow> 'b level_batch \<Rightarrow> bytes \<Rightarrow> 'b level_batch res" where
  "lb_Delete S s b key =
     (let newKey = keyBytesWithHeight b key;
          buf = [1]
      in bind_res (rb_Delete S s (lb_batch b) (prefixCurrentDataKey key)) (\<lambda>rb.
         bind_res (rb_Set S s rb (prefixKeysForIteratorKey key) buf) (\<lambda>rb.
         map_ok (\<lambda>rb. b\<lparr>lb_batch := rb\<rparr>) (rb_Set S s rb newKey buf))))"

definition lb_Write ::
  "('s, 'b) leveldb \<Rightarrow> 's \<Rightarrow> 'b level_batch \<Rightarrow> ('s \<times> 'b level_batch) res" where
  "lb_Write S s b = map_ok (\<lambda>(s', rb). (s', b\<lparr>lb_batch := rb\<rparr>)) (rb_Write S s (lb_batch b))"

definition lb_WriteSync ::
  "('s, 'b) leveldb \<Rightarrow> 's \<Rightarrow> 'b level_batch \<Rightarrow> ('s \<times> 'b level_batch) res" where
  "lb_WriteSync S s b = map_ok (\<lambda>(s', rb). (s', b\<lparr>lb_batch := rb\<rparr>)) (rb_WriteSync S s (lb_batch b))"

definition lb_Close :: "('s, 'b) leveldb \<Rightarrow> 'b level_batch \<Rightarrow> 'b level_batch res" where
  "lb_Close S b = map_ok (\<lambda>rb. b\<lparr>lb_batch := rb\<rparr>) (rb_Close S (lb_batch b))"

definition lb_RollbackBatch :: "'b level_batch \<Rightarrow> 'b" where
  "lb_RollbackBatch b = rb_RollbackBatch (lb_batch b)"

definition driver_NewBatch :: "('s, 'b) leveldb \<Rightarrow> driver \<Rightarrow> 's \<Rightarrow> int64 \<Rightarrow> 'b level_batch" where
  "driver_NewBatch S d s atHeight = NewLevelDBBatch S s atHeight d"

definition driver_Close :: "('s, 'b) leveldb \<Rightarrow> 's \<Rightarrow> 's res" where
  "driver_Close S s = (case tm_Close S s of Panic p \<Rightarrow> Panic p | Err e \<Rightarrow> Ok s | Ok s' \<Rightarrow> Ok s')"

end
