(* ===== verification/Level_History.thy ===== *)
theory Level_History
  imports He_LevelDB
begin

text \<open>
  What the driver promises: a store with the full history of every key. \<open>lookup_at\<close> is the
  abstract specification of a read at a height, \<open>hist_of\<close> the history that the records of a
  session stand for, \<open>level_wf\<close> the invariant of those records and \<open>separated\<close> the condition
  on keys under which the height suffixes of two keys cannot be confused.
\<close>

section \<open>Abstract histories\<close>

text \<open>
  A history tells for every key and height whether the key was written there
  (\<^term>\<open>Some (Some v)\<close>), deleted there (\<^term>\<open>Some None\<close>) or not touched (\<^term>\<open>None\<close>).
\<close>

type_synonym history = "bytes \<Rightarrow> nat \<Rightarrow> bytes option option"

fun lookup_at :: "history \<Rightarrow> bytes \<Rightarrow> nat \<Rightarrow> bytes option" where
  "lookup_at H k 0 = (case H k 0 of Some r \<Rightarrow> r | None \<Rightarrow> None)"
| "lookup_at H k (Suc h) = (case H k (Suc h) of Some r \<Rightarrow> r | None \<Rightarrow> lookup_at H k h)"

text \<open>The history after a block at height \<open>h\<close> performed the operations \<open>ps\<close>.\<close>

definition hist_write :: "nat \<Rightarrow> batch_op list \<Rightarrow> history \<Rightarrow> history" where
  "hist_write h ps H = fold (\<lambda>p H k i. if k = op_key p \<and> i = h then Some (op_value p) else H k i) ps H"

lemma lookup_at_latest:
  assumes "i \<le> h" and "H k i = Some r" and "\<And>j. i < j \<Longrightarrow> j \<le> h \<Longrightarrow> H k j = None"
  shows "lookup_at H k h = r"
  using assms
proof (induction h)
  case 0
  then show ?case by simp
next
  case (Suc h)
  show ?case
  proof (cases "i = Suc h")
    case True
    then show ?thesis using Suc.prems by simp
  next
    case False
    then show ?thesis using Suc by simp
  qed
qed

lemma lookup_at_untouched: "(\<And>i. i \<le> h \<Longrightarrow> H k i = None) \<Longrightarrow> lookup_at H k h = None"
  by (induction h) auto

lemma lookup_at_cong: "(\<And>i. i \<le> h \<Longrightarrow> H k i = H' k i) \<Longrightarrow> lookup_at H k h = lookup_at H' k h"
  by (induction h) (auto split: option.split)

lemma lookup_at_beyond:
  assumes "h \<le> h'" and "\<And>i. h < i \<Longrightarrow> i \<le> h' \<Longrightarrow> H k i = None"
  shows "lookup_at H k h' = lookup_at H k h"
  using assms
proof (induction h')
  case (Suc h')
  then show ?case by (cases "h = Suc h'") auto
qed simp

lemma history_cases:
  "(\<forall>i \<le> (h :: nat). H k i = None) \<or>
   (\<exists>i r. i \<le> h \<and> H k i = Some r \<and> (\<forall>j. i < j \<and> j \<le> h \<longrightarrow> H k j = None))"
proof (induction h)
  case 0
  then show ?case by (cases "H k 0") auto
next
  case (Suc h)
  show ?case
  proof (cases "H k (Suc h)")
    case None
    then show ?thesis using Suc.IH by (auto simp: le_Suc_eq)
  next
    case (Some r)
    then show ?thesis by (intro disjI2 exI [of _ "Suc h"]) auto
  qed
qed

lemma hist_write_Nil [simp]: "hist_write h [] H = H"
  by (simp add: hist_write_def)

lemma hist_write_snoc: "hist_write h (ps @ [p]) H =
    (\<lambda>k i. if k = op_key p \<and> i = h then Some (op_value p) else hist_write h ps H k i)"
  unfolding hist_write_def by simp

lemma hist_write_other_height: "i \<noteq> h \<Longrightarrow> hist_write h ps H k i = H k i"
  by (induction ps rule: rev_induct) (simp_all add: hist_write_snoc)

lemma hist_write_other_key: "k \<notin> op_key ` set ps \<Longrightarrow> hist_write h ps H k i = H k i"
  by (induction ps rule: rev_induct) (auto simp: hist_write_snoc)

text \<open>A block at height \<open>h\<close> does not change what is read at lower heights.\<close>

lemma lookup_at_hist_write_below: "i < h \<Longrightarrow> lookup_at (hist_write h ps H) k i = lookup_at H k i"
  by (rule lookup_at_cong) (simp add: hist_write_other_height)

text \<open>
  At its own height and above, a block at the tip of the history is an ordinary batch on the
  state below it.
\<close>

lemma lookup_at_hist_write:
  assumes "\<And>k i. h < i \<Longrightarrow> H k i = None" and "h \<le> i"
  shows "lookup_at (hist_write h ps H) k i = apply_ops ps (\<lambda>k. lookup_at H k i) k"
proof (induction ps arbitrary: k rule: rev_induct)
  case Nil
  then show ?case by simp
next
  case (snoc p ps)
  show ?case
  proof (cases "k = op_key p")
    case True
    then have "hist_write h (ps @ [p]) H k h = Some (op_value p)"
      by (simp add: hist_write_snoc)
    moreover have "hist_write h (ps @ [p]) H k j = None" if "h < j" for j
      using assms(1) [OF that] that by (simp add: hist_write_other_height)
    ultimately have "lookup_at (hist_write h (ps @ [p]) H) k i = op_value p"
      using assms(2) by (intro lookup_at_latest [of h])
    then show ?thesis using True by (simp add: apply_op_def)
  next
    case False
    then have "lookup_at (hist_write h (ps @ [p]) H) k i = lookup_at (hist_write h ps H) k i"
      by (intro lookup_at_cong) (simp add: hist_write_snoc)
    then show ?thesis using False snoc.IH [of k] by (simp add: apply_op_def)
  qed
qed

section \<open>The history a session stands for\<close>

text \<open>A stored version: a deletion mark, or the value after the flag byte.\<close>

fun decode_version :: "bytes \<Rightarrow> bytes option" where
  "decode_version [] = None"
| "decode_version (flag # v) = (if flag = 1 then None else Some v)"

definition version_key :: "int \<Rightarrow> bytes \<Rightarrow> nat \<Rightarrow> bytes" where
  "version_key mode k h = prefixDataWithHeightKey k @ serializeHeight mode (of_nat h)"

definition hist_of :: "int \<Rightarrow> (bytes \<rightharpoonup> bytes) \<Rightarrow> history" where
  "hist_of mode m k h = (if h < 2 ^ 56 then map_option decode_version (m (version_key mode k h)) else None)"

definition current_of :: "(bytes \<rightharpoonup> bytes) \<Rightarrow> (bytes \<rightharpoonup> bytes)" where
  "current_of m = prefix_map cCurrentDataPrefix m"

definition indexed :: "(bytes \<rightharpoonup> bytes) \<Rightarrow> bytes \<Rightarrow> bool" where
  "indexed m k \<longleftrightarrow> k \<noteq> [] \<and> m (prefixKeysForIteratorKey k) \<noteq> None"

text \<open>
  Every record under prefix 2 is a version of an indexed key at a height below \<open>2^56\<close>, and
  carries its flag byte.
\<close>

definition versions_wf :: "int \<Rightarrow> (bytes \<rightharpoonup> bytes) \<Rightarrow> bool" where
  "versions_wf mode m \<longleftrightarrow>
     (\<forall>y v. m (cDataWithHeightPrefix @ y) = Some v \<longrightarrow>
        v \<noteq> [] \<and> (\<exists>k h. h < 2 ^ 56 \<and> indexed m k \<and> y = k @ serializeHeight mode (of_nat h)))"

text \<open>The current data is the state at the tip: no version lies above \<open>h\<close>.\<close>

definition tip_at :: "int \<Rightarrow> (bytes \<rightharpoonup> bytes) \<Rightarrow> nat \<Rightarrow> bool" where
  "tip_at mode m h \<longleftrightarrow>
     (\<forall>k i. h < i \<longrightarrow> hist_of mode m k i = None) \<and>
     (\<forall>k. k \<noteq> [] \<longrightarrow> current_of m k = lookup_at (hist_of mode m) k h)"

definition level_wf :: "int \<Rightarrow> (bytes \<rightharpoonup> bytes) \<Rightarrow> nat \<Rightarrow> bool" where
  "level_wf mode m h \<longleftrightarrow> finite (dom m) \<and> versions_wf mode m \<and> tip_at mode m h"

text \<open>
  The byte every height suffix below \<open>2^56\<close> starts with: 0 for ascending suffixes, 255 for
  descending ones. Two keys are separated unless one extends the other by that byte.
\<close>

definition edge :: "int \<Rightarrow> byte" where
  "edge mode = (if mode = DriverModeKeySuffixAsc then 0 else 255)"

definition extends_by_edge :: "int \<Rightarrow> bytes \<Rightarrow> bytes \<Rightarrow> bool" where
  "extends_by_edge mode k k' \<longleftrightarrow>
     length k < length k' \<and> take (length k) k' = k \<and> k' ! length k = edge mode"

definition separated :: "int \<Rightarrow> bytes \<Rightarrow> bytes \<Rightarrow> bool" where
  "separated mode k k' \<longleftrightarrow> \<not> extends_by_edge mode k k' \<and> \<not> extends_by_edge mode k' k"

section \<open>Height suffixes\<close>

lemmas level_prefix_defs = prefixCurrentDataKey_def prefixKeysForIteratorKey_def
  prefixDataWithHeightKey_def cCurrentDataPrefix_def cKeysForIteratorPrefix_def
  cDataWithHeightPrefix_def

lemma length_serializeHeight [simp]: "length (serializeHeight mode h) = 8"
  by (simp add: serializeHeight_def)

lemma serializeHeight_not_Nil [simp]: "serializeHeight mode h \<noteq> []"
  using length_serializeHeight [of mode h] by fastforce

lemma serializeHeight_inject [simp]: "serializeHeight mode h = serializeHeight mode h' \<longleftrightarrow> h = h'"
  by (simp add: serializeHeight_def)

lemma unat_of_height: "h < 2 ^ 56 \<Longrightarrow> unat (of_nat h :: uint64) = h"
  by (simp add: unat_of_nat)

lemma unat_maxUint64_minus: "unat (maxUint64 - h) = 18446744073709551615 - unat h"
proof -
  have "h \<le> maxUint64"
    using unat_uint64_less [of h] by (simp add: maxUint64_def word_le_nat_alt)
  then show ?thesis by (simp add: unat_sub maxUint64_def)
qed

text \<open>Below \<open>2^56\<close> every suffix starts with the edge byte of the mode.\<close>

lemma serializeHeight_hd:
  assumes "h < 2 ^ 56"
  shows "\<exists>xs. serializeHeight mode (of_nat h) = edge mode # xs"
proof (cases "mode = DriverModeKeySuffixAsc")
  case True
  obtain x xs where "UintToBigEndian (of_nat h) = x # xs" and "unat x = unat (of_nat h :: uint64) div 256 ^ 7"
    using UintToBigEndian_hd by blast
  moreover from this have "x = 0"
    using assms unat_of_height [OF assms] by (simp add: word_unat_eq_iff)
  ultimately show ?thesis using True by (simp add: serializeHeight_def edge_def)
next
  case False
  obtain x xs where x: "UintToBigEndian (maxUint64 - of_nat h) = x # xs"
    and "unat x = unat (maxUint64 - of_nat h) div 256 ^ 7"
    using UintToBigEndian_hd by blast
  then have "unat x = (18446744073709551615 - h) div 256 ^ 7"
    using unat_of_height [OF assms] by (simp add: unat_maxUint64_minus)
  also have "\<dots> = 255"
    using assms by simp
  finally have "x = 255"
    by (simp add: word_unat_eq_iff)
  with x False show ?thesis by (simp add: serializeHeight_def edge_def)
qed

text \<open>Descending suffixes reverse the order of heights, ascending ones keep it.\<close>

lemma serializeHeight_le_desc:
  assumes "mode \<noteq> DriverModeKeySuffixAsc" and "i < 2 ^ 56" and "j < 2 ^ 56"
  shows "serializeHeight mode (of_nat i) \<le> serializeHeight mode (of_nat j) \<longleftrightarrow> j \<le> i"
  using assms unat_of_height [of i] unat_of_height [of j]
  by (simp add: serializeHeight_def UintToBigEndian_le_iff word_le_nat_alt unat_maxUint64_minus)
     linarith

lemma serializeHeight_le_asc:
  assumes "mode = DriverModeKeySuffixAsc" and "i < 2 ^ 56" and "j < 2 ^ 56"
  shows "serializeHeight mode (of_nat i) \<le> serializeHeight mode (of_nat j) \<longleftrightarrow> i \<le> j"
  using assms unat_of_height [of i] unat_of_height [of j]
  by (simp add: serializeHeight_def UintToBigEndian_le_iff word_le_nat_alt)

end
