(* ===== verification/Level_Read.thy ===== *)
theory Level_Read
  imports Level_History
begin

text \<open>
  Reads of the driver are reads of the abstract history: \<open>Get\<close> and \<open>Has\<close> at a positive
  height return what \<open>lookup_at\<close> returns, and the iterators visit the live keys of that
  snapshot in order.
\<close>

section \<open>The scan for the newest version\<close>

definition height_start :: "int \<Rightarrow> int64 \<Rightarrow> bytes option" where
  "height_start mode h =
     (if mode = DriverModeKeySuffixAsc then None else Some (UintToBigEndian (maxUint64 - h)))"

definition height_end :: "int \<Rightarrow> int64 \<Rightarrow> bytes option" where
  "height_end mode h =
     (if mode = DriverModeKeySuffixAsc then Some (UintToBigEndian (h + 1)) else None)"

definition height_entries :: "int \<Rightarrow> (bytes \<rightharpoonup> bytes) \<Rightarrow> bytes \<Rightarrow> int64 \<Rightarrow> entries" where
  "height_entries mode m k h =
     (let es = range_entries (prefix_map (prefixDataWithHeightKey k) m) (height_start mode h) (height_end mode h)
      in if mode = DriverModeKeySuffixAsc then rev es else es)"

lemma prefixDataWithHeightKey_not_Nil [simp]: "prefixDataWithHeightKey k \<noteq> []"
  by (simp add: level_prefix_defs)

lemma unat_height_Suc: "unat h < 2 ^ 56 - 1 \<Longrightarrow> unat (h + 1 :: uint64) = unat h + 1"
  by (simp add: unat_word_ariths)

lemma of_nat_unat_height: "(of_nat (unat h) :: uint64) = h"
  by simp

text \<open>A suffix of eight bytes is in the scanned range if its height is at most the requested one.\<close>

lemma in_range_serializeHeight:
  assumes "i < 2 ^ 56" and "unat h < 2 ^ 56 - 1"
  shows "in_range (height_start mode h) (height_end mode h) (serializeHeight mode (of_nat i)) \<longleftrightarrow> i \<le> unat h"
proof (cases "mode = DriverModeKeySuffixAsc")
  case True
  have "UintToBigEndian (of_nat i) < UintToBigEndian (h + 1) \<longleftrightarrow> i < unat h + 1"
    unfolding UintToBigEndian_less_iff word_less_nat_alt unat_of_height [OF assms(1)]
      unat_height_Suc [OF assms(2)] ..
  with True show ?thesis
    by (simp add: in_range_def height_start_def height_end_def serializeHeight_def less_Suc_eq_le)
next
  case False
  then show ?thesis
    using serializeHeight_le_desc [of mode "unat h" i] assms
    by (simp add: in_range_def height_start_def height_end_def serializeHeight_def)
qed

text \<open>Everything the scan can meet starts with the edge byte.\<close>

lemma in_range_hd:
  assumes "in_range (height_start mode h) (height_end mode h) x" and "x \<noteq> []"
    and "unat h < 2 ^ 56 - 1"
  shows "hd x = edge mode"
proof (cases "mode = DriverModeKeySuffixAsc")
  case True
  obtain xs where "serializeHeight mode (of_nat (unat h + 1)) = edge mode # xs"
    using serializeHeight_hd [of "unat h + 1" mode] assms(3) by auto
  then have "UintToBigEndian (h + 1) = 0 # xs"
    using True by (simp add: serializeHeight_def edge_def add.commute)
  then show ?thesis
    using assms(1,2) True
    by (cases x) (auto simp: in_range_def height_end_def edge_def word_le_nat_alt word_less_nat_alt)
next
  case False
  obtain xs where "serializeHeight mode (of_nat (unat h)) = edge mode # xs"
    using serializeHeight_hd [of "unat h" mode] assms(3) by auto
  then have start: "UintToBigEndian (maxUint64 - h) = 255 # xs"
    using False by (simp add: serializeHeight_def edge_def)
  obtain y ys where x: "x = y # ys"
    using assms(2) by (cases x) auto
  have "255 \<le> y"
    using assms(1) False start by (auto simp: x in_range_def height_start_def)
  then have "y = 255"
    using unat_byte_less [of y] by (simp add: word_le_nat_alt word_unat_eq_iff)
  with x False show ?thesis by (simp add: edge_def)
qed

text \<open>
  Two strings that start with the edge byte cannot follow two different separated keys.
\<close>

lemma extends_by_edge_append:
  "us \<noteq> [] \<Longrightarrow> hd us = edge mode \<Longrightarrow> extends_by_edge mode k (k @ us)"
  by (cases us) (simp_all add: extends_by_edge_def nth_append)

lemma separated_overlap:
  assumes "separated mode k k'" and "k @ x = k' @ y"
    and "x \<noteq> []" "y \<noteq> []" and "hd x = edge mode" "hd y = edge mode"
  shows "k = k' \<and> x = y"
proof -
  have tail: "us = []" if "us @ w = z" "z \<noteq> []" "hd z = edge mode"
    and "\<not> extends_by_edge mode k0 (k0 @ us)" for us w z k0
    using that extends_by_edge_append [of us mode k0] by (cases us) auto
  from assms(2) consider us where "k = k' @ us" "us @ x = y" | us where "k @ us = k'" "us @ y = x"
    unfolding append_eq_append_conv2 by blast
  then show ?thesis
  proof cases
    case 1
    then have "us = []"
      using tail [of us x y k'] assms(1,4,6) by (simp add: separated_def)
    with 1 show ?thesis by simp
  next
    case 2
    then have "us = []"
      using tail [of us y x k] assms(1,3,5) by (simp add: separated_def)
    with 2 show ?thesis by simp
  qed
qed

text \<open>
  With separated keys, the scan meets versions of the requested key only.
\<close>

lemma scanned_version:
  assumes wf: "versions_wf mode m"
    and sep: "\<And>k'. indexed m k' \<Longrightarrow> separated mode k k'"
    and h: "unat h < 2 ^ 56 - 1"
    and x: "prefix_map (prefixDataWithHeightKey k) m x = Some v"
    and range: "in_range (height_start mode h) (height_end mode h) x"
  shows "\<exists>i. i \<le> unat h \<and> x = serializeHeight mode (of_nat i) \<and> v \<noteq> []"
proof -
  have "x \<noteq> []" and stored: "m (cDataWithHeightPrefix @ k @ x) = Some v"
    using x by (auto simp: prefix_map_def prefixDataWithHeightKey_def split: if_splits)
  then obtain k' i where i: "i < 2 ^ 56" and k': "indexed m k'" and v: "v \<noteq> []"
    and eq: "k @ x = k' @ serializeHeight mode (of_nat i)"
    using wf unfolding versions_wf_def by blast
  have "hd (serializeHeight mode (of_nat i)) = edge mode"
    using serializeHeight_hd [OF i, of mode] by auto
  then have "x = serializeHeight mode (of_nat i)"
    using separated_overlap [OF sep [OF k'] eq \<open>x \<noteq> []\<close>] in_range_hd [OF range \<open>x \<noteq> []\<close> h] by simp
  then show ?thesis
    using range in_range_serializeHeight [OF i h] v by auto
qed

lemma hist_of_eq:
  "i < 2 ^ 56 \<Longrightarrow> hist_of mode m k i =
     map_option decode_version (prefix_map (prefixDataWithHeightKey k) m (serializeHeight mode (of_nat i)))"
  by (simp add: hist_of_def version_key_def prefix_map_def)

lemma height_entries_untouched:
  assumes "finite (dom m)" and "versions_wf mode m"
    and "\<And>k'. indexed m k' \<Longrightarrow> separated mode k k'" and "unat h < 2 ^ 56 - 1"
    and none: "\<And>i. i \<le> unat h \<Longrightarrow> hist_of mode m k i = None"
  shows "height_entries mode m k h = []"
proof -
  have "\<not> in_range (height_start mode h) (height_end mode h) x"
    if x: "prefix_map (prefixDataWithHeightKey k) m x \<noteq> None" for x
  proof
    assume range: "in_range (height_start mode h) (height_end mode h) x"
    obtain v where v: "prefix_map (prefixDataWithHeightKey k) m x = Some v"
      using x by auto
    obtain i where "i \<le> unat h" "x = serializeHeight mode (of_nat i)"
      using scanned_version [OF assms(2-4) v range] by blast
    then show False
      using none [of i] v assms(4) by (simp add: hist_of_eq)
  qed
  then have "range_entries (prefix_map (prefixDataWithHeightKey k) m) (height_start mode h) (height_end mode h) = []"
    using assms(1) by (intro range_entries_Nil) auto
  then show ?thesis by (simp add: height_entries_def)
qed

lemma height_entries_latest:
  assumes "finite (dom m)" and "versions_wf mode m"
    and "\<And>k'. indexed m k' \<Longrightarrow> separated mode k k'" and "unat h < 2 ^ 56 - 1"
    and i: "i \<le> unat h" "hist_of mode m k i = Some r"
    and later: "\<And>j. i < j \<Longrightarrow> j \<le> unat h \<Longrightarrow> hist_of mode m k j = None"
  shows "\<exists>v es. height_entries mode m k h = (serializeHeight mode (of_nat i), v) # es \<and>
    v \<noteq> [] \<and> decode_version v = r"
proof -
  let ?pm = "prefix_map (prefixDataWithHeightKey k) m"
  let ?x = "serializeHeight mode (of_nat i)"
  have small: "i < 2 ^ 56"
    using i(1) assms(4) by simp
  obtain v where v: "?pm ?x = Some v" "decode_version v = r"
    using i(2) small by (auto simp: hist_of_eq)
  have range: "in_range (height_start mode h) (height_end mode h) ?x"
    using in_range_serializeHeight [OF small assms(4)] i(1) by simp
  have "v \<noteq> []"
    using scanned_version [OF assms(2-4) v(1) range] by blast
  have fin: "finite (dom ?pm)" using assms(1) by simp
  have other: "\<exists>j. j \<le> i \<and> j < 2 ^ 56 \<and> x = serializeHeight mode (of_nat j)"
    if x: "?pm x \<noteq> None" "in_range (height_start mode h) (height_end mode h) x" for x
  proof -
    obtain w where w: "?pm x = Some w" using x(1) by auto
    obtain j where j: "j \<le> unat h" "x = serializeHeight mode (of_nat j)"
      using scanned_version [OF assms(2-4) w x(2)] by blast
    then have "hist_of mode m k j \<noteq> None"
      using w assms(4) by (simp add: hist_of_eq)
    then have "j \<le> i" using later [of j] j(1) by force
    with j assms(4) show ?thesis by (intro exI [of _ j]) simp
  qed
  show ?thesis
  proof (cases "mode = DriverModeKeySuffixAsc")
    case True
    have "x \<le> ?x" if "?pm x \<noteq> None" "in_range (height_start mode h) (height_end mode h) x" for x
      using other [OF that] serializeHeight_le_asc [OF True _ small] by auto
    from range_entries_last [OF fin v(1) range this] show ?thesis
      using True v(2) \<open>v \<noteq> []\<close> by (auto simp: height_entries_def)
  next
    case False
    have "?x \<le> x" if "?pm x \<noteq> None" "in_range (height_start mode h) (height_end mode h) x" for x
      using other [OF that] serializeHeight_le_desc [OF False small] by auto
    from range_entries_first [OF fin v(1) range this] show ?thesis
      using False v(2) \<open>v \<noteq> []\<close> by (auto simp: height_entries_def)
  qed
qed

section \<open>Point reads\<close>

definition snapshot :: "int \<Rightarrow> (bytes \<rightharpoonup> bytes) \<Rightarrow> nat \<Rightarrow> (bytes \<rightharpoonup> bytes)" where
  "snapshot mode m h = (\<lambda>k. lookup_at (hist_of mode m) k h)"

text \<open>What a scan result means for \<open>Get\<close>.\<close>

definition read_scan :: "entries \<Rightarrow> bytes option res" where
  "read_scan es = (case es of [] \<Rightarrow> Ok None | e # _ \<Rightarrow>
     (if snd e = [] then Panic ''runtime error: index out of range'' else Ok (decode_version (snd e))))"

lemma small_height_not_negative:
  assumes "unat (h :: int64) < 2 ^ 56 - 1"
  shows "\<not> h <s - 1"
proof -
  have "int (unat h) < int (2 ^ 63)"
    unfolding of_nat_less_iff using assms by simp
  then have "uint h < 2 ^ 63" by simp
  then have "sint h = uint h"
    unfolding sint_uint by (intro signed_take_bit_int_eq_self) (simp_all add: order_trans [OF _ uint_ge_0])
  moreover have "sint (- 1 :: int64) = - 1" by simp
  ultimately show ?thesis
    unfolding word_sless_alt using uint_ge_0 [of h] by linarith
qed

lemma snapshot_read_scan:
  assumes "finite (dom m)" and "versions_wf mode m"
    and "\<And>k'. indexed m k' \<Longrightarrow> separated mode k k'" and "unat h < 2 ^ 56 - 1"
  shows "read_scan (height_entries mode m k h) = Ok (snapshot mode m (unat h) k)"
proof (cases "\<forall>i \<le> unat h. hist_of mode m k i = None")
  case True
  then have "height_entries mode m k h = []"
    using height_entries_untouched [OF assms] by simp
  then show ?thesis
    using True by (simp add: read_scan_def snapshot_def lookup_at_untouched)
next
  case False
  then obtain i r where i: "i \<le> unat h" "hist_of mode m k i = Some r"
    and later: "\<And>j. i < j \<Longrightarrow> j \<le> unat h \<Longrightarrow> hist_of mode m k j = None"
    using history_cases [of "unat h" "hist_of mode m" k] by blast
  have "snapshot mode m (unat h) k = r"
    unfolding snapshot_def using i later by (rule lookup_at_latest)
  then show ?thesis
    using height_entries_latest [OF assms i later] by (auto simp: read_scan_def)
qed

context level_session
begin

lemma newInnerIterator_entries:
  "newInnerIterator S d s h (prefixDataWithHeightKey k) = Ok (height_entries (drv_mode d) (contents s) k h)"
  by (simp add: newInnerIterator_def height_entries_def height_start_def height_end_def prefix_iter
      prefix_riter)

lemma driver_Get_scan:
  assumes "h \<noteq> 0" and "\<not> h <s - 1"
  shows "driver_Get S d s h k = read_scan (height_entries (drv_mode d) (contents s) k h)"
  using assms
  by (auto simp: driver_Get_def Let_def Height_ToInt64_def Height_CurrentOrNever_def
      newInnerIterator_entries read_scan_def it_Valid_def split: list.split)

lemma driver_Has_scan:
  assumes "h \<noteq> 0" and "\<not> h <s - 1"
  shows "driver_Has S d s h k =
    map_ok (\<lambda>v. v \<noteq> None) (read_scan (height_entries (drv_mode d) (contents s) k h))"
  using assms
  by (auto simp: driver_Has_def Let_def Height_ToInt64_def Height_CurrentOrNever_def
      newInnerIterator_entries read_scan_def it_Valid_def split: list.split)

lemma driver_Get_snapshot:
  assumes "versions_wf (drv_mode d) (contents s)"
    and "\<And>k'. indexed (contents s) k' \<Longrightarrow> separated (drv_mode d) k k'"
    and "h \<noteq> 0" and "unat h < 2 ^ 56 - 1"
  shows "driver_Get S d s h k = Ok (snapshot (drv_mode d) (contents s) (unat h) k)"
  using assms snapshot_read_scan [OF finite_contents assms(1,2,4)] small_height_not_negative
  by (simp add: driver_Get_scan)

lemma driver_Has_snapshot:
  assumes "versions_wf (drv_mode d) (contents s)"
    and "\<And>k'. indexed (contents s) k' \<Longrightarrow> separated (drv_mode d) k k'"
    and "h \<noteq> 0" and "unat h < 2 ^ 56 - 1"
  shows "driver_Has S d s h k = Ok (snapshot (drv_mode d) (contents s) (unat h) k \<noteq> None)"
  using assms snapshot_read_scan [OF finite_contents assms(1,2,4)] small_height_not_negative
  by (simp add: driver_Has_scan)

text \<open>Height 0 reads the current data.\<close>

lemma driver_Get_current: "driver_Get S d s 0 k = Ok (contents s (prefixCurrentDataKey k))"
  by (simp add: driver_Get_def get_contents level_prefix_defs)

lemma driver_Get_current_of: "k \<noteq> [] \<Longrightarrow> driver_Get S d s 0 k = Ok (current_of (contents s) k)"
  by (simp add: driver_Get_current current_of_def prefix_map_def prefixCurrentDataKey_def)

lemma driver_Has_current: "driver_Has S d s 0 k = Ok (contents s (prefixCurrentDataKey k) \<noteq> None)"
  by (simp add: driver_Has_def has_contents level_prefix_defs)

end

end
