(* ===== verification/Level_Iter.thy ===== *)
theory Level_Iter
  imports Level_Read
begin

text \<open>
  Iteration at a height: the client loop over a height iterator sees exactly the live keys of
  the snapshot, in the order of the index, although the iterator caches the last valid entry
  and skips dead keys inside \<open>Valid\<close>.
\<close>

section \<open>Live entries\<close>

definition live :: "(bytes \<Rightarrow> bytes option) \<Rightarrow> entries \<Rightarrow> (bytes \<times> bytes option) list" where
  "live g es = map (\<lambda>e. (fst e, g (fst e))) (filter (\<lambda>e. g (fst e) \<noteq> None) es)"

lemma live_rev: "live g (rev es) = rev (live g es)"
  by (simp add: live_def rev_map rev_filter)

lemma live_range_entries:
  assumes "finite (dom idx)" and "\<And>k. g k \<noteq> None \<Longrightarrow> idx k \<noteq> None"
  shows "live g (range_entries idx st en) = map (\<lambda>(k, v). (k, Some v)) (range_entries g st en)"
proof -
  let ?es = "filter (\<lambda>e. g (fst e) \<noteq> None) (range_entries idx st en)"
  have fin: "finite (dom g)"
    using assms by (intro finite_subset [OF _ assms(1)]) auto
  have "range_entries g st en = map (\<lambda>e. (fst e, the (g (fst e)))) ?es"
  proof (rule range_entries_unique [OF fin])
    have "sorted_wrt (<) (map fst ?es)"
      using sorted_range_entries [of idx st en] unfolding sorted_wrt_map by (rule sorted_wrt_filter)
    then show "sorted_wrt (<) (map fst (map (\<lambda>e. (fst e, the (g (fst e)))) ?es))"
      by (simp add: comp_def)
    show "(k, v) \<in> set (map (\<lambda>e. (fst e, the (g (fst e)))) ?es) \<longleftrightarrow> g k = Some v \<and> in_range st en k"
      for k v
      using in_set_range_entries [OF assms(1), of k _ st en] assms(2) [of k] by (force simp: image_iff)
  qed
  then show ?thesis by (simp add: live_def)
qed

context level_session
begin

lemma level_Valid_loop_skip:
  assumes "driver_Get S (li_driver i) s (li_maxHeight i) (fst e) = Ok None" and "li_lastValidKey i \<noteq> fst e"
  shows "hl_collect S s (HeightIter (i\<lparr>li_Iterator := e # it\<rparr>)) = hl_collect S s (HeightIter (i\<lparr>li_Iterator := it\<rparr>))"
proof -
  have ind: "level_Valid_loop S s (i\<lparr>li_Iterator := a\<rparr>) it = level_Valid_loop S s (i\<lparr>li_Iterator := b\<rparr>) it" for a b it
    by (induction it) (auto split: res.splits option.splits)
  have "hl_Valid S s (HeightIter (i\<lparr>li_Iterator := e # it\<rparr>)) = hl_Valid S s (HeightIter (i\<lparr>li_Iterator := it\<rparr>))"
    using assms ind [of "e # it" it it] by (simp add: hl_Valid_def level_Valid_def)
  then show ?thesis
    by (simp add: hl_collect.simps [of S s "HeightIter (i\<lparr>li_Iterator := e # it\<rparr>)"]
        hl_collect.simps [of S s "HeightIter (i\<lparr>li_Iterator := it\<rparr>)"])
qed

lemma hl_collect_live:
  assumes "\<And>k. k \<in> fst ` set it \<Longrightarrow> driver_Get S (li_driver i) s (li_maxHeight i) k = Ok (g k)"
    and "distinct (map fst it)" and "li_lastValidKey i \<notin> fst ` set it"
  shows "hl_collect S s (HeightIter (i\<lparr>li_Iterator := it\<rparr>)) = Ok (live g it)"
  using assms
proof (induction it arbitrary: i)
  case Nil
  then show ?case
    by (simp add: hl_collect.simps [of S s "HeightIter (i\<lparr>li_Iterator := []\<rparr>)"] hl_Valid_def level_Valid_def live_def)
next
  case (Cons e it)
  have get: "driver_Get S (li_driver i) s (li_maxHeight i) (fst e) = Ok (g (fst e))"
    using Cons.prems(1) by simp
  show ?case
  proof (cases "g (fst e)")
    case None
    have "hl_collect S s (HeightIter (i\<lparr>li_Iterator := it\<rparr>)) = Ok (live g it)"
      using Cons.prems by (intro Cons.IH) auto
    then show ?thesis
      using level_Valid_loop_skip [of i s e it] get None Cons.prems(3) by (simp add: live_def)
  next
    case (Some v)
    let ?i = "i\<lparr>li_lastValidKey := fst e, li_lastValidValue := Some v\<rparr>"
    have rest: "hl_collect S s (HeightIter (?i\<lparr>li_Iterator := it\<rparr>)) = Ok (live g it)"
      using Cons.prems by (intro Cons.IH) auto
    have valid: "hl_Valid S s (HeightIter (i\<lparr>li_Iterator := e # it\<rparr>)) =
        Ok (True, HeightIter (?i\<lparr>li_Iterator := e # it\<rparr>))"
      using get Some Cons.prems(3) by (simp add: hl_Valid_def level_Valid_def)
    show ?thesis
      using rest Some
      by (simp add: hl_collect.simps [of S s "HeightIter (i\<lparr>li_Iterator := e # it\<rparr>)"] valid
          hl_Key_def level_Key_def hl_Value_def level_Value_def hl_Next_def level_Next_def live_def)
  qed
qed

lemma hl_collect_current: "hl_collect S s (CurrentIter it) = Ok (map (\<lambda>e. (fst e, Some (snd e))) it)"
proof (induction it)
  case Nil
  then show ?case
    by (simp add: hl_collect.simps [of S s "CurrentIter []"] hl_Valid_def it_Valid_def)
next
  case (Cons e it)
  then show ?case
    by (simp add: hl_collect.simps [of S s "CurrentIter (e # it)"] hl_Valid_def it_Valid_def
        hl_Key_def hl_Value_def hl_Next_def)
qed

end

section \<open>Iteration over a snapshot\<close>

definition index_of :: "(bytes \<rightharpoonup> bytes) \<Rightarrow> (bytes \<rightharpoonup> bytes)" where
  "index_of m = prefix_map cKeysForIteratorPrefix m"

lemma index_of_indexed: "index_of m k \<noteq> None \<longleftrightarrow> indexed m k"
  by (simp add: index_of_def indexed_def prefix_map_def prefixKeysForIteratorKey_def)

lemma hist_of_indexed:
  assumes "versions_wf mode m" and "hist_of mode m k i \<noteq> None"
  shows "indexed m k"
proof -
  obtain v where "m (cDataWithHeightPrefix @ k @ serializeHeight mode (of_nat i)) = Some v"
    using assms(2) by (auto simp: hist_of_def version_key_def prefixDataWithHeightKey_def split: if_splits)
  then obtain k' j where "indexed m k'" and "k @ serializeHeight mode (of_nat i) = k' @ serializeHeight mode (of_nat j)"
    using assms(1) unfolding versions_wf_def by blast
  then show ?thesis by simp
qed

lemma snapshot_indexed:
  assumes "versions_wf mode m" and "snapshot mode m h k \<noteq> None"
  shows "indexed m k"
proof (rule ccontr)
  assume "\<not> indexed m k"
  then have "hist_of mode m k i = None" for i
    using hist_of_indexed [OF assms(1), of k i] by blast
  then show False
    using assms(2) by (simp add: snapshot_def lookup_at_untouched)
qed

text \<open>Any two keys of the index are separated.\<close>

definition index_separated :: "int \<Rightarrow> (bytes \<rightharpoonup> bytes) \<Rightarrow> bool" where
  "index_separated mode m \<longleftrightarrow> (\<forall>k k'. indexed m k \<longrightarrow> indexed m k' \<longrightarrow> separated mode k k')"

definition iterate :: "('s, 'b) leveldb \<Rightarrow> 's \<Rightarrow> hl_iterator res \<Rightarrow> (bytes \<times> bytes option) list res" where
  "iterate S s r = bind_res r (hl_collect S s)"

context level_session
begin

lemma index_entries_facts:
  assumes "versions_wf (drv_mode d) (contents s)" and "index_separated (drv_mode d) (contents s)"
    and "h \<noteq> 0" and "unat h < 2 ^ 56 - 1"
    and "k \<in> fst ` set (range_entries (index_of (contents s)) st en)"
  shows "k \<noteq> [] \<and> driver_Get S d s h k = Ok (snapshot (drv_mode d) (contents s) (unat h) k)"
proof -
  have "k \<in> set (range_keys (index_of (contents s)) st en)"
    using assms(5) by (metis keys_range_entries list.set_map)
  then have k: "indexed (contents s) k"
    by (auto simp: set_range_keys finite_contents index_of_def simp flip: index_of_indexed)
  then have "driver_Get S d s h k = Ok (snapshot (drv_mode d) (contents s) (unat h) k)"
    using assms by (intro driver_Get_snapshot) (auto simp: index_separated_def)
  with k show ?thesis by (simp add: indexed_def)
qed

lemma collect_index:
  assumes wf: "versions_wf (drv_mode d) (contents s)" "index_separated (drv_mode d) (contents s)"
    and h: "h \<noteq> 0" "unat h < 2 ^ 56 - 1"
    and it: "set it \<subseteq> set (range_entries (index_of (contents s)) st en)" "distinct (map fst it)"
    and i: "li_driver i = d" "li_maxHeight i = h" "li_lastValidKey i = []" "li_Iterator i = it"
  shows "hl_collect S s (HeightIter i) = Ok (live (snapshot (drv_mode d) (contents s) (unat h)) it)"
proof -
  have keys: "k \<noteq> [] \<and> driver_Get S d s h k = Ok (snapshot (drv_mode d) (contents s) (unat h) k)"
    if "k \<in> fst ` set it" for k
    using that it(1) by (intro index_entries_facts [OF wf h, of k st en]) blast
  have "hl_collect S s (HeightIter (i\<lparr>li_Iterator := it\<rparr>)) =
      Ok (live (snapshot (drv_mode d) (contents s) (unat h)) it)"
    using keys it(2) i by (intro hl_collect_live) fastforce+
  moreover have "i\<lparr>li_Iterator := it\<rparr> = i"
    using i(4) by (cases i) simp
  ultimately show ?thesis by simp
qed

lemma iterate_snapshot:
  assumes "versions_wf (drv_mode d) (contents s)" and "index_separated (drv_mode d) (contents s)"
    and "h \<noteq> 0" and "unat h < 2 ^ 56 - 1" and "st \<noteq> Some []" and "en \<noteq> Some []"
  shows "iterate S s (driver_Iterator S d s h st en) =
      Ok (map (\<lambda>(k, v). (k, Some v)) (range_entries (snapshot (drv_mode d) (contents s) (unat h)) st en))"
    and "iterate S s (driver_ReverseIterator S d s h st en) =
      Ok (rev (map (\<lambda>(k, v). (k, Some v)) (range_entries (snapshot (drv_mode d) (contents s) (unat h)) st en)))"
proof -
  let ?idx = "range_entries (index_of (contents s)) st en"
  let ?snap = "snapshot (drv_mode d) (contents s) (unat h)"
  let ?i = "\<lambda>it. \<lparr>li_driver = d, li_Iterator = it, li_maxHeight = h, li_start = st, li_end = en,
    li_lastValidKey = [], li_lastValidValue = None\<rparr>"
  have live: "live ?snap ?idx = map (\<lambda>(k, v). (k, Some v)) (range_entries ?snap st en)"
    using snapshot_indexed [OF assms(1)]
    by (intro live_range_entries) (auto simp: index_of_def finite_contents simp flip: index_of_indexed)
  have "hl_collect S s (HeightIter (?i ?idx)) = Ok (live ?snap ?idx)"
    by (rule collect_index [OF assms(1-4), of _ st en]) simp_all
  moreover have "hl_collect S s (HeightIter (?i (rev ?idx))) = Ok (live ?snap (rev ?idx))"
    by (rule collect_index [OF assms(1-4), of _ st en])
       (simp_all add: rev_map [symmetric])
  moreover have "driver_Iterator S d s h st en = Ok (HeightIter (?i ?idx))"
    and "driver_ReverseIterator S d s h st en = Ok (HeightIter (?i (rev ?idx)))"
    using assms(3,5,6)
    by (simp_all add: driver_Iterator_def driver_ReverseIterator_def NewLevelDBIterator_def
        NewLevelDBReverseIterator_def prefix_iter prefix_riter index_of_def cKeysForIteratorPrefix_def)
  ultimately show "iterate S s (driver_Iterator S d s h st en) =
      Ok (map (\<lambda>(k, v). (k, Some v)) (range_entries ?snap st en))"
    and "iterate S s (driver_ReverseIterator S d s h st en) =
      Ok (rev (map (\<lambda>(k, v). (k, Some v)) (range_entries ?snap st en)))"
    by (simp_all add: iterate_def live live_rev)
qed

lemma iterate_current:
  assumes "st \<noteq> Some []" and "en \<noteq> Some []"
  shows "iterate S s (driver_Iterator S d s 0 st en) =
      Ok (map (\<lambda>(k, v). (k, Some v)) (range_entries (current_of (contents s)) st en))"
    and "iterate S s (driver_ReverseIterator S d s 0 st en) =
      Ok (rev (map (\<lambda>(k, v). (k, Some v)) (range_entries (current_of (contents s)) st en)))"
  using assms
  by (simp_all add: iterate_def driver_Iterator_def driver_ReverseIterator_def prefix_iter prefix_riter
      hl_collect_current current_of_def cCurrentDataPrefix_def rev_map case_prod_beta')

end

end
