(* ===== verification/Level_Write.thy ===== *)
theory Level_Write
  imports Level_Iter
begin

text \<open>
  Writes of the driver: what the batch of \<open>leveldb_batch.go\<close> collects for a sequence of
  client operations, and what writing it does to the abstract history, the current data and
  the invariant of the records.
\<close>

section \<open>The records of one client operation\<close>

definition level_ops :: "int \<Rightarrow> int64 \<Rightarrow> batch_op \<Rightarrow> batch_op list" where
  "level_ops mode h p = (case p of
       OpSet k v \<Rightarrow> [OpSet (prefixCurrentDataKey k) v, OpSet (prefixKeysForIteratorKey k) [],
         OpSet (prefixDataWithHeightKey k @ serializeHeight mode h) (0 # v)]
     | OpDelete k \<Rightarrow> [OpDelete (prefixCurrentDataKey k), OpSet (prefixKeysForIteratorKey k) [1],
         OpSet (prefixDataWithHeightKey k @ serializeHeight mode h) [1]])"

definition level_opss :: "int \<Rightarrow> int64 \<Rightarrow> batch_op list \<Rightarrow> batch_op list" where
  "level_opss mode h ps = concat (map (level_ops mode h) ps)"

lemma level_opss_Nil [simp]: "level_opss mode h [] = []"
  by (simp add: level_opss_def)

lemma level_opss_snoc: "level_opss mode h (ps @ [p]) = level_opss mode h ps @ level_ops mode h p"
  by (simp add: level_opss_def)

lemma level_ops_keys: "[] \<notin> op_key ` set (level_opss mode h ps)"
  by (auto simp: level_opss_def level_ops_def level_prefix_defs split: batch_op.splits)

definition lb_push ::
  "('s, 'b) leveldb \<Rightarrow> 's \<Rightarrow> 'b level_batch \<Rightarrow> batch_op \<Rightarrow> 'b level_batch res" where
  "lb_push S s b p = (case p of OpSet k v \<Rightarrow> lb_Set S s b k v | OpDelete k \<Rightarrow> lb_Delete S s b k)"

fun lb_run ::
  "('s, 'b) leveldb \<Rightarrow> 's \<Rightarrow> 'b level_batch \<Rightarrow> batch_op list \<Rightarrow> 'b level_batch res" where
  "lb_run S s b [] = Ok b"
| "lb_run S s b (p # ps) = bind_res (lb_push S s b p) (\<lambda>b. lb_run S s b ps)"

lemma lb_push_rb_run: "lb_push S s b p =
    map_ok (\<lambda>rb. b\<lparr>lb_batch := rb\<rparr>) (rb_run S s (lb_batch b) (level_ops (lb_mode b) (lb_height b) p))"
  by (cases p) (simp_all add: lb_push_def lb_Set_def lb_Delete_def level_ops_def keyBytesWithHeight_def
      rb_push_def Let_def)

section \<open>Effect on the abstract state\<close>

lemma level_ops_effect:
  "apply_ops (level_ops mode h p) m =
     m(prefixCurrentDataKey (op_key p) := op_value p,
       prefixKeysForIteratorKey (op_key p) \<mapsto> (case p of OpSet _ _ \<Rightarrow> [] | OpDelete _ \<Rightarrow> [1]),
       prefixDataWithHeightKey (op_key p) @ serializeHeight mode h \<mapsto>
         (case p of OpSet _ v \<Rightarrow> 0 # v | OpDelete _ \<Rightarrow> [1]))"
  by (cases p) (auto simp: level_ops_def apply_op_def)

lemma current_of_level_ops:
  "op_key p \<noteq> [] \<Longrightarrow> current_of (apply_ops (level_ops mode h p) m) = apply_op p (current_of m)"
  by (rule ext) (auto simp: level_ops_effect current_of_def prefix_map_def apply_op_def level_prefix_defs)

lemma hist_of_level_ops:
  assumes "h < 2 ^ 56"
  shows "hist_of mode (apply_ops (level_ops mode (of_nat h) p) m) = hist_write h [p] (hist_of mode m)"
proof (intro ext)
  fix k i
  have "(of_nat i :: int64) = of_nat h \<longleftrightarrow> i = h" if "i < 2 ^ 56"
    using unat_of_height [OF that] unat_of_height [OF assms] by metis
  then show "hist_of mode (apply_ops (level_ops mode (of_nat h) p) m) k i = hist_write h [p] (hist_of mode m) k i"
    using assms
    by (cases p) (auto simp: hist_of_def version_key_def hist_write_def level_ops_effect level_prefix_defs)
qed

lemma indexed_level_ops:
  "op_key p \<noteq> [] \<Longrightarrow> indexed (apply_ops (level_ops mode h p) m) k \<longleftrightarrow> indexed m k \<or> k = op_key p"
  by (auto simp: level_ops_effect indexed_def level_prefix_defs)

lemma versions_wf_level_ops:
  assumes "versions_wf mode m" and "op_key p \<noteq> []" and "h < 2 ^ 56"
  shows "versions_wf mode (apply_ops (level_ops mode (of_nat h) p) m)"
  unfolding versions_wf_def indexed_level_ops [OF assms(2)]
proof (intro allI impI)
  fix y v
  assume v: "apply_ops (level_ops mode (of_nat h) p) m (cDataWithHeightPrefix @ y) = Some v"
  show "v \<noteq> [] \<and> (\<exists>k i. i < 2 ^ 56 \<and> (indexed m k \<or> k = op_key p) \<and> y = k @ serializeHeight mode (of_nat i))"
  proof (cases "y = op_key p @ serializeHeight mode (of_nat h)")
    case True
    then have "v \<noteq> []"
      using v by (auto simp: level_ops_effect level_prefix_defs split: batch_op.splits)
    with True assms(3) show ?thesis by blast
  next
    case False
    then have "m (cDataWithHeightPrefix @ y) = Some v"
      using v by (auto simp: level_ops_effect level_prefix_defs)
    then show ?thesis
      using assms(1) unfolding versions_wf_def by blast
  qed
qed

lemma level_opss_effect:
  assumes "[] \<notin> op_key ` set ps" and "h < 2 ^ 56" and "versions_wf mode m"
  shows "current_of (apply_ops (level_opss mode (of_nat h) ps) m) = apply_ops ps (current_of m)"
    and "hist_of mode (apply_ops (level_opss mode (of_nat h) ps) m) = hist_write h ps (hist_of mode m)"
    and "indexed (apply_ops (level_opss mode (of_nat h) ps) m) k \<longleftrightarrow> indexed m k \<or> k \<in> op_key ` set ps"
    and "versions_wf mode (apply_ops (level_opss mode (of_nat h) ps) m)"
proof -
  have "current_of (apply_ops (level_opss mode (of_nat h) ps) m) = apply_ops ps (current_of m) \<and>
    hist_of mode (apply_ops (level_opss mode (of_nat h) ps) m) = hist_write h ps (hist_of mode m) \<and>
    (indexed (apply_ops (level_opss mode (of_nat h) ps) m) k \<longleftrightarrow> indexed m k \<or> k \<in> op_key ` set ps) \<and>
    versions_wf mode (apply_ops (level_opss mode (of_nat h) ps) m)"
    using assms(1)
  proof (induction ps rule: rev_induct)
    case Nil
    then show ?case using assms(3) by simp
  next
    case (snoc p ps)
    then show ?case
      using assms(2)
      by (auto simp: level_opss_snoc current_of_level_ops hist_of_level_ops indexed_level_ops
          versions_wf_level_ops hist_write_def)
  qed
  then show "current_of (apply_ops (level_opss mode (of_nat h) ps) m) = apply_ops ps (current_of m)"
    and "hist_of mode (apply_ops (level_opss mode (of_nat h) ps) m) = hist_write h ps (hist_of mode m)"
    and "indexed (apply_ops (level_opss mode (of_nat h) ps) m) k \<longleftrightarrow> indexed m k \<or> k \<in> op_key ` set ps"
    and "versions_wf mode (apply_ops (level_opss mode (of_nat h) ps) m)"
    by blast+
qed

text \<open>
  A block at or above the tip keeps the invariant, moves the tip to its height and leaves the
  snapshots below it alone.
\<close>

lemma tip_at_level_opss:
  assumes "level_wf mode m t" and "t \<le> h" and "h < 2 ^ 56" and "[] \<notin> op_key ` set ps"
  shows "tip_at mode (apply_ops (level_opss mode (of_nat h) ps) m) h"
proof -
  have wf: "versions_wf mode m" and tip: "\<And>k i. t < i \<Longrightarrow> hist_of mode m k i = None"
    and cur: "\<And>k. k \<noteq> [] \<Longrightarrow> current_of m k = lookup_at (hist_of mode m) k t"
    using assms(1) by (auto simp: level_wf_def tip_at_def)
  note eff = level_opss_effect [OF assms(4,3) wf]
  have above: "hist_of mode m k i = None" if "h < i" for k i
    using tip that assms(2) by simp
  have "hist_write h ps (hist_of mode m) k i = None" if "h < i" for k i
    using above [OF that] that by (simp add: hist_write_other_height)
  moreover have "apply_ops ps (current_of m) k = lookup_at (hist_write h ps (hist_of mode m)) k h"
    if "k \<noteq> []" for k
  proof -
    have at_tip: "lookup_at (hist_of mode m) k' h = lookup_at (hist_of mode m) k' t" for k'
      using tip assms(2) by (intro lookup_at_beyond) auto
    have "lookup_at (hist_write h ps (hist_of mode m)) k h = apply_ops ps (\<lambda>k. lookup_at (hist_of mode m) k h) k"
      using above by (intro lookup_at_hist_write) auto
    also have "\<dots> = apply_ops ps (current_of m) k"
      by (rule apply_ops_agree) (simp add: at_tip cur that)
    finally show ?thesis by simp
  qed
  ultimately show ?thesis
    unfolding tip_at_def eff by blast
qed

lemma level_wf_level_opss:
  assumes "level_wf mode m t" and "t \<le> h" and "h < 2 ^ 56" and "[] \<notin> op_key ` set ps"
  shows "level_wf mode (apply_ops (level_opss mode (of_nat h) ps) m) h"
  using assms tip_at_level_opss [OF assms] level_opss_effect(4) [OF assms(4,3)]
  by (simp add: level_wf_def)

lemma snapshot_level_opss_below:
  assumes "versions_wf mode m" and "h < 2 ^ 56" and "[] \<notin> op_key ` set ps" and "i < h"
  shows "snapshot mode (apply_ops (level_opss mode (of_nat h) ps) m) i = snapshot mode m i"
  using level_opss_effect(2) [OF assms(3,2,1)] assms(4)
  by (auto simp: snapshot_def lookup_at_hist_write_below)

lemma snapshot_level_opss_at:
  assumes "level_wf mode m t" and "t \<le> h" and "h < 2 ^ 56" and "[] \<notin> op_key ` set ps" and "h \<le> i"
  shows "snapshot mode (apply_ops (level_opss mode (of_nat h) ps) m) i = apply_ops ps (snapshot mode m i)"
proof -
  have wf: "versions_wf mode m" and "hist_of mode m k j = None" if "h < j" for k j
    using assms(1,2) that by (auto simp: level_wf_def tip_at_def)
  then show ?thesis
    using level_opss_effect(2) [OF assms(4,3)] assms(1,5)
    by (auto simp: snapshot_def lookup_at_hist_write level_wf_def)
qed

section \<open>The batch and its rollback\<close>

definition lb_holds ::
  "('b \<Rightarrow> batch_op list option) \<Rightarrow> (bytes \<rightharpoonup> bytes) \<Rightarrow> 'b level_batch \<Rightarrow> batch_op list \<Rightarrow> bool" where
  "lb_holds pending m b ps \<longleftrightarrow> rb_holds pending m (lb_batch b) (level_opss (lb_mode b) (lb_height b) ps)"

context level_session
begin

lemma lb_holds_new: "lb_holds pending (contents s) (NewLevelDBBatch S s h d) []"
  by (simp add: lb_holds_def NewLevelDBBatch_def rb_holds_new)

lemma lb_push_holds:
  assumes "lb_holds pending (contents s) b ps"
  shows "\<exists>b'. lb_push S s b p = Ok b' \<and> lb_holds pending (contents s) b' (ps @ [p]) \<and>
    lb_height b' = lb_height b \<and> lb_mode b' = lb_mode b"
proof -
  have "[] \<notin> op_key ` set (level_ops (lb_mode b) (lb_height b) p)"
    using level_ops_keys [of "lb_mode b" "lb_height b" "[p]"] by (simp add: level_opss_def)
  then obtain rb where "rb_run S s (lb_batch b) (level_ops (lb_mode b) (lb_height b) p) = Ok rb"
    and "rb_holds pending (contents s) rb
      (level_opss (lb_mode b) (lb_height b) ps @ level_ops (lb_mode b) (lb_height b) p)"
    using rb_run_holds assms unfolding lb_holds_def by blast
  then show ?thesis
    by (auto simp: lb_push_rb_run lb_holds_def level_opss_snoc)
qed

lemma lb_run_holds:
  assumes "lb_holds pending (contents s) b ps"
  shows "\<exists>b'. lb_run S s b qs = Ok b' \<and> lb_holds pending (contents s) b' (ps @ qs) \<and>
    lb_height b' = lb_height b \<and> lb_mode b' = lb_mode b"
  using assms
proof (induction qs arbitrary: b ps)
  case Nil
  then show ?case by simp
next
  case (Cons q qs)
  obtain b1 where b1: "lb_push S s b q = Ok b1" "lb_holds pending (contents s) b1 (ps @ [q])"
    "lb_height b1 = lb_height b" "lb_mode b1 = lb_mode b"
    using lb_push_holds [OF Cons.prems, of q] by auto
  from Cons.IH [OF b1(2)] b1 show ?case by auto
qed

lemma lb_write_holds:
  assumes "lb_holds pending (contents s) b ps"
  shows "\<exists>s' b'. lb_WriteSync S s b = Ok (s', b') \<and>
    contents s' = apply_ops (level_opss (lb_mode b) (lb_height b) ps) (contents s) \<and>
    lb_RollbackBatch b' = lb_RollbackBatch b \<and>
    pending (lb_RollbackBatch b) =
      Some (map (undo_op (contents s)) (level_opss (lb_mode b) (lb_height b) ps))"
proof -
  obtain s' rb where "rb_WriteSync S s (lb_batch b) = Ok (s', rb)"
    and "contents s' = apply_ops (level_opss (lb_mode b) (lb_height b) ps) (contents s)"
    and "rb_RollbackBatch rb = rb_RollbackBatch (lb_batch b)"
    using rb_write_holds assms unfolding lb_holds_def by blast
  moreover have "pending (rb_RollbackBatch (lb_batch b)) =
      Some (map (undo_op (contents s)) (level_opss (lb_mode b) (lb_height b) ps))"
    using assms by (simp add: lb_holds_def rb_holds_def)
  ultimately show ?thesis
    by (auto simp: lb_WriteSync_def lb_RollbackBatch_def)
qed

end

end
