(* ===== verification/Level_Correct.thy ===== *)
theory Level_Correct
  imports Level_Write
begin

text \<open>
  The correctness of the driver as seen by its clients: a block committed through a batch,
  point reads and iteration at every height, roll back, and the key shapes for which height
  reads go wrong. The stated contract of the session is the premise \<open>level_session\<close>; every
  witness runs on the in-memory session.
\<close>

section \<open>Committing a block\<close>

definition separated_from :: "int \<Rightarrow> (bytes \<rightharpoonup> bytes) \<Rightarrow> bytes \<Rightarrow> bool" where
  "separated_from mode m k \<longleftrightarrow> (\<forall>k'. indexed m k' \<longrightarrow> separated mode k k')"

text \<open>A session on which a block was committed at height \<open>h\<close>, through a fresh batch.\<close>

definition level_commit ::
  "('s, 'b) leveldb \<Rightarrow> driver \<Rightarrow> 's \<Rightarrow> int64 \<Rightarrow> batch_op list \<Rightarrow> ('s \<times> 'b level_batch) res" where
  "level_commit S d s h ps =
     bind_res (lb_run S s (driver_NewBatch S d s h) ps) (\<lambda>b. lb_WriteSync S s b)"

context level_session
begin

lemma level_commit_effect:
  "\<exists>s' b'. level_commit S d s h ps = Ok (s', b') \<and>
    contents s' = apply_ops (level_opss (drv_mode d) h ps) (contents s) \<and>
    pending (lb_RollbackBatch b') = Some (map (undo_op (contents s)) (level_opss (drv_mode d) h ps))"
proof -
  let ?b = "driver_NewBatch S d s h"
  have "lb_holds pending (contents s) ?b []" and mode: "lb_height ?b = h" "lb_mode ?b = drv_mode d"
    by (simp_all add: driver_NewBatch_def lb_holds_new) (simp_all add: NewLevelDBBatch_def)
  from lb_run_holds [OF this(1), of ps] obtain b where b: "lb_run S s ?b ps = Ok b"
    "lb_holds pending (contents s) b ps" "lb_height b = h" "lb_mode b = drv_mode d"
    using mode by auto
  from lb_write_holds [OF b(2)] b(3,4) show ?thesis
    by (auto simp: level_commit_def b(1))
qed

lemma level_commit_wf:
  assumes "level_wf (drv_mode d) (contents s) t" and "t \<le> unat h" and "unat h < 2 ^ 56"
    and "[] \<notin> op_key ` set ps"
  shows "\<exists>s' b'. level_commit S d s h ps = Ok (s', b') \<and> level_wf (drv_mode d) (contents s') (unat h)"
  using level_commit_effect [of d s h ps] level_wf_level_opss [OF assms]
  by (auto simp: of_nat_unat_height)

lemma level_commit_snapshot:
  assumes "level_wf (drv_mode d) (contents s) t" and "t \<le> unat h" and "unat h < 2 ^ 56"
    and "[] \<notin> op_key ` set ps" and "level_commit S d s h ps = Ok (s', b')"
  shows "snapshot (drv_mode d) (contents s') i =
    (if i < unat h then snapshot (drv_mode d) (contents s) i
     else apply_ops ps (snapshot (drv_mode d) (contents s) i))"
proof -
  have eff: "contents s' = apply_ops (level_opss (drv_mode d) (of_nat (unat h)) ps) (contents s)"
    using level_commit_effect [of d s h ps] assms(5) by (auto simp: of_nat_unat_height)
  have "versions_wf (drv_mode d) (contents s)"
    using assms(1) by (simp add: level_wf_def)
  then show ?thesis
    using snapshot_level_opss_below [OF _ assms(3,4), of "drv_mode d" "contents s" i]
      snapshot_level_opss_at [OF assms(1-4), of i]
    by (auto simp: eff)
qed

lemma level_commit_indexed:
  assumes "level_wf (drv_mode d) (contents s) t" and "unat h < 2 ^ 56"
    and "[] \<notin> op_key ` set ps" and "level_commit S d s h ps = Ok (s', b')"
  shows "indexed (contents s') k \<longleftrightarrow> indexed (contents s) k \<or> k \<in> op_key ` set ps"
proof -
  have "contents s' = apply_ops (level_opss (drv_mode d) (of_nat (unat h)) ps) (contents s)"
    using level_commit_effect [of d s h ps] assms(4) by (auto simp: of_nat_unat_height)
  then show ?thesis
    using level_opss_effect(3) [OF assms(3,2)] assms(1) by (simp add: level_wf_def)
qed

lemma level_commit_Get:
  assumes "level_wf (drv_mode d) (contents s) t" and "t \<le> unat h" and "unat h < 2 ^ 56"
    and "[] \<notin> op_key ` set ps" and "level_commit S d s h ps = Ok (s', b')"
    and "separated_from (drv_mode d) (contents s') k" and "i \<noteq> 0" and "unat i < 2 ^ 56 - 1"
  shows "driver_Get S d s' i k = Ok ((if unat i < unat h then snapshot (drv_mode d) (contents s) (unat i)
    else apply_ops ps (snapshot (drv_mode d) (contents s) (unat i))) k)"
proof -
  have "versions_wf (drv_mode d) (contents s')"
    using level_commit_wf [OF assms(1-4)] assms(5) by (auto simp: level_wf_def)
  then have "driver_Get S d s' i k = Ok (snapshot (drv_mode d) (contents s') (unat i) k)"
    using assms(6-8) by (intro driver_Get_snapshot) (simp_all add: separated_from_def)
  then show ?thesis
    using level_commit_snapshot [OF assms(1-5)] by simp
qed

lemma level_commit_current:
  assumes "level_wf (drv_mode d) (contents s) t" and "unat h < 2 ^ 56"
    and "[] \<notin> op_key ` set ps" and "level_commit S d s h ps = Ok (s', b')" and "k \<noteq> []"
  shows "driver_Get S d s' 0 k = Ok (apply_ops ps (current_of (contents s)) k)"
proof -
  have "contents s' = apply_ops (level_opss (drv_mode d) (of_nat (unat h)) ps) (contents s)"
    using level_commit_effect [of d s h ps] assms(4) by (auto simp: of_nat_unat_height)
  then have "current_of (contents s') = apply_ops ps (current_of (contents s))"
    using level_opss_effect(1) [OF assms(3,2)] assms(1) by (simp add: level_wf_def)
  then show ?thesis
    using assms(5) by (simp add: driver_Get_current_of)
qed

lemma level_commit_rollback:
  assumes "level_commit S d s h ps = Ok (s', b')"
  shows "\<exists>s'' r. batch_WriteSync S s' (lb_RollbackBatch b') = Ok (s'', r) \<and> contents s'' = contents s"
proof -
  obtain "contents s' = apply_ops (level_opss (drv_mode d) h ps) (contents s)"
    and "pending (lb_RollbackBatch b') = Some (map (undo_op (contents s)) (level_opss (drv_mode d) h ps))"
    using level_commit_effect [of d s h ps] assms by auto
  then show ?thesis
    using batch_write [of "lb_RollbackBatch b'" _ s'] by (force simp: apply_undo)
qed

lemma driver_Has_of_Get:
  assumes "driver_Get S d s h k = Ok v"
  shows "driver_Has S d s h k = Ok (v \<noteq> None)"
proof (cases "h = 0")
  case True
  then show ?thesis
    using assms driver_Get_current driver_Has_current by fastforce
next
  case False
  then have "\<not> h <s - 1"
    using assms
    by (auto simp: driver_Get_def Let_def Height_ToInt64_def Height_CurrentOrNever_def split: if_splits)
  with False show ?thesis
    using assms driver_Get_scan driver_Has_scan by (auto simp: map_ok_eq_Ok)
qed

end

section \<open>Properties\<close>

text \<open>Sample data for the witnesses: an empty session, a descending driver, a block.\<close>

definition sample_driver :: driver where
  "sample_driver = \<lparr>drv_mode = DriverModeKeySuffixDesc\<rparr>"

definition sample_block :: "batch_op list" where
  "sample_block = [OpSet [97] [1, 2], OpSet [98] [3], OpDelete [98]]"

lemma level_wf_empty: "level_wf mode (mem_contents []) 0"
  using mem.finite_contents [of "[]"]
  by (auto simp: level_wf_def versions_wf_def tip_at_def mem_contents_def hist_of_def current_of_def
      prefix_map_def)

lemma not_indexed_empty: "\<not> indexed (mem_contents []) k"
  by (simp add: indexed_def mem_contents_def)

lemma sample_block_keys: "op_key ` set sample_block = {[97], [98]}"
  by (auto simp: sample_block_def)

lemma sample_separated:
  assumes "level_commit mem_db sample_driver [] 5 sample_block = Ok (s', b')"
  shows "separated_from (drv_mode sample_driver) (mem_contents s') [97]"
  using mem.level_commit_indexed [OF level_wf_empty _ _ assms] sample_block_keys
  by (auto simp: separated_from_def not_indexed_empty separated_def extends_by_edge_def edge_def
      sample_driver_def)

text \<open>
  C4. A block committed at or above the tip through a driver batch succeeds, and afterwards a
  read at any height \<open>i\<close> returns what it returned before when \<open>i\<close> is below the block and the
  effect of the block's operations, in order, on the state at \<open>i\<close> otherwise. Keys must be
  separated from the indexed keys; heights are below \<open>2^56 - 1\<close>.
\<close>

theorem driver_Get_after_commit:
  assumes "level_session S contents pending" and "level_wf (drv_mode d) (contents s) t"
    and "t \<le> unat h" and "unat h < 2 ^ 56" and "[] \<notin> op_key ` set ps"
    and "level_commit S d s h ps = Ok (s', b')"
    and "separated_from (drv_mode d) (contents s') k" and "i \<noteq> 0" and "unat i < 2 ^ 56 - 1"
  shows "driver_Get S d s' i k = Ok ((if unat i < unat h then snapshot (drv_mode d) (contents s) (unat i)
    else apply_ops ps (snapshot (drv_mode d) (contents s) (unat i))) k)"
  using assms by (rule level_session.level_commit_Get)

theorem driver_Get_after_commit_witness:
  "\<exists>s' b'. level_commit mem_db sample_driver [] 5 sample_block = Ok (s', b') \<and>
    driver_Get mem_db sample_driver s' 7 [97] = Ok (Some [1, 2]) \<and>
    driver_Get mem_db sample_driver s' 4 [97] = Ok (snapshot (drv_mode sample_driver) (mem_contents []) 4 [97])"
proof -
  obtain s' b' where c: "level_commit mem_db sample_driver [] 5 sample_block = Ok (s', b')"
    using mem.level_commit_effect by blast
  note get = driver_Get_after_commit [OF mem.level_session_axioms level_wf_empty _ _ _ c
      sample_separated [OF c]]
  have "driver_Get mem_db sample_driver s' 7 [97] = Ok (Some [1, 2])"
    using get [of 7] by (simp add: sample_block_def apply_op_def)
  moreover have "driver_Get mem_db sample_driver s' 4 [97] =
      Ok (snapshot (drv_mode sample_driver) (mem_contents []) 4 [97])"
    using get [of 4] by (simp add: sample_block_def)
  ultimately show ?thesis using c by blast
qed

text \<open>
  C18. Committing a block at or above the tip never fails and keeps the invariant of the
  records: versions are well-formed, the tip is the block's height and the current data is the
  state at the tip. The current data afterwards is the block applied to the current data.
\<close>

theorem level_commit_keeps_wf:
  assumes "level_session S contents pending" and "level_wf (drv_mode d) (contents s) t"
    and "t \<le> unat h" and "unat h < 2 ^ 56" and "[] \<notin> op_key ` set ps" and "k \<noteq> []"
  shows "\<exists>s' b'. level_commit S d s h ps = Ok (s', b') \<and> level_wf (drv_mode d) (contents s') (unat h) \<and>
    driver_Get S d s' 0 k = Ok (apply_ops ps (current_of (contents s)) k)"
  using level_session.level_commit_wf [OF assms(1-5)]
    level_session.level_commit_current [OF assms(1,2,4,5) _ assms(6)] by blast

theorem level_commit_keeps_wf_witness:
  "\<exists>s' b'. level_commit mem_db sample_driver [] 5 sample_block = Ok (s', b') \<and>
    level_wf (drv_mode sample_driver) (mem_contents s') 5 \<and>
    driver_Get mem_db sample_driver s' 0 [97] = Ok (Some [1, 2])"
  using level_commit_keeps_wf [OF mem.level_session_axioms level_wf_empty, of 5 sample_block "[97]" sample_driver]
  by (simp add: sample_block_def apply_op_def)

text \<open>
  C19. Iterating at a past height, in either direction, visits exactly the live entries of the
  snapshot at that height in the requested range, in key order (reverse key order), each with
  its value at that height.
\<close>

theorem driver_iterators_snapshot:
  assumes "level_session S contents pending" and "versions_wf (drv_mode d) (contents s)"
    and "index_separated (drv_mode d) (contents s)" and "h \<noteq> 0" and "unat h < 2 ^ 56 - 1"
    and "st \<noteq> Some []" and "en \<noteq> Some []"
  shows "iterate S s (driver_Iterator S d s h st en) =
      Ok (map (\<lambda>(k, v). (k, Some v)) (range_entries (snapshot (drv_mode d) (contents s) (unat h)) st en)) \<and>
    iterate S s (driver_ReverseIterator S d s h st en) =
      Ok (rev (map (\<lambda>(k, v). (k, Some v)) (range_entries (snapshot (drv_mode d) (contents s) (unat h)) st en)))"
  using level_session.iterate_snapshot [OF assms] by blast

theorem driver_iterators_snapshot_witness:
  "\<exists>s' b'. level_commit mem_db sample_driver [] 5 sample_block = Ok (s', b') \<and>
    iterate mem_db s' (driver_Iterator mem_db sample_driver s' 6 None (Some [99])) =
      Ok (map (\<lambda>(k, v). (k, Some v))
        (range_entries (snapshot (drv_mode sample_driver) (mem_contents s') 6) None (Some [99])))"
proof -
  obtain s' b' where c: "level_commit mem_db sample_driver [] 5 sample_block = Ok (s', b')"
    and wf: "level_wf (drv_mode sample_driver) (mem_contents s') (unat (5 :: int64))"
    using mem.level_commit_wf [OF level_wf_empty, of 5 sample_block sample_driver] by (auto simp: sample_block_def)
  have "index_separated (drv_mode sample_driver) (mem_contents s')"
    using mem.level_commit_indexed [OF level_wf_empty _ _ c] sample_block_keys
    by (auto simp: index_separated_def not_indexed_empty separated_def extends_by_edge_def)
  with wf show ?thesis
    using driver_iterators_snapshot [OF mem.level_session_axioms, of sample_driver s' 6 None "Some [99]"] c
    by (simp add: level_wf_def)
qed

text \<open>
  C20. Writing the rollback batch of a committed block gives the session back the contents it
  had before the block, so every later read and iteration is the one of before.
\<close>

theorem level_rollback_roundtrip:
  assumes "level_session S contents pending" and "level_commit S d s h ps = Ok (s', b')"
  shows "\<exists>s'' r. batch_WriteSync S s' (lb_RollbackBatch b') = Ok (s'', r) \<and> contents s'' = contents s"
  using assms by (rule level_session.level_commit_rollback)

theorem level_rollback_roundtrip_witness:
  "\<exists>s' b' s'' r. level_commit mem_db sample_driver [([0, 97], [7])] 5 sample_block = Ok (s', b') \<and>
    batch_WriteSync mem_db s' (lb_RollbackBatch b') = Ok (s'', r) \<and>
    mem_contents s'' [0, 97] = Some [7]"
proof -
  obtain s' b' where c: "level_commit mem_db sample_driver [([0, 97], [7])] 5 sample_block = Ok (s', b')"
    using mem.level_commit_effect by blast
  obtain s'' r where "batch_WriteSync mem_db s' (lb_RollbackBatch b') = Ok (s'', r)"
    and "mem_contents s'' = mem_contents [([0, 97], [7])]"
    using level_rollback_roundtrip [OF mem.level_session_axioms c] by blast
  moreover from this have "mem_contents s'' [0, 97] = Some [7]"
    by (simp add: mem_contents_def)
  ultimately show ?thesis using c by blast
qed

text \<open>
  Existence checks agree with reads: at every height \<open>Has\<close> tells whether \<open>Get\<close> returns a
  value, on any keys and any records, as long as the scanned records carry their flag byte.
\<close>

theorem driver_Has_iff_Get:
  assumes "level_session S contents pending" and "driver_Get S d s h k = Ok v"
  shows "driver_Has S d s h k = Ok (v \<noteq> None)"
  using assms by (rule level_session.driver_Has_of_Get)

theorem driver_Has_iff_Get_witness:
  "driver_Has mem_db sample_driver [([0, 97], [7])] 0 [97] = Ok True"
  using driver_Has_iff_Get [OF mem.level_session_axioms, of sample_driver "[([0, 97], [7])]" 0 "[97]" "Some [7]"]
  by (simp add: mem.driver_Get_current mem_contents_def level_prefix_defs)

text \<open>
  A version of \<open>k 0xff\<close> as the scan for versions of \<open>k\<close> sees it: its suffix is in the range of every
  requested height from the 256th part of its own height on.
\<close>

lemma be_digits_snoc: "be_digits (Suc k) n = be_digits k (n div 256) @ [of_nat n]"
proof -
  have "rev [0..<Suc k] = map Suc (rev [0..<k]) @ [0]"
    by (simp add: rev_map map_Suc_upt upt_conv_Cons del: upt_Suc flip: map_Suc_upt)
  then show ?thesis
    by (simp add: be_digits_def div_mult2_eq comp_def del: upt_Suc)
qed

lemma le_append: "(xs :: bytes) \<le> xs @ ys"
  by (induction xs) auto

lemma alias_in_range:
  assumes "mode \<noteq> DriverModeKeySuffixAsc" and "unat h < 2 ^ 56" and "unat r < 2 ^ 56 - 1" and "unat h div 256 \<le> unat r"
  shows "in_range (height_start mode r) (height_end mode r) (255 # serializeHeight mode h)"
proof -
  let ?n = "unat (maxUint64 - h)" and ?m = "unat (maxUint64 - r)"
  let ?y = "255 # be_digits 7 (?n div 256)"
  have nm: "?n = 2 ^ 64 - 1 - unat h" "?m = 2 ^ 64 - 1 - unat r"
    by (simp_all add: unat_maxUint64_minus)
  have "?n div 256 < 256 ^ 7"
    using unat_uint64_less [of "maxUint64 - h"] by (simp add: less_mult_imp_div_less)
  then have "be_nat ?y = 255 * 256 ^ 7 + ?n div 256"
    by (simp add: be_nat_Cons be_nat_be_digits)
  moreover have "?m \<le> 255 * 256 ^ 7 + ?n div 256"
    using assms(2,4) unfolding nm by (simp; linarith)
  ultimately have "UintToBigEndian (maxUint64 - r) \<le> ?y"
    by (subst be_nat_le_iff) simp_all
  also have "?y \<le> ?y @ [of_nat ?n]"
    by (rule le_append)
  also have "?y @ [of_nat ?n] = 255 # UintToBigEndian (maxUint64 - h)"
    using be_digits_snoc [of 7 ?n] by (simp add: UintToBigEndian_digits)
  finally show ?thesis
    using assms(1) by (simp add: in_range_def height_start_def height_end_def serializeHeight_def)
qed

text \<open>No record of the session belongs to \<open>k\<close> or to a key that extends it.\<close>

definition never_written :: "(bytes \<rightharpoonup> bytes) \<Rightarrow> bytes \<Rightarrow> bool" where
  "never_written m k \<longleftrightarrow> (\<forall>x. m (prefixDataWithHeightKey k @ x) = None \<and> m (prefixCurrentDataKey (k @ x)) = None)"

context level_session
begin

lemma alias_scan:
  assumes "drv_mode d \<noteq> DriverModeKeySuffixAsc" and "never_written (contents s) k"
    and "level_commit S d s h [OpSet (k @ [255]) v] = Ok (s', b')"
    and "unat h < 2 ^ 56" and "unat r < 2 ^ 56 - 1" and "unat h div 256 \<le> unat r"
  shows "height_entries (drv_mode d) (contents s') k r = [(255 # serializeHeight (drv_mode d) h, 0 # v)]"
proof -
  have c: "contents s' = apply_ops (level_ops (drv_mode d) h (OpSet (k @ [255]) v)) (contents s)"
    using level_commit_effect [of d s h "[OpSet (k @ [255]) v]"] assms(3) by (auto simp: level_opss_def)
  have "prefix_map (prefixDataWithHeightKey k) (contents s') x =
      (if x = 255 # serializeHeight (drv_mode d) h then Some (0 # v) else None)" for x
    using assms(2) by (auto simp: c level_ops_effect prefix_map_def never_written_def level_prefix_defs)
  then have "range_entries (prefix_map (prefixDataWithHeightKey k) (contents s')) (height_start (drv_mode d) r)
      (height_end (drv_mode d) r) = [(255 # serializeHeight (drv_mode d) h, 0 # v)]"
    using alias_in_range [OF assms(1,4-6)] finite_contents by (intro range_entries_unique) auto
  then show ?thesis
    using assms(1) by (simp add: height_entries_def)
qed

end

text \<open>
  C21. Without separated keys a height read is wrong, for every key \<open>k\<close>: after a block that writes only
  the key \<open>k 0xff\<close>, to a session with no record of \<open>k\<close> or of a longer key, a read of \<open>k\<close> returns the
  value of the other key. It does so at every height from the block's on, and below it down to the
  256th part of that height, although \<open>k\<close> has no version at any height and no current value.
\<close>

theorem driver_Get_aliases_keys:
  assumes "level_session S contents pending" and "drv_mode d = DriverModeKeySuffixDesc" and "never_written (contents s) k"
    and "level_commit S d s h [OpSet (k @ [255]) v] = Ok (s', b')"
    and "unat h < 2 ^ 56" and "r \<noteq> 0" and "unat r < 2 ^ 56 - 1" and "unat h div 256 \<le> unat r"
  shows "driver_Get S d s' r k = Ok (Some v) \<and> (\<forall>i. snapshot (drv_mode d) (contents s') i k = None) \<and>
    (k \<noteq> [] \<longrightarrow> driver_Get S d s' 0 k = Ok None)"
proof (intro conjI allI impI)
  have mode: "drv_mode d \<noteq> DriverModeKeySuffixAsc"
    by (simp add: assms(2) DriverModeKeySuffixAsc_def DriverModeKeySuffixDesc_def)
  have c: "contents s' = apply_ops (level_ops (drv_mode d) h (OpSet (k @ [255]) v)) (contents s)"
    using level_session.level_commit_effect [OF assms(1), of d s h "[OpSet (k @ [255]) v]"] assms(4) by (auto simp: level_opss_def)
  show "driver_Get S d s' r k = Ok (Some v)"
    using level_session.driver_Get_scan [OF assms(1,6) small_height_not_negative [OF assms(7)], of d s' k]
      level_session.alias_scan [OF assms(1) mode assms(3-5,7,8)]
    by (simp add: read_scan_def)
  have "contents s' (version_key (drv_mode d) k i) = None" for i
  proof -
    have "serializeHeight (drv_mode d) (of_nat i) \<noteq> 255 # serializeHeight (drv_mode d) h"
      by (auto dest: arg_cong [of _ _ length])
    then show ?thesis
      using assms(3) by (simp add: c level_ops_effect version_key_def never_written_def level_prefix_defs)
  qed
  then show "snapshot (drv_mode d) (contents s') i k = None" for i
    unfolding snapshot_def by (intro lookup_at_untouched) (simp add: hist_of_def)
  show "driver_Get S d s' 0 k = Ok None" if "k \<noteq> []"
  proof -
    have "contents s' (prefixCurrentDataKey k) = None"
      using assms(3) [unfolded never_written_def, rule_format, of "[]"] by (simp add: c level_ops_effect level_prefix_defs)
    then show ?thesis
      using level_session.driver_Get_current_of [OF assms(1) that, of d s'] by (simp add: current_of_def prefix_map_def level_prefix_defs)
  qed
qed

theorem driver_Get_aliases_keys_witness:
  "\<exists>s b. level_commit mem_db sample_driver [] 300 [OpSet [97, 255] [1]] = Ok (s, b) \<and>
    driver_Get mem_db sample_driver s 1 [97] = Ok (Some [1]) \<and> driver_Get mem_db sample_driver s 0 [97] = Ok None"
proof -
  obtain s b where s: "level_commit mem_db sample_driver [] 300 [OpSet ([97] @ [255]) [1]] = Ok (s, b)"
    using mem.level_commit_effect [of sample_driver "[]" 300 "[OpSet ([97] @ [255]) [1]]"] by auto
  have "never_written (mem_contents []) [97]"
    by (simp add: never_written_def mem_contents_def)
  with driver_Get_aliases_keys [OF mem.level_session_axioms _ _ s, of 1] s show ?thesis
    by (auto simp: sample_driver_def)
qed

end
