(* ===== verification/Hld.thy ===== *)
theory Hld
  imports Level_Correct
begin

text \<open>
  The height-limited database of \<open>src/db/hld\<close>: a \<open>tmdb.DB\<close> over a database that takes a
  height with every call. \<open>HeightLimitEnabledDB\<close> is the interface of \<open>types.go\<close>; the driver of
  \<open>heleveldb\<close> implements it (\<open>driver_db\<close>). The struct's fields are part of the state of the
  \<open>tmdb.DB\<close> it offers, because several parts of the program share one pointer to it and its
  heights change between calls. The read and write mutexes are never locked by the code.
\<close>

section \<open>The interface (\<open>types.go\<close>)\<close>

record ('s, 'b) HeightLimitEnabledDB =
  odb_Get :: "'s \<Rightarrow> int64 \<Rightarrow> bytes \<Rightarrow> bytes option res"
  odb_Has :: "'s \<Rightarrow> int64 \<Rightarrow> bytes \<Rightarrow> bool res"
  odb_Set :: "'s \<Rightarrow> int64 \<Rightarrow> bytes \<Rightarrow> bytes \<Rightarrow> 's res"
  odb_SetSync :: "'s \<Rightarrow> int64 \<Rightarrow> bytes \<Rightarrow> bytes \<Rightarrow> 's res"
  odb_Delete :: "'s \<Rightarrow> int64 \<Rightarrow> bytes \<Rightarrow> 's res"
  odb_DeleteSync :: "'s \<Rightarrow> int64 \<Rightarrow> bytes \<Rightarrow> 's res"
  odb_Iterator :: "'s \<Rightarrow> int64 \<Rightarrow> bytes option \<Rightarrow> bytes option \<Rightarrow> entries res"
  odb_ReverseIterator :: "'s \<Rightarrow> int64 \<Rightarrow> bytes option \<Rightarrow> bytes option \<Rightarrow> entries res"
  odb_Close :: "'s \<Rightarrow> 's res"
  odb_NewBatch :: "'s \<Rightarrow> int64 \<Rightarrow> 'b"
  ob_Set :: "'s \<Rightarrow> 'b \<Rightarrow> bytes \<Rightarrow> bytes \<Rightarrow> 'b res"
  ob_Delete :: "'s \<Rightarrow> 'b \<Rightarrow> bytes \<Rightarrow> 'b res"
  ob_Write :: "'s \<Rightarrow> 'b \<Rightarrow> ('s \<times> 'b) res"
  ob_WriteSync :: "'s \<Rightarrow> 'b \<Rightarrow> ('s \<times> 'b) res"
  ob_Close :: "'b \<Rightarrow> 'b res"

text \<open>
  The entries a client reads from an iterator of the driver; \<open>nil\<close> and the empty slice are the
  same value to it.
\<close>

definition drained :: "('s, 'b) leveldb \<Rightarrow> 's \<Rightarrow> hl_iterator res \<Rightarrow> entries res" where
  "drained S s i = map_ok (map (\<lambda>(k, v). (k, case v of None \<Rightarrow> [] | Some v \<Rightarrow> v))) (iterate S s i)"

definition driver_db :: "('s, 'b) leveldb \<Rightarrow> driver \<Rightarrow> ('s, 'b level_batch) HeightLimitEnabledDB" where
  "driver_db S d =
     \<lparr>odb_Get = driver_Get S d, odb_Has = driver_Has S d,
      odb_Set = driver_Set, odb_SetSync = driver_SetSync,
      odb_Delete = driver_Delete, odb_DeleteSync = driver_DeleteSync,
      odb_Iterator = (\<lambda>s h st en. drained S s (driver_Iterator S d s h st en)),
      odb_ReverseIterator = (\<lambda>s h st en. drained S s (driver_ReverseIterator S d s h st en)),
      odb_Close = driver_Close S, odb_NewBatch = driver_NewBatch S d,
      ob_Set = lb_Set S, ob_Delete = lb_Delete S, ob_Write = lb_Write S,
      ob_WriteSync = lb_WriteSync S, ob_Close = lb_Close S\<rparr>"

section \<open>The database (\<open>height_limited_db.go\<close>)\<close>

definition LatestHeight :: int64 where
  "LatestHeight = 0"

definition InvalidHeight :: int64 where
  "InvalidHeight = 0"

text \<open>The constants count from 2: \<open>iota\<close> has advanced over the two heights of the group.\<close>

definition debugKeyGet :: int where
  "debugKeyGet = 2"

definition debugKeySet :: int where
  "debugKeySet = 3"

definition debugKeyIterator :: int where
  "debugKeyIterator = 4"

definition debugKeyReverseIterator :: int where
  "debugKeyReverseIterator = 5"

definition debugKeyGetResult :: int where
  "debugKeyGetResult = 6"

definition LatestHeightBuf :: bytes where
  "LatestHeightBuf = replicate 8 255"

record HeightLimitedDB =
  hl_writeHeight :: int64
  hl_readHeight :: int64
  hl_Debug :: bool

definition ApplyHeightLimitedDB :: "bool \<Rightarrow> HeightLimitedDB" where
  "ApplyHeightLimitedDB debug = \<lparr>hl_writeHeight = 0, hl_readHeight = 0, hl_Debug = debug\<rparr>"

definition SetReadHeight :: "HeightLimitedDB \<Rightarrow> int64 \<Rightarrow> HeightLimitedDB" where
  "SetReadHeight hl height = hl\<lparr>hl_readHeight := height\<rparr>"

definition BranchHeightLimitedDB :: "HeightLimitedDB \<Rightarrow> int64 \<Rightarrow> HeightLimitedDB" where
  "BranchHeightLimitedDB hl height = SetReadHeight (ApplyHeightLimitedDB (hl_Debug hl)) height"

definition ClearReadHeight :: "HeightLimitedDB \<Rightarrow> int64 \<times> HeightLimitedDB" where
  "ClearReadHeight hl = (hl_readHeight hl, hl\<lparr>hl_readHeight := LatestHeight\<rparr>)"

definition GetCurrentReadHeight :: "HeightLimitedDB \<Rightarrow> int64" where
  "GetCurrentReadHeight hl = hl_readHeight hl"

definition SetWriteHeight :: "HeightLimitedDB \<Rightarrow> int64 \<Rightarrow> HeightLimitedDB" where
  "SetWriteHeight hl height = (if height \<noteq> 0 then hl\<lparr>hl_writeHeight := height\<rparr> else hl)"

definition ClearWriteHeight :: "HeightLimitedDB \<Rightarrow> int64 \<times> HeightLimitedDB" where
  "ClearWriteHeight hl = (hl_writeHeight hl, hl\<lparr>hl_writeHeight := InvalidHeight\<rparr>)"

definition GetCurrentWriteHeight :: "HeightLimitedDB \<Rightarrow> int64" where
  "GetCurrentWriteHeight hl = hl_writeHeight hl"

type_synonym 's hworld = "'s \<times> HeightLimitedDB"

definition hld_Get :: "('s, 'b) HeightLimitEnabledDB \<Rightarrow> 's hworld \<Rightarrow> bytes \<Rightarrow> bytes option res" where
  "hld_Get H w key = odb_Get H (fst w) (GetCurrentReadHeight (snd w)) key"

definition hld_Has :: "('s, 'b) HeightLimitEnabledDB \<Rightarrow> 's hworld \<Rightarrow> bytes \<Rightarrow> bool res" where
  "hld_Has H w key = odb_Has H (fst w) (GetCurrentReadHeight (snd w)) key"

definition hld_Set ::
  "('s, 'b) HeightLimitEnabledDB \<Rightarrow> 's hworld \<Rightarrow> bytes \<Rightarrow> bytes \<Rightarrow> 's hworld res" where
  "hld_Set H w key value =
     map_ok (\<lambda>s. (s, snd w)) (odb_Set H (fst w) (hl_writeHeight (snd w)) key value)"

definition hld_SetSync ::
  "('s, 'b) HeightLimitEnabledDB \<Rightarrow> 's hworld \<Rightarrow> bytes \<Rightarrow> bytes \<Rightarrow> 's hworld res" where
  "hld_SetSync H w key value = hld_Set H w key value"

definition hld_Delete :: "('s, 'b) HeightLimitEnabledDB \<Rightarrow> 's hworld \<Rightarrow> bytes \<Rightarrow> 's hworld res" where
  "hld_Delete H w key =
     map_ok (\<lambda>s. (s, snd w)) (odb_Delete H (fst w) (hl_writeHeight (snd w)) key)"

definition hld_DeleteSync :: "('s, 'b) HeightLimitEnabledDB \<Rightarrow> 's hworld \<Rightarrow> bytes \<Rightarrow> 's hworld res" where
  "hld_DeleteSync H w key = hld_Delete H w key"

definition hld_Iterator ::
  "('s, 'b) HeightLimitEnabledDB \<Rightarrow> 's hworld \<Rightarrow> bytes option \<Rightarrow> bytes option \<Rightarrow> entries res" where
  "hld_Iterator H w start end = odb_Iterator H (fst w) (GetCurrentReadHeight (snd w)) start end"

definition hld_ReverseIterator ::
  "('s, 'b) HeightLimitEnabledDB \<Rightarrow> 's hworld \<Rightarrow> bytes option \<Rightarrow> bytes option \<Rightarrow> entries res" where
  "hld_ReverseIterator H w start end =
     odb_ReverseIterator H (fst w) (GetCurrentReadHeight (snd w)) start end"

definition hld_Close :: "('s, 'b) HeightLimitEnabledDB \<Rightarrow> 's hworld \<Rightarrow> 's hworld res" where
  "hld_Close H w = map_ok (\<lambda>s. (s, snd w)) (odb_Close H (fst w))"

definition hld_NewBatch :: "('s, 'b) HeightLimitEnabledDB \<Rightarrow> 's hworld \<Rightarrow> 'b" where
  "hld_NewBatch H w = odb_NewBatch H (fst w) (GetCurrentWriteHeight (snd w))"

text \<open>
  \<open>Debug\<close> returns the line it prints, or nothing when the flag is off; slicing a key shorter
  than nine bytes panics.
\<close>

definition hld_Debug :: "HeightLimitedDB \<Rightarrow> int \<Rightarrow> bytes \<Rightarrow> bytes \<Rightarrow> (string \<times> int64 \<times> bytes) option res" where
  "hld_Debug hl debugType key value =
     (if \<not> hl_Debug hl then Ok None
      else if length key < 9 then Panic ''runtime error: slice bounds out of range''
      else
        let keyFamily = take (length key - 9) key;
            keyHeight = drop (length key - 8) key;
            debugPrefix =
              (if debugType = debugKeyGet then ''get''
               else if debugType = debugKeySet then ''set''
               else if debugType = debugKeyIterator then ''get/it''
               else if debugType = debugKeyReverseIterator then ''get/rit''
               else if debugType = debugKeyGetResult then ''get/response''
               else [])
        in map_ok (\<lambda>actualKeyHeight. Some (debugPrefix, actualKeyHeight, keyFamily))
             (if keyHeight = LatestHeightBuf then Ok (- 1) else BigEndianToUint keyHeight))"

text \<open>The \<open>tmdb.DB\<close> the struct implements.\<close>

definition hld_db :: "('s, 'b) HeightLimitEnabledDB \<Rightarrow> ('s hworld, 'b) tmdb" where
  "hld_db H =
     \<lparr>tm_Get = hld_Get H, tm_Has = hld_Has H, tm_Set = hld_Set H, tm_SetSync = hld_SetSync H,
      tm_Delete = hld_Delete H, tm_DeleteSync = hld_DeleteSync H,
      tm_Iterator = hld_Iterator H, tm_ReverseIterator = hld_ReverseIterator H,
      tm_Close = hld_Close H, tm_NewBatch = hld_NewBatch H,
      batch_Set = (\<lambda>w. ob_Set H (fst w)), batch_Delete = (\<lambda>w. ob_Delete H (fst w)),
      batch_Write = (\<lambda>w b. map_ok (\<lambda>(s, b). ((s, snd w), b)) (ob_Write H (fst w) b)),
      batch_WriteSync = (\<lambda>w b. map_ok (\<lambda>(s, b). ((s, snd w), b)) (ob_WriteSync H (fst w) b)),
      batch_Close = ob_Close H\<rparr>"

section \<open>The iterator wrapper (\<open>height_limited_iterator.go\<close>)\<close>

record hl_wrapped =
  hw_oit :: entries
  hw_atHeight :: int64

definition NewHeightLimitedIterator :: "int64 \<Rightarrow> entries \<Rightarrow> hl_wrapped" where
  "NewHeightLimitedIterator atHeight oit = \<lparr>hw_oit = oit, hw_atHeight = atHeight\<rparr>"

definition hw_Valid :: "hl_wrapped \<Rightarrow> bool" where
  "hw_Valid h = it_Valid (hw_oit h)"

definition hw_Next :: "hl_wrapped \<Rightarrow> hl_wrapped res" where
  "hw_Next h = map_ok (\<lambda>it. h\<lparr>hw_oit := it\<rparr>) (it_Next (hw_oit h))"

text \<open>
  The slice bound reads the named result \<open>key\<close>, which is still \<open>nil\<close>: its length is 0 and the
  bound is \<open>-9\<close>.
\<close>

definition go_slice_to :: "bytes \<Rightarrow> int \<Rightarrow> bytes res" where
  "go_slice_to bs n =
     (if n < 0 \<or> int (length bs) < n then Panic ''runtime error: slice bounds out of range''
      else Ok (take (nat n) bs))"

definition hw_Key :: "hl_wrapped \<Rightarrow> bytes res" where
  "hw_Key h = (let key = ([] :: bytes) in
     bind_res (it_Key (hw_oit h)) (\<lambda>k. go_slice_to k (int (length key) - 9)))"

definition hw_Value :: "hl_wrapped \<Rightarrow> bytes res" where
  "hw_Value h = it_Value (hw_oit h)"

end
