(* ===== verification/Hld_Contract.thy ===== *)
theory Hld_Contract
  imports Hld
begin

text \<open>
  The contract between the height-limited database and the database below it, and the two
  contracts it offers in turn: reads of a fixed height (\<open>kv_read\<close>), and the writer's view with
  batches (\<open>kv_batch\<close>). The driver of \<open>heleveldb\<close> meets the lower contract.
\<close>

section \<open>Contract of a height-limit-enabled database\<close>

definition valid_height :: "int64 \<Rightarrow> bool" where
  "valid_height h \<longleftrightarrow> unat h < 2 ^ 56 - 1"

definition ob_push ::
  "('s, 'b) HeightLimitEnabledDB \<Rightarrow> 's \<Rightarrow> 'b \<Rightarrow> batch_op \<Rightarrow> 'b res" where
  "ob_push H s b p = (case p of OpSet k v \<Rightarrow> ob_Set H s b k v | OpDelete k \<Rightarrow> ob_Delete H s b k)"

text \<open>
  \<open>view s h\<close> is the state a read at height \<open>h\<close> sees, the current state for height 0;
  \<open>ok s t\<close> says that the store is well-formed with its newest block at height \<open>t\<close>.
\<close>

locale height_store =
  fixes H :: "('s, 'b) HeightLimitEnabledDB"
    and view :: "'s \<Rightarrow> int64 \<Rightarrow> bytes \<rightharpoonup> bytes"
    and ok :: "'s \<Rightarrow> nat \<Rightarrow> bool"
    and holds :: "'s \<Rightarrow> int64 \<Rightarrow> 'b \<Rightarrow> batch_op list \<Rightarrow> bool"
    and keys :: "bytes set"
  assumes view_finite: "ok s t \<Longrightarrow> finite (dom (view s h))"
    and view_keys: "ok s t \<Longrightarrow> view s h k \<noteq> None \<Longrightarrow> k \<in> keys"
    and get_view: "ok s t \<Longrightarrow> valid_height h \<Longrightarrow> k \<in> keys \<Longrightarrow> odb_Get H s h k = Ok (view s h k)"
    and has_view: "ok s t \<Longrightarrow> valid_height h \<Longrightarrow> k \<in> keys \<Longrightarrow> odb_Has H s h k = Ok (view s h k \<noteq> None)"
    and iter_view: "ok s t \<Longrightarrow> valid_height h \<Longrightarrow> st \<noteq> Some [] \<Longrightarrow> en \<noteq> Some [] \<Longrightarrow>
      odb_Iterator H s h st en = Ok (range_entries (view s h) st en)"
    and riter_view: "ok s t \<Longrightarrow> valid_height h \<Longrightarrow> st \<noteq> Some [] \<Longrightarrow> en \<noteq> Some [] \<Longrightarrow>
      odb_ReverseIterator H s h st en = Ok (rev (range_entries (view s h) st en))"
    and new_holds: "ok s t \<Longrightarrow> holds s h (odb_NewBatch H s h) []"
    and push_holds: "ok s t \<Longrightarrow> holds s h b ps \<Longrightarrow> op_key p \<in> keys \<Longrightarrow>
      \<exists>b'. ob_push H s b p = Ok b' \<and> holds s h b' (ps @ [p])"
    and write_view: "ok s t \<Longrightarrow> t \<le> unat h \<Longrightarrow> valid_height h \<Longrightarrow> holds s h b ps \<Longrightarrow>
      \<exists>s' b'. ob_WriteSync H s b = Ok (s', b') \<and> ok s' (unat h) \<and>
        view s' = (\<lambda>i. if i \<noteq> 0 \<and> unat i < unat h then view s i else apply_ops ps (view s i))"
    and close_ok: "\<exists>b'. ob_Close H b = Ok b'"

section \<open>What the height-limited database offers\<close>

definition hld_view :: "('s \<Rightarrow> int64 \<Rightarrow> bytes \<rightharpoonup> bytes) \<Rightarrow> 's hworld \<Rightarrow> bytes \<rightharpoonup> bytes" where
  "hld_view view w = view (fst w) (hl_readHeight (snd w))"

definition reader_inv :: "('s \<Rightarrow> nat \<Rightarrow> bool) \<Rightarrow> 's hworld \<Rightarrow> bool" where
  "reader_inv ok w \<longleftrightarrow> (\<exists>t. ok (fst w) t) \<and> valid_height (hl_readHeight (snd w))"

text \<open>The writer reads the current state and writes at a height not below the newest block.\<close>

definition writer_inv :: "('s \<Rightarrow> nat \<Rightarrow> bool) \<Rightarrow> 's hworld \<Rightarrow> bool" where
  "writer_inv ok w \<longleftrightarrow> (\<exists>t \<le> unat (hl_writeHeight (snd w)). ok (fst w) t) \<and>
     hl_readHeight (snd w) = 0 \<and> valid_height (hl_writeHeight (snd w))"

definition hld_holds ::
  "('s \<Rightarrow> int64 \<Rightarrow> 'b \<Rightarrow> batch_op list \<Rightarrow> bool) \<Rightarrow> 's hworld \<Rightarrow> 'b \<Rightarrow> batch_op list \<Rightarrow> bool" where
  "hld_holds holds w b ps \<longleftrightarrow> holds (fst w) (hl_writeHeight (snd w)) b ps"

lemmas hld_op_defs = hld_Get_def hld_Has_def hld_Iterator_def hld_ReverseIterator_def hld_NewBatch_def
  GetCurrentReadHeight_def GetCurrentWriteHeight_def

lemma valid_height_0 [simp]: "valid_height 0"
  by (simp add: valid_height_def)

lemma writer_inv_reader: "writer_inv ok w \<Longrightarrow> reader_inv ok w"
  by (auto simp: writer_inv_def reader_inv_def)

sublocale height_store \<subseteq> reader: kv_read "hld_db H" "hld_view view" "reader_inv ok" keys
proof
  fix w k
  assume inv: "reader_inv ok w"
  then show "finite (dom (hld_view view w))"
    by (auto simp: reader_inv_def hld_view_def view_finite)
  show "k \<in> keys" if "hld_view view w k \<noteq> None"
    using inv that by (auto simp: reader_inv_def hld_view_def intro: view_keys)
  show "tm_Get (hld_db H) w k = Ok (hld_view view w k)" if "k \<in> keys"
    using inv that by (auto simp: reader_inv_def hld_view_def hld_db_def hld_op_defs get_view)
  show "tm_Has (hld_db H) w k = Ok (hld_view view w k \<noteq> None)" if "k \<in> keys"
    using inv that by (auto simp: reader_inv_def hld_view_def hld_db_def hld_op_defs has_view)
next
  fix w and st en :: "bytes option"
  assume "reader_inv ok w" and "st \<noteq> Some []" and "en \<noteq> Some []"
  then show "tm_Iterator (hld_db H) w st en = Ok (range_entries (hld_view view w) st en)"
    and "tm_ReverseIterator (hld_db H) w st en = Ok (rev (range_entries (hld_view view w) st en))"
    by (auto simp: reader_inv_def hld_view_def hld_db_def hld_op_defs iter_view riter_view)
qed

sublocale height_store \<subseteq> writer: kv_batch "hld_db H" "hld_view view" "hld_holds holds" "writer_inv ok" keys
proof
  fix w
  assume inv: "writer_inv ok w"
  then show "hld_holds holds w (tm_NewBatch (hld_db H) w) []"
    by (auto simp: writer_inv_def hld_holds_def hld_db_def hld_op_defs intro: new_holds)
  fix b ps
  assume b: "hld_holds holds w b ps"
  show "\<exists>b'. batch_push (hld_db H) w b p = Ok b' \<and> hld_holds holds w b' (ps @ [p])"
    if "op_key p \<in> keys" for p
  proof -
    have "batch_push (hld_db H) w b p = ob_push H (fst w) b p"
      by (cases p) (simp_all add: batch_push_def hld_db_def ob_push_def)
    then show ?thesis
      using inv b push_holds [OF _ _ that] unfolding writer_inv_def hld_holds_def by metis
  qed
  obtain t where "ok (fst w) t" and "t \<le> unat (hl_writeHeight (snd w))"
    using inv unfolding writer_inv_def by blast
  from write_view [OF this _ b [unfolded hld_holds_def]] inv
  obtain s' b' where "ob_WriteSync H (fst w) b = Ok (s', b')" "ok s' (unat (hl_writeHeight (snd w)))"
    "view s' 0 = apply_ops ps (view (fst w) 0)"
    unfolding writer_inv_def by fastforce
  then show "\<exists>w' b'. batch_WriteSync (hld_db H) w b = Ok (w', b') \<and> writer_inv ok w' \<and>
      hld_view view w' = apply_ops ps (hld_view view w)"
    using inv by (auto simp: hld_db_def writer_inv_def hld_view_def)
next
  show "\<exists>b'. batch_Close (hld_db H) b = Ok b'" for b
    by (simp add: hld_db_def close_ok)
qed

text \<open>
  With roll back: \<open>undo\<close> takes the rollback batch out of a batch and \<open>undo_write\<close> writes it.
\<close>

locale height_rollback = height_store H view ok holds keys
  for H :: "('s, 'b) HeightLimitEnabledDB"
    and view :: "'s \<Rightarrow> int64 \<Rightarrow> bytes \<rightharpoonup> bytes"
    and ok :: "'s \<Rightarrow> nat \<Rightarrow> bool"
    and holds :: "'s \<Rightarrow> int64 \<Rightarrow> 'b \<Rightarrow> batch_op list \<Rightarrow> bool"
    and keys :: "bytes set" +
  fixes undo :: "'b \<Rightarrow> 'r"
    and undo_write :: "'s \<Rightarrow> 'r \<Rightarrow> ('s \<times> 'r) res"
  assumes undo_restores: "ok s t \<Longrightarrow> holds s h b ps \<Longrightarrow> ob_WriteSync H s b = Ok (s', b') \<Longrightarrow>
    \<exists>s'' r'. undo_write s' (undo b) = Ok (s'', r') \<and> ok s'' t \<and> view s'' = view s"

text \<open>
  A branch for a past height keeps its answers when the writer commits a later block.
\<close>

context height_store
begin

lemma branch_view: "hld_view view (s, BranchHeightLimitedDB hl h) = view s h"
  by (simp add: hld_view_def BranchHeightLimitedDB_def SetReadHeight_def)

lemma branch_reader_inv: "ok s t \<Longrightarrow> valid_height h \<Longrightarrow> reader_inv ok (s, BranchHeightLimitedDB hl h)"
  by (auto simp: reader_inv_def BranchHeightLimitedDB_def SetReadHeight_def)

lemma commit_keeps_branch:
  assumes "writer_inv ok (s, hl)" and "hld_holds holds (s, hl) b ps"
    and "batch_WriteSync (hld_db H) (s, hl) b = Ok (w', b')"
    and "h \<noteq> 0" and "unat h < unat (hl_writeHeight hl)"
  shows "\<exists>t t'. ok s t \<and> ok (fst w') t' \<and> view (fst w') h = view s h"
proof -
  obtain t where "ok s t" and "t \<le> unat (hl_writeHeight hl)" and "valid_height (hl_writeHeight hl)"
    using assms(1) by (auto simp: writer_inv_def)
  moreover from write_view [OF this] assms(2) obtain s' b'' where
    "ob_WriteSync H s b = Ok (s', b'')" and "ok s' (unat (hl_writeHeight hl))"
    and "view s' = (\<lambda>i. if i \<noteq> 0 \<and> unat i < unat (hl_writeHeight hl) then view s i
      else apply_ops ps (view s i))"
    unfolding hld_holds_def fst_conv snd_conv by blast
  moreover from this have "fst w' = s'"
    using assms(3) by (auto simp: hld_db_def)
  ultimately show ?thesis
    using assms(4,5) by auto
qed

lemma commit_keeps_branch_reads:
  assumes "writer_inv ok (s, hl)" and "hld_holds holds (s, hl) b ps"
    and "batch_WriteSync (hld_db H) (s, hl) b = Ok (w', b')"
    and "h \<noteq> 0" and "unat h < unat (hl_writeHeight hl)"
  shows "k \<in> keys \<Longrightarrow> hld_Get H (fst w', BranchHeightLimitedDB hl' h) k = hld_Get H (s, BranchHeightLimitedDB hl' h) k"
    and "st \<noteq> Some [] \<Longrightarrow> en \<noteq> Some [] \<Longrightarrow>
      hld_Iterator H (fst w', BranchHeightLimitedDB hl' h) st en = hld_Iterator H (s, BranchHeightLimitedDB hl' h) st en"
proof -
  have h: "valid_height h"
    using assms(1,5) by (auto simp: writer_inv_def valid_height_def)
  obtain t t' where "ok s t" "ok (fst w') t'" and eq: "view (fst w') h = view s h"
    using commit_keeps_branch [OF assms] by blast
  then have inv: "reader_inv ok (s, BranchHeightLimitedDB hl' h)"
    "reader_inv ok (fst w', BranchHeightLimitedDB hl' h)"
    using h branch_reader_inv by blast+
  show "hld_Get H (fst w', BranchHeightLimitedDB hl' h) k = hld_Get H (s, BranchHeightLimitedDB hl' h) k"
    if "k \<in> keys"
    using inv [THEN reader.get_contents, OF that] eq by (simp add: branch_view hld_db_def)
  show "hld_Iterator H (fst w', BranchHeightLimitedDB hl' h) st en = hld_Iterator H (s, BranchHeightLimitedDB hl' h) st en"
    if "st \<noteq> Some []" "en \<noteq> Some []"
    using inv [THEN reader.iter_contents, OF that] eq by (simp add: branch_view hld_db_def)
qed

end

section \<open>The driver meets the contract\<close>

definition driver_view :: "('s \<Rightarrow> bytes \<rightharpoonup> bytes) \<Rightarrow> driver \<Rightarrow> 's \<Rightarrow> int64 \<Rightarrow> bytes \<rightharpoonup> bytes" where
  "driver_view contents d s h =
     (if h = 0 then current_of (contents s) else snapshot (drv_mode d) (contents s) (unat h))"

definition driver_ok ::
  "('s \<Rightarrow> bytes \<rightharpoonup> bytes) \<Rightarrow> driver \<Rightarrow> bytes set \<Rightarrow> 's \<Rightarrow> nat \<Rightarrow> bool" where
  "driver_ok contents d K s t \<longleftrightarrow>
     level_wf (drv_mode d) (contents s) t \<and> (\<forall>k. indexed (contents s) k \<longrightarrow> k \<in> K)"

definition driver_holds ::
  "('s \<Rightarrow> bytes \<rightharpoonup> bytes) \<Rightarrow> ('b \<Rightarrow> batch_op list option) \<Rightarrow> driver \<Rightarrow> bytes set \<Rightarrow>
   's \<Rightarrow> int64 \<Rightarrow> 'b level_batch \<Rightarrow> batch_op list \<Rightarrow> bool" where
  "driver_holds contents pending d K s h b ps \<longleftrightarrow>
     lb_holds pending (contents s) b ps \<and> lb_height b = h \<and> lb_mode b = drv_mode d \<and>
     op_key ` set ps \<subseteq> K"

text \<open>A universe of keys without the empty key, any two of them separated.\<close>

definition key_universe :: "int \<Rightarrow> bytes set \<Rightarrow> bool" where
  "key_universe mode K \<longleftrightarrow> [] \<notin> K \<and> (\<forall>k \<in> K. \<forall>k' \<in> K. separated mode k k')"

lemma driver_view_indexed:
  assumes "level_wf (drv_mode d) (contents s) t" and "driver_view contents d s h k \<noteq> None"
  shows "indexed (contents s) k"
proof (cases "h = 0")
  case True
  then have cur: "current_of (contents s) k \<noteq> None"
    using assms(2) by (simp add: driver_view_def)
  then have "k \<noteq> []"
    by (auto simp: current_of_def)
  then have "snapshot (drv_mode d) (contents s) t k \<noteq> None"
    using assms(1) cur by (simp add: level_wf_def tip_at_def snapshot_def)
  then show ?thesis
    using assms(1) snapshot_indexed [of "drv_mode d" "contents s" t k] by (simp add: level_wf_def)
next
  case False
  then show ?thesis
    using assms snapshot_indexed [of "drv_mode d" "contents s" "unat h" k]
    by (simp add: driver_view_def level_wf_def)
qed

lemma finite_indexed: "finite (dom m) \<Longrightarrow> finite {k. indexed m k}"
proof -
  assume "finite (dom m)"
  then have "finite (dom (index_of m))"
    by (simp add: index_of_def)
  moreover have "{k. indexed m k} = dom (index_of m)"
    by (auto simp flip: index_of_indexed)
  ultimately show ?thesis by simp
qed

lemma drained_entries: "iterate S s i = Ok (map (\<lambda>(k, v). (k, Some v)) es) \<Longrightarrow> drained S s i = Ok es"
  by (simp add: drained_def comp_def case_prod_beta')

context level_session
begin

lemma driver_commit_view:
  assumes ok: "driver_ok contents d K s t" and h: "t \<le> unat h" "valid_height h"
    and b: "driver_holds contents pending d K s h b ps" and K: "[] \<notin> K"
  shows "\<exists>s' b'. lb_WriteSync S s b = Ok (s', b') \<and> driver_ok contents d K s' (unat h) \<and>
    driver_view contents d s' = (\<lambda>i. if i \<noteq> 0 \<and> unat i < unat h then driver_view contents d s i
      else apply_ops ps (driver_view contents d s i))"
proof -
  have wf: "level_wf (drv_mode d) (contents s) t" and h': "unat h < 2 ^ 56"
    and keys: "[] \<notin> op_key ` set ps"
    using ok h b K by (auto simp: driver_ok_def valid_height_def driver_holds_def)
  obtain s' b' where w: "lb_WriteSync S s b = Ok (s', b')"
    and c: "contents s' = apply_ops (level_opss (drv_mode d) (of_nat (unat h)) ps) (contents s)"
    using lb_write_holds [of s b ps] b unfolding driver_holds_def of_nat_unat_height by metis
  have vwf: "versions_wf (drv_mode d) (contents s)"
    using wf by (simp add: level_wf_def)
  have "driver_ok contents d K s' (unat h)"
    using level_wf_level_opss [OF wf h(1) h' keys] level_opss_effect(3) [OF keys h' vwf] ok b
    by (auto simp: driver_ok_def c driver_holds_def)
  moreover have "driver_view contents d s' i = (if i \<noteq> 0 \<and> unat i < unat h then driver_view contents d s i
      else apply_ops ps (driver_view contents d s i))" for i
    using level_opss_effect(1) [OF keys h' vwf, folded c] snapshot_level_opss_below [OF vwf h' keys, of "unat i", folded c]
      snapshot_level_opss_at [OF wf h(1) h' keys, of "unat i", folded c]
    by (simp add: driver_view_def)
  ultimately show ?thesis using w by blast
qed

lemma driver_undo:
  assumes "driver_ok contents d K s t" and "driver_holds contents pending d K s h b ps"
    and "lb_WriteSync S s b = Ok (s', b')"
  shows "\<exists>s'' r'. batch_WriteSync S s' (lb_RollbackBatch b) = Ok (s'', r') \<and>
    driver_ok contents d K s'' t \<and> driver_view contents d s'' = driver_view contents d s"
proof -
  let ?ops = "level_opss (lb_mode b) (lb_height b) ps"
  have "lb_holds pending (contents s) b ps"
    using assms(2) by (simp add: driver_holds_def)
  from lb_write_holds [OF this] assms(3) have "contents s' = apply_ops ?ops (contents s)"
    and "pending (lb_RollbackBatch b) = Some (map (undo_op (contents s)) ?ops)"
    by auto
  then obtain s'' r where "batch_WriteSync S s' (lb_RollbackBatch b) = Ok (s'', r)"
    and "contents s'' = contents s"
    using batch_write [of "lb_RollbackBatch b" _ s'] apply_undo by metis
  moreover from this have "driver_view contents d s'' = driver_view contents d s"
    by (intro ext) (simp add: driver_view_def)
  ultimately show ?thesis
    using assms(1) by (auto simp: driver_ok_def)
qed

lemma driver_reads:
  assumes "driver_ok contents d K s t" and "key_universe (drv_mode d) K" and "valid_height h" and "k \<in> K"
  shows "driver_Get S d s h k = Ok (driver_view contents d s h k)"
proof (cases "h = 0")
  case True
  have "k \<noteq> []"
    using assms(2,4) by (auto simp: key_universe_def)
  with True show ?thesis
    by (simp add: driver_view_def driver_Get_current_of)
next
  case False
  have "driver_Get S d s h k = Ok (snapshot (drv_mode d) (contents s) (unat h) k)"
    using assms False
    by (intro driver_Get_snapshot) (auto simp: driver_ok_def level_wf_def key_universe_def valid_height_def)
  with False show ?thesis by (simp add: driver_view_def)
qed

lemma driver_iterates:
  assumes "driver_ok contents d K s t" and "key_universe (drv_mode d) K" and "valid_height h"
    and "st \<noteq> Some []" and "en \<noteq> Some []"
  shows "drained S s (driver_Iterator S d s h st en) = Ok (range_entries (driver_view contents d s h) st en)"
    and "drained S s (driver_ReverseIterator S d s h st en) =
      Ok (rev (range_entries (driver_view contents d s h) st en))"
proof -
  have "index_separated (drv_mode d) (contents s)" and "versions_wf (drv_mode d) (contents s)"
    using assms by (auto simp: index_separated_def driver_ok_def key_universe_def level_wf_def)
  then show "drained S s (driver_Iterator S d s h st en) = Ok (range_entries (driver_view contents d s h) st en)"
    and "drained S s (driver_ReverseIterator S d s h st en) =
      Ok (rev (range_entries (driver_view contents d s h) st en))"
    using assms(3-5) iterate_snapshot [of d s h st en] iterate_current [OF assms(4,5), of s d]
    by (auto simp: driver_view_def valid_height_def rev_map intro!: drained_entries)
qed

end

text \<open>
  Every healthy session gives a driver that meets the contract, roll back included, on any
  universe of separated keys.
\<close>

lemma driver_height_rollback:
  assumes "level_session S contents pending" and K: "key_universe (drv_mode d) K"
  shows "height_rollback (driver_db S d) (driver_view contents d) (driver_ok contents d K)
    (driver_holds contents pending d K) K lb_RollbackBatch (batch_WriteSync S)"
proof -
  have ses: "level_session S contents pending" by fact
  have K': "[] \<notin> K" using K by (simp add: key_universe_def)
  show ?thesis
  proof (unfold_locales, goal_cases)
    case (1 s t h)
    then have "{k. indexed (contents s) k} \<supseteq> dom (driver_view contents d s h)"
      using driver_view_indexed [of d contents s t h] by (auto simp: driver_ok_def)
    then show ?case
      using 1 finite_indexed [of "contents s"] by (auto simp: driver_ok_def level_wf_def intro: finite_subset)
  next
    case (2 s t h k)
    then show ?case
      using driver_view_indexed [of d contents s t h k] by (auto simp: driver_ok_def)
  next
    case (3 s t h k)
    then show ?case
      using level_session.driver_reads [OF ses _ K] by (simp add: driver_db_def)
  next
    case (4 s t h k)
    then show ?case
      using level_session.driver_reads [OF ses _ K] level_session.driver_Has_of_Get [OF ses] by (simp add: driver_db_def)
  next
    case (5 s t h st en)
    then show ?case
      using level_session.driver_iterates [OF ses _ K] by (simp add: driver_db_def)
  next
    case (6 s t h st en)
    then show ?case
      using level_session.driver_iterates [OF ses _ K] by (simp add: driver_db_def)
  next
    case (7 s t h)
    then show ?case
      using level_session.lb_holds_new [OF ses, of s h d]
      by (simp add: driver_db_def driver_holds_def driver_NewBatch_def) (simp add: NewLevelDBBatch_def)
  next
    case (8 s t h b ps p)
    have "ob_push (driver_db S d) s b p = lb_push S s b p"
      by (cases p) (simp_all add: ob_push_def driver_db_def lb_push_def)
    then show ?case
      using 8 level_session.lb_push_holds [OF ses, of s b ps p] by (auto simp: driver_holds_def)
  next
    case (9 s t h b ps)
    then show ?case
      using level_session.driver_commit_view [OF ses _ _ _ _ K'] by (simp add: driver_db_def)
  next
    case (10 b)
    have "\<exists>x. batch_Close S y = Ok x" for y
      using ses by (simp add: level_session_def kv_batch_def)
    then obtain x where "batch_Close S (rb_Batch (lb_batch b)) = Ok x" by blast
    then show ?case
      by (simp add: driver_db_def lb_Close_def rb_Close_def)
  next
    case (11 s t h b ps s' b')
    then show ?case
      using level_session.driver_undo [OF ses] by (simp add: driver_db_def)
  qed
qed

definition sample_keys :: "bytes set" where
  "sample_keys = {[97], [98]}"

lemma sample_keys_universe: "key_universe mode sample_keys"
  by (auto simp: key_universe_def sample_keys_def separated_def extends_by_edge_def)

interpretation mem_driver: height_rollback "driver_db mem_db sample_driver"
  "driver_view mem_contents sample_driver" "driver_ok mem_contents sample_driver sample_keys"
  "driver_holds mem_contents mem_pending sample_driver sample_keys" sample_keys lb_RollbackBatch
  "batch_WriteSync mem_db"
  by (rule driver_height_rollback [OF mem.level_session_axioms sample_keys_universe])

lemma driver_ok_empty: "driver_ok mem_contents d K [] 0"
  by (simp add: driver_ok_def level_wf_empty not_indexed_empty)

section \<open>Properties\<close>

text \<open>
  History is immutable: when the writer flushes a batch at a height above \<open>h\<close>, every
  branch for height \<open>h\<close> answers point reads as before.
\<close>

theorem hld_branch_Get_stable:
  assumes "level_session S contents pending" and "key_universe (drv_mode d) K"
    and "writer_inv (driver_ok contents d K) (s, hl)"
    and "hld_holds (driver_holds contents pending d K) (s, hl) b ps"
    and "batch_WriteSync (hld_db (driver_db S d)) (s, hl) b = Ok (w', b')"
    and "h \<noteq> 0" and "unat h < unat (hl_writeHeight hl)" and "k \<in> K"
  shows "hld_Get (driver_db S d) (fst w', BranchHeightLimitedDB hl h) k =
    hld_Get (driver_db S d) (s, BranchHeightLimitedDB hl h) k"
proof -
  from driver_height_rollback [OF assms(1,2)]
  have "height_store (driver_db S d) (driver_view contents d) (driver_ok contents d K)
      (driver_holds contents pending d K) K"
    by (rule height_rollback.axioms)
  from height_store.commit_keeps_branch_reads(1) [OF this assms(3-7,8)] show ?thesis .
qed

definition sample_writer :: HeightLimitedDB where
  "sample_writer = SetWriteHeight (ApplyHeightLimitedDB True) 5"

lemma sample_writer_inv: "writer_inv (driver_ok mem_contents sample_driver sample_keys) ([], sample_writer)"
  using driver_ok_empty
  by (auto simp: writer_inv_def sample_writer_def SetWriteHeight_def ApplyHeightLimitedDB_def
      valid_height_def intro: exI [of _ 0])

theorem hld_branch_Get_stable_witness:
  "\<exists>b w' b'. batch_push (hld_db (driver_db mem_db sample_driver)) ([], sample_writer)
      (tm_NewBatch (hld_db (driver_db mem_db sample_driver)) ([], sample_writer)) (OpSet [97] [7]) = Ok b \<and>
    batch_WriteSync (hld_db (driver_db mem_db sample_driver)) ([], sample_writer) b = Ok (w', b') \<and>
    hld_Get (driver_db mem_db sample_driver) (fst w', BranchHeightLimitedDB sample_writer 3) [97] =
    hld_Get (driver_db mem_db sample_driver) ([], BranchHeightLimitedDB sample_writer 3) [97]"
proof -
  let ?D = "hld_db (driver_db mem_db sample_driver)"
  let ?holds = "hld_holds (driver_holds mem_contents mem_pending sample_driver sample_keys)"
  have "op_key (OpSet [97] [7]) \<in> sample_keys"
    by (simp add: sample_keys_def)
  from mem_driver.writer.batch_push [OF sample_writer_inv mem_driver.writer.batch_new [OF sample_writer_inv] this]
  obtain b where b: "batch_push ?D ([], sample_writer) (tm_NewBatch ?D ([], sample_writer)) (OpSet [97] [7]) = Ok b"
    and holds: "?holds ([], sample_writer) b [OpSet [97] [7]]"
    by auto
  from mem_driver.writer.batch_write [OF sample_writer_inv holds]
  obtain w' b' where w: "batch_WriteSync ?D ([], sample_writer) b = Ok (w', b')"
    by auto
  have "hl_writeHeight sample_writer = 5"
    by (simp add: sample_writer_def SetWriteHeight_def)
  then have "hld_Get (driver_db mem_db sample_driver) (fst w', BranchHeightLimitedDB sample_writer 3) [97] =
      hld_Get (driver_db mem_db sample_driver) ([], BranchHeightLimitedDB sample_writer 3) [97]"
    using hld_branch_Get_stable [OF mem.level_session_axioms sample_keys_universe sample_writer_inv holds w,
        of 3 "[97]"] by (simp add: sample_keys_def)
  with b w show ?thesis by blast
qed

text \<open>
  The key method of the wrapped iterator never returns: it slices with the bound \<open>-9\<close>,
  so it panics on every iterator.
\<close>

theorem hw_Key_panics: "\<exists>p. hw_Key h = Panic p"
proof (cases "hw_oit h")
  case Nil
  then show ?thesis by (simp add: hw_Key_def)
next
  case (Cons e it)
  then show ?thesis by (simp add: hw_Key_def go_slice_to_def)
qed

end
