(* ===== verification/Safe_Batch.thy ===== *)
theory Safe_Batch
  imports Tm_DB
begin

text \<open>
  \<open>src/db/safe_batch\<close>: a database that collects all writes between \<open>Open\<close> and \<open>Flush\<close> in one
  batch of the database below. Batches are pointers: the struct, and every
  \<open>SafeBatchNullified\<close> handed out, share the open batch, so batches live in a heap and the
  struct holds an address. Reads go to the database below, not to the open batch.
\<close>

section \<open>Definitions\<close>

record ('s, 'b) SafeBatchDB =
  sb_store :: 's
  sb_heap :: "'b list"
  sb_batch :: "nat option"

definition NewSafeBatchDB :: "'s \<Rightarrow> ('s, 'b) SafeBatchDB" where
  "NewSafeBatchDB db = \<lparr>sb_store = db, sb_heap = [], sb_batch = None\<rparr>"

definition nil_deref :: string where
  "nil_deref = ''runtime error: invalid memory address or nil pointer dereference''"

definition sb_Open :: "('s, 'b, 'z) tmdb_scheme \<Rightarrow> ('s, 'b) SafeBatchDB \<Rightarrow> ('s, 'b) SafeBatchDB" where
  "sb_Open D w = w\<lparr>sb_heap := sb_heap w @ [tm_NewBatch D (sb_store w)],
     sb_batch := Some (length (sb_heap w))\<rparr>"

text \<open>
  The deferred function of \<open>Flush\<close>: close the batch, whose error is dropped, and forget it.
\<close>

definition sb_release ::
  "('s, 'b, 'z) tmdb_scheme \<Rightarrow> ('s, 'b) SafeBatchDB \<Rightarrow> nat \<Rightarrow> 's \<Rightarrow> 'b \<Rightarrow> ('s, 'b) SafeBatchDB res" where
  "sb_release D w p s b =
     (case batch_Close D b of
        Ok b' \<Rightarrow> Ok (w\<lparr>sb_store := s, sb_heap := (sb_heap w)[p := b'], sb_batch := None\<rparr>)
      | Err e \<Rightarrow> Ok (w\<lparr>sb_store := s, sb_heap := (sb_heap w)[p := b], sb_batch := None\<rparr>)
      | Panic q \<Rightarrow> Panic q)"

text \<open>
  \<open>rollback\<close> is the type assertion to \<open>rollbackable.HasRollbackBatch\<close> with the call of its
  method. The result is the rollback batch and the error of the write, if any.
\<close>

definition sb_Flush ::
  "('s, 'b, 'z) tmdb_scheme \<Rightarrow> ('b \<Rightarrow> 'r option) \<Rightarrow> ('s, 'b) SafeBatchDB \<Rightarrow>
   ('r option \<times> string option \<times> ('s, 'b) SafeBatchDB) res" where
  "sb_Flush D rollback w =
     (case sb_batch w of
        None \<Rightarrow> Panic nil_deref
      | Some p \<Rightarrow>
          let b = sb_heap w ! p; r = rollback b
          in case batch_WriteSync D (sb_store w) b of
               Ok (s', b') \<Rightarrow> map_ok (\<lambda>w'. (r, None, w')) (sb_release D w p s' b')
             | Err e \<Rightarrow> map_ok (\<lambda>w'. (r, Some e, w')) (sb_release D w p (sb_store w) b)
             | Panic q \<Rightarrow> Panic q)"

definition sb_Get :: "('s, 'b, 'z) tmdb_scheme \<Rightarrow> ('s, 'b) SafeBatchDB \<Rightarrow> bytes \<Rightarrow> bytes option res" where
  "sb_Get D w key = tm_Get D (sb_store w) key"

definition sb_Has :: "('s, 'b, 'z) tmdb_scheme \<Rightarrow> ('s, 'b) SafeBatchDB \<Rightarrow> bytes \<Rightarrow> bool res" where
  "sb_Has D w key = tm_Has D (sb_store w) key"

text \<open>Adding an operation to the batch at an address.\<close>

definition heap_Set ::
  "('s, 'b, 'z) tmdb_scheme \<Rightarrow> ('s, 'b) SafeBatchDB \<Rightarrow> nat \<Rightarrow> bytes \<Rightarrow> bytes \<Rightarrow> ('s, 'b) SafeBatchDB res" where
  "heap_Set D w p key value =
     map_ok (\<lambda>b. w\<lparr>sb_heap := (sb_heap w)[p := b]\<rparr>) (batch_Set D (sb_store w) (sb_heap w ! p) key value)"

definition heap_Delete ::
  "('s, 'b, 'z) tmdb_scheme \<Rightarrow> ('s, 'b) SafeBatchDB \<Rightarrow> nat \<Rightarrow> bytes \<Rightarrow> ('s, 'b) SafeBatchDB res" where
  "heap_Delete D w p key =
     map_ok (\<lambda>b. w\<lparr>sb_heap := (sb_heap w)[p := b]\<rparr>) (batch_Delete D (sb_store w) (sb_heap w ! p) key)"

definition sb_Set ::
  "('s, 'b, 'z) tmdb_scheme \<Rightarrow> ('s, 'b) SafeBatchDB \<Rightarrow> bytes \<Rightarrow> bytes \<Rightarrow> ('s, 'b) SafeBatchDB res" where
  "sb_Set D w key value =
     (case sb_batch w of
        Some p \<Rightarrow> heap_Set D w p key value
      | None \<Rightarrow> map_ok (\<lambda>s. w\<lparr>sb_store := s\<rparr>) (tm_Set D (sb_store w) key value))"

definition sb_SetSync ::
  "('s, 'b, 'z) tmdb_scheme \<Rightarrow> ('s, 'b) SafeBatchDB \<Rightarrow> bytes \<Rightarrow> bytes \<Rightarrow> ('s, 'b) SafeBatchDB res" where
  "sb_SetSync D w key value = sb_Set D w key value"

definition sb_Delete ::
  "('s, 'b, 'z) tmdb_scheme \<Rightarrow> ('s, 'b) SafeBatchDB \<Rightarrow> bytes \<Rightarrow> ('s, 'b) SafeBatchDB res" where
  "sb_Delete D w key =
     (case sb_batch w of
        Some p \<Rightarrow> heap_Delete D w p key
      | None \<Rightarrow> map_ok (\<lambda>s. w\<lparr>sb_store := s\<rparr>) (tm_Delete D (sb_store w) key))"

definition sb_DeleteSync ::
  "('s, 'b, 'z) tmdb_scheme \<Rightarrow> ('s, 'b) SafeBatchDB \<Rightarrow> bytes \<Rightarrow> ('s, 'b) SafeBatchDB res" where
  "sb_DeleteSync D w key = sb_Delete D w key"

definition sb_Iterator ::
  "('s, 'b, 'z) tmdb_scheme \<Rightarrow> ('s, 'b) SafeBatchDB \<Rightarrow> bytes option \<Rightarrow> bytes option \<Rightarrow> entries res" where
  "sb_Iterator D w start end = tm_Iterator D (sb_store w) start end"

definition sb_ReverseIterator ::
  "('s, 'b, 'z) tmdb_scheme \<Rightarrow> ('s, 'b) SafeBatchDB \<Rightarrow> bytes option \<Rightarrow> bytes option \<Rightarrow> entries res" where
  "sb_ReverseIterator D w start end = tm_ReverseIterator D (sb_store w) start end"

definition sb_Close :: "('s, 'b, 'z) tmdb_scheme \<Rightarrow> ('s, 'b) SafeBatchDB \<Rightarrow> ('s, 'b) SafeBatchDB res" where
  "sb_Close D w = map_ok (\<lambda>s. w\<lparr>sb_store := s\<rparr>) (tm_Close D (sb_store w))"

text \<open>What \<open>NewBatch\<close> returns: a nullified wrapper of the open batch or a batch of its own.\<close>

datatype sb_handle = SafeBatchNullified nat | RawBatch nat

definition NewSafeBatchNullify :: "nat \<Rightarrow> sb_handle" where
  "NewSafeBatchNullify p = SafeBatchNullified p"

definition sb_NewBatch ::
  "('s, 'b, 'z) tmdb_scheme \<Rightarrow> ('s, 'b) SafeBatchDB \<Rightarrow> sb_handle \<times> ('s, 'b) SafeBatchDB" where
  "sb_NewBatch D w =
     (case sb_batch w of
        Some p \<Rightarrow> (NewSafeBatchNullify p, w)
      | None \<Rightarrow> (RawBatch (length (sb_heap w)),
                 w\<lparr>sb_heap := sb_heap w @ [tm_NewBatch D (sb_store w)]\<rparr>))"

text \<open>The methods of the two kinds of batches.\<close>

definition nb_Set ::
  "('s, 'b, 'z) tmdb_scheme \<Rightarrow> ('s, 'b) SafeBatchDB \<Rightarrow> sb_handle \<Rightarrow> bytes \<Rightarrow> bytes \<Rightarrow> ('s, 'b) SafeBatchDB res" where
  "nb_Set D w h key value =
     (case h of SafeBatchNullified p \<Rightarrow> heap_Set D w p key value
              | RawBatch p \<Rightarrow> heap_Set D w p key value)"

definition nb_Delete ::
  "('s, 'b, 'z) tmdb_scheme \<Rightarrow> ('s, 'b) SafeBatchDB \<Rightarrow> sb_handle \<Rightarrow> bytes \<Rightarrow> ('s, 'b) SafeBatchDB res" where
  "nb_Delete D w h key =
     (case h of SafeBatchNullified p \<Rightarrow> heap_Delete D w p key
              | RawBatch p \<Rightarrow> heap_Delete D w p key)"

definition nb_Write ::
  "('s, 'b, 'z) tmdb_scheme \<Rightarrow> ('s, 'b) SafeBatchDB \<Rightarrow> sb_handle \<Rightarrow> ('s, 'b) SafeBatchDB res" where
  "nb_Write D w h =
     (case h of
        SafeBatchNullified p \<Rightarrow> Ok w
      | RawBatch p \<Rightarrow> map_ok (\<lambda>(s, b). w\<lparr>sb_store := s, sb_heap := (sb_heap w)[p := b]\<rparr>)
          (batch_Write D (sb_store w) (sb_heap w ! p)))"

definition nb_WriteSync ::
  "('s, 'b, 'z) tmdb_scheme \<Rightarrow> ('s, 'b) SafeBatchDB \<Rightarrow> sb_handle \<Rightarrow> ('s, 'b) SafeBatchDB res" where
  "nb_WriteSync D w h =
     (case h of
        SafeBatchNullified p \<Rightarrow> nb_Write D w h
      | RawBatch p \<Rightarrow> map_ok (\<lambda>(s, b). w\<lparr>sb_store := s, sb_heap := (sb_heap w)[p := b]\<rparr>)
          (batch_WriteSync D (sb_store w) (sb_heap w ! p)))"

definition nb_Close ::
  "('s, 'b, 'z) tmdb_scheme \<Rightarrow> ('s, 'b) SafeBatchDB \<Rightarrow> sb_handle \<Rightarrow> ('s, 'b) SafeBatchDB res" where
  "nb_Close D w h =
     (case h of
        SafeBatchNullified p \<Rightarrow> Ok w
      | RawBatch p \<Rightarrow> map_ok (\<lambda>b. w\<lparr>sb_heap := (sb_heap w)[p := b]\<rparr>) (batch_Close D (sb_heap w ! p)))"

section \<open>Clients of the database\<close>

text \<open>
  A client is a program over the methods of \<open>tmdb.DB\<close>: it makes a call, sees the reply, an
  error included, and goes on. It names batches by the order in which it created them.
\<close>

datatype db_call =
    CallGet bytes
  | CallHas bytes
  | CallSet bytes bytes
  | CallSetSync bytes bytes
  | CallDelete bytes
  | CallDeleteSync bytes
  | CallIterator "bytes option" "bytes option"
  | CallReverseIterator "bytes option" "bytes option"
  | CallNewBatch
  | CallBatchSet nat bytes bytes
  | CallBatchDelete nat bytes
  | CallBatchWrite nat
  | CallBatchWriteSync nat
  | CallBatchClose nat

datatype db_reply =
    RValue "bytes option"
  | RBool bool
  | REntries entries
  | RNone
  | RBatch nat
  | RError string

datatype 'a prog = Done 'a | Abort string | Call db_call "db_reply \<Rightarrow> 'a prog"

text \<open>The struct together with the batches its client has obtained.\<close>

type_synonym ('s, 'b) client = "('s, 'b) SafeBatchDB \<times> sb_handle list"

definition answer :: "'c \<Rightarrow> ('x \<Rightarrow> db_reply \<times> 'c) \<Rightarrow> 'x res \<Rightarrow> (db_reply \<times> 'c) res" where
  "answer c f r = (case r of Ok x \<Rightarrow> Ok (f x) | Err e \<Rightarrow> Ok (RError e, c) | Panic p \<Rightarrow> Panic p)"

definition on_batch ::
  "('s, 'b) client \<Rightarrow> nat \<Rightarrow> (sb_handle \<Rightarrow> ('s, 'b) SafeBatchDB res) \<Rightarrow> (db_reply \<times> ('s, 'b) client) res" where
  "on_batch c i f =
     (if i < length (snd c) then answer c (\<lambda>w. (RNone, w, snd c)) (f (snd c ! i)) else Panic nil_deref)"

fun sb_call ::
  "('s, 'b, 'z) tmdb_scheme \<Rightarrow> ('s, 'b) client \<Rightarrow> db_call \<Rightarrow> (db_reply \<times> ('s, 'b) client) res" where
  "sb_call D c (CallGet k) = answer c (\<lambda>v. (RValue v, c)) (sb_Get D (fst c) k)"
| "sb_call D c (CallHas k) = answer c (\<lambda>v. (RBool v, c)) (sb_Has D (fst c) k)"
| "sb_call D c (CallSet k v) = answer c (\<lambda>w. (RNone, w, snd c)) (sb_Set D (fst c) k v)"
| "sb_call D c (CallSetSync k v) = answer c (\<lambda>w. (RNone, w, snd c)) (sb_SetSync D (fst c) k v)"
| "sb_call D c (CallDelete k) = answer c (\<lambda>w. (RNone, w, snd c)) (sb_Delete D (fst c) k)"
| "sb_call D c (CallDeleteSync k) = answer c (\<lambda>w. (RNone, w, snd c)) (sb_DeleteSync D (fst c) k)"
| "sb_call D c (CallIterator st en) = answer c (\<lambda>es. (REntries es, c)) (sb_Iterator D (fst c) st en)"
| "sb_call D c (CallReverseIterator st en) =
     answer c (\<lambda>es. (REntries es, c)) (sb_ReverseIterator D (fst c) st en)"
| "sb_call D c CallNewBatch =
     (let (h, w) = sb_NewBatch D (fst c) in Ok (RBatch (length (snd c)), w, snd c @ [h]))"
| "sb_call D c (CallBatchSet i k v) = on_batch c i (\<lambda>h. nb_Set D (fst c) h k v)"
| "sb_call D c (CallBatchDelete i k) = on_batch c i (\<lambda>h. nb_Delete D (fst c) h k)"
| "sb_call D c (CallBatchWrite i) = on_batch c i (\<lambda>h. nb_Write D (fst c) h)"
| "sb_call D c (CallBatchWriteSync i) = on_batch c i (\<lambda>h. nb_WriteSync D (fst c) h)"
| "sb_call D c (CallBatchClose i) = on_batch c i (\<lambda>h. nb_Close D (fst c) h)"

text \<open>
  A run ends with the value of the client or with a panic; a panicking call leaves the state as
  it was before the call.
\<close>

datatype ('a, 'c) run = Returned 'a 'c | Crashed string 'c

primrec run_prog ::
  "('s, 'b, 'z) tmdb_scheme \<Rightarrow> 'a prog \<Rightarrow> ('s, 'b) client \<Rightarrow> ('a, ('s, 'b) client) run" where
  "run_prog D (Done x) c = Returned x c"
| "run_prog D (Abort p) c = Crashed p c"
| "run_prog D (Call q f) c =
     (case sb_call D c q of
        Ok rc \<Rightarrow> run_prog D (f (fst rc)) (snd rc)
      | Err e \<Rightarrow> Crashed e c
      | Panic p \<Rightarrow> Crashed p c)"

text \<open>Sequential composition of clients.\<close>

primrec bind_prog :: "'a prog \<Rightarrow> ('a \<Rightarrow> 'c prog) \<Rightarrow> 'c prog" where
  "bind_prog (Done x) g = g x"
| "bind_prog (Abort p) g = Abort p"
| "bind_prog (Call q f) g = Call q (\<lambda>r. bind_prog (f r) g)"

lemma run_bind_prog:
  "run_prog D (bind_prog m g) c =
     (case run_prog D m c of Returned x c' \<Rightarrow> run_prog D (g x) c' | Crashed p c' \<Rightarrow> Crashed p c')"
  by (induction m arbitrary: c) (auto split: res.split)

end
