(* ===== verification/Safe_Batch_Atomic.thy ===== *)
theory Safe_Batch_Atomic
  imports Safe_Batch
begin

text \<open>
  Atomicity of the safe batch database: between \<open>Open\<close> and \<open>Flush\<close> every client sees the
  state at \<open>Open\<close> and none of its writes reaches the store; \<open>Flush\<close> applies all of them, in the
  order they were made. \<open>spec_prog\<close> is the abstract specification: a program that reads from
  one fixed map and only appends to a list of operations.
\<close>

section \<open>Specification\<close>

fun spec_call :: "(bytes \<rightharpoonup> bytes) \<Rightarrow> nat \<Rightarrow> db_call \<Rightarrow> (db_reply \<times> batch_op list \<times> nat) res" where
  "spec_call m n (CallGet k) = Ok (RValue (m k), [], n)"
| "spec_call m n (CallHas k) = Ok (RBool (m k \<noteq> None), [], n)"
| "spec_call m n (CallSet k v) = Ok (RNone, [OpSet k v], n)"
| "spec_call m n (CallSetSync k v) = Ok (RNone, [OpSet k v], n)"
| "spec_call m n (CallDelete k) = Ok (RNone, [OpDelete k], n)"
| "spec_call m n (CallDeleteSync k) = Ok (RNone, [OpDelete k], n)"
| "spec_call m n (CallIterator st en) = Ok (REntries (range_entries m st en), [], n)"
| "spec_call m n (CallReverseIterator st en) = Ok (REntries (rev (range_entries m st en)), [], n)"
| "spec_call m n CallNewBatch = Ok (RBatch n, [], Suc n)"
| "spec_call m n (CallBatchSet i k v) = (if i < n then Ok (RNone, [OpSet k v], n) else Panic nil_deref)"
| "spec_call m n (CallBatchDelete i k) = (if i < n then Ok (RNone, [OpDelete k], n) else Panic nil_deref)"
| "spec_call m n (CallBatchWrite i) = (if i < n then Ok (RNone, [], n) else Panic nil_deref)"
| "spec_call m n (CallBatchWriteSync i) = (if i < n then Ok (RNone, [], n) else Panic nil_deref)"
| "spec_call m n (CallBatchClose i) = (if i < n then Ok (RNone, [], n) else Panic nil_deref)"

primrec spec_prog :: "(bytes \<rightharpoonup> bytes) \<Rightarrow> 'a prog \<Rightarrow> nat \<Rightarrow> ('a \<times> batch_op list \<times> nat) res" where
  "spec_prog m (Done x) n = Ok (x, [], n)"
| "spec_prog m (Abort p) n = Panic p"
| "spec_prog m (Call q f) n =
     bind_res (spec_call m n q) (\<lambda>r.
       map_ok (\<lambda>(x, qs, n'). (x, fst (snd r) @ qs, n')) (spec_prog m (f (fst r)) (snd (snd r))))"

lemma spec_bind_prog: "spec_prog m (bind_prog a f) n =
    bind_res (spec_prog m a n) (\<lambda>(x, qs, n').
      map_ok (\<lambda>(y, qs', n''). (y, qs @ qs', n'')) (spec_prog m (f x) n'))"
proof (induction a arbitrary: n)
  case (Done x)
  then show ?case by (cases "spec_prog m (f x) n") auto
next
  case (Abort p)
  then show ?case by simp
next
  case (Call q g)
  have "spec_prog m (bind_prog (Call q g) f) n =
      bind_res (spec_call m n q) (\<lambda>r. map_ok (\<lambda>(x, qs, n'). (x, fst (snd r) @ qs, n'))
        (bind_res (spec_prog m (g (fst r)) (snd (snd r))) (\<lambda>(x, qs, n').
          map_ok (\<lambda>(y, qs', n''). (y, qs @ qs', n'')) (spec_prog m (f x) n'))))"
    by (simp add: Call.IH)
  then show ?case
    by (auto simp: case_prod_beta' comp_def intro!: arg_cong2 [where f = bind_res])
qed

text \<open>A client that stays within a set of keys and gives no empty iterator bound;
  the flag tells whether it may iterate.\<close>

fun call_ok :: "bytes set \<Rightarrow> bool \<Rightarrow> db_call \<Rightarrow> bool" where
  "call_ok K it (CallGet k) \<longleftrightarrow> k \<in> K"
| "call_ok K it (CallHas k) \<longleftrightarrow> k \<in> K"
| "call_ok K it (CallSet k v) \<longleftrightarrow> k \<in> K"
| "call_ok K it (CallSetSync k v) \<longleftrightarrow> k \<in> K"
| "call_ok K it (CallDelete k) \<longleftrightarrow> k \<in> K"
| "call_ok K it (CallDeleteSync k) \<longleftrightarrow> k \<in> K"
| "call_ok K it (CallIterator st en) \<longleftrightarrow> it \<and> st \<noteq> Some [] \<and> en \<noteq> Some []"
| "call_ok K it (CallReverseIterator st en) \<longleftrightarrow> it \<and> st \<noteq> Some [] \<and> en \<noteq> Some []"
| "call_ok K it CallNewBatch \<longleftrightarrow> True"
| "call_ok K it (CallBatchSet i k v) \<longleftrightarrow> k \<in> K"
| "call_ok K it (CallBatchDelete i k) \<longleftrightarrow> k \<in> K"
| "call_ok K it (CallBatchWrite i) \<longleftrightarrow> True"
| "call_ok K it (CallBatchWriteSync i) \<longleftrightarrow> True"
| "call_ok K it (CallBatchClose i) \<longleftrightarrow> True"

primrec prog_ok :: "bytes set \<Rightarrow> bool \<Rightarrow> 'a prog \<Rightarrow> bool" where
  "prog_ok K it (Done x) \<longleftrightarrow> True"
| "prog_ok K it (Abort p) \<longleftrightarrow> True"
| "prog_ok K it (Call q f) \<longleftrightarrow> call_ok K it q \<and> (\<forall>r. prog_ok K it (f r))"

text \<open>What such a client writes stays within the set.\<close>

lemma spec_call_keys: "call_ok K it q \<Longrightarrow> spec_call m n q = Ok (r, qs, n') \<Longrightarrow> op_key ` set qs \<subseteq> K"
  by (cases q) (auto split: if_splits)

lemma spec_prog_keys:
  "prog_ok K it g \<Longrightarrow> spec_prog m g n = Ok (x, qs, n') \<Longrightarrow> op_key ` set qs \<subseteq> K"
proof (induction g arbitrary: n x qs n')
  case (Call q f)
  then obtain r qs1 n1 qs2 where "spec_call m n q = Ok (r, qs1, n1)" and "qs = qs1 @ qs2"
    and "spec_prog m (f r) n1 = Ok (x, qs2, n')"
    by (auto simp: bind_res_eq_Ok map_ok_eq_Ok)
  moreover have "op_key ` set qs2 \<subseteq> K"
    using Call.IH [of "f r"] Call.prems(1) calculation(3) by auto
  moreover have "op_key ` set qs1 \<subseteq> K"
    using Call.prems(1) by (intro spec_call_keys [OF _ calculation(1), of K it]) simp
  ultimately show ?case by (simp add: image_Un)
qed auto

lemma prog_ok_mono: "prog_ok K it g \<Longrightarrow> K \<subseteq> K' \<Longrightarrow> prog_ok K' it g"
proof (induction g)
  case (Call q f)
  then have "call_ok K' it q" by (cases q) auto
  with Call show ?case by auto
qed auto

lemma prog_ok_bind: "prog_ok K it a \<Longrightarrow> (\<And>x. prog_ok K it (f x)) \<Longrightarrow> prog_ok K it (bind_prog a f)"
  by (induction a) auto

section \<open>Refinement\<close>

text \<open>\<open>iters\<close> tells whether the database has iterators: not all databases of the program do.\<close>

locale kv_store =
  kv_point D contents inv keys + kv_batch D contents holds inv keys
  for D :: "('s, 'b, 'z) tmdb_scheme"
    and contents :: "'s \<Rightarrow> bytes \<rightharpoonup> bytes"
    and holds :: "'s \<Rightarrow> 'b \<Rightarrow> batch_op list \<Rightarrow> bool"
    and inv :: "'s \<Rightarrow> bool"
    and keys :: "bytes set"
    and iters :: bool +
  assumes iter_store: "iters \<Longrightarrow> inv s \<Longrightarrow> st \<noteq> Some [] \<Longrightarrow> en \<noteq> Some [] \<Longrightarrow>
      tm_Iterator D s st en = Ok (range_entries (contents s) st en)"
    and riter_store: "iters \<Longrightarrow> inv s \<Longrightarrow> st \<noteq> Some [] \<Longrightarrow> en \<noteq> Some [] \<Longrightarrow>
      tm_ReverseIterator D s st en = Ok (rev (range_entries (contents s) st en))"

text \<open>A client whose database is open and has collected the operations \<open>ps\<close>.\<close>

definition open_client ::
  "('s \<Rightarrow> 'b \<Rightarrow> batch_op list \<Rightarrow> bool) \<Rightarrow> 's \<Rightarrow> ('s, 'b) client \<Rightarrow> batch_op list \<Rightarrow> bool" where
  "open_client holds s c ps \<longleftrightarrow>
     (\<exists>p. sb_batch (fst c) = Some p \<and> p < length (sb_heap (fst c)) \<and> sb_store (fst c) = s \<and>
        holds s (sb_heap (fst c) ! p) ps \<and> set (snd c) \<subseteq> {SafeBatchNullified p})"

lemma handle_nullified: "set hs \<subseteq> {SafeBatchNullified p} \<Longrightarrow> i < length hs \<Longrightarrow> hs ! i = SafeBatchNullified p"
  by (auto dest: nth_mem)

definition heap_push ::
  "('s, 'b, 'z) tmdb_scheme \<Rightarrow> ('s, 'b) SafeBatchDB \<Rightarrow> nat \<Rightarrow> batch_op \<Rightarrow> ('s, 'b) SafeBatchDB res" where
  "heap_push D w p q = (case q of OpSet k v \<Rightarrow> heap_Set D w p k v | OpDelete k \<Rightarrow> heap_Delete D w p k)"

lemma heap_push_simps:
  "heap_Set D w p k v = heap_push D w p (OpSet k v)"
  "heap_Delete D w p k = heap_push D w p (OpDelete k)"
  by (simp_all add: heap_push_def)

lemma heap_push_eq: "heap_push D w p q =
    map_ok (\<lambda>b. w\<lparr>sb_heap := (sb_heap w)[p := b]\<rparr>) (batch_push D (sb_store w) (sb_heap w ! p) q)"
  by (cases q) (simp_all add: heap_push_def heap_Set_def heap_Delete_def batch_push_def)

context kv_store
begin

lemma open_push:
  assumes "inv s" and "open_client holds s c ps" and "op_key q \<in> keys" and "sb_batch (fst c) = Some p"
  shows "\<exists>w'. heap_push D (fst c) p q = Ok w' \<and> open_client holds s (w', snd c) (ps @ [q])"
proof -
  have c: "sb_store (fst c) = s" "holds s (sb_heap (fst c) ! p) ps" "p < length (sb_heap (fst c))"
    "set (snd c) \<subseteq> {SafeBatchNullified p}"
    using assms(2,4) by (auto simp: open_client_def)
  obtain b' where "batch_push D s (sb_heap (fst c) ! p) q = Ok b'" and "holds s b' (ps @ [q])"
    using batch_push [OF assms(1) c(2) assms(3)] by blast
  then show ?thesis
    using c assms(4) by (simp add: heap_push_eq open_client_def)
qed

lemma sb_call_refines:
  assumes "inv s" and "open_client holds s c ps" and "call_ok keys iters q"
  shows "(\<exists>r qs n c'. spec_call (contents s) (length (snd c)) q = Ok (r, qs, n) \<and> sb_call D c q = Ok (r, c') \<and>
      open_client holds s c' (ps @ qs) \<and> length (snd c') = n) \<or>
    (\<exists>e. spec_call (contents s) (length (snd c)) q = Panic e \<and> sb_call D c q = Panic e)"
proof -
  obtain w hs where [simp]: "c = (w, hs)" by (cases c)
  obtain p where p: "sb_batch (fst c) = Some p" and s: "sb_store (fst c) = s"
    and hs: "set (snd c) \<subseteq> {SafeBatchNullified p}"
    using assms(2) by (auto simp: open_client_def)
  note push = open_push [OF assms(1,2) _ p]
  have batch: "hs ! i = SafeBatchNullified p" if "i < length hs" for i
    using hs that by (intro handle_nullified) simp_all
  have opened: "open_client holds s (fst c, snd c) ps" "open_client holds s c ps"
    using assms(2) by simp_all
  have new: "open_client holds s (fst c, snd c @ [SafeBatchNullified p]) ps"
    using assms(2) p by (auto simp: open_client_def)
  show ?thesis
  proof (cases q)
    case (CallSet k v)
    then show ?thesis
      using push [of "OpSet k v"] assms(3) p by (auto simp: answer_def sb_Set_def heap_push_simps)
  next
    case (CallSetSync k v)
    then show ?thesis
      using push [of "OpSet k v"] assms(3) p
      by (auto simp: answer_def sb_Set_def sb_SetSync_def heap_push_simps)
  next
    case (CallDelete k)
    then show ?thesis
      using push [of "OpDelete k"] assms(3) p by (auto simp: answer_def sb_Delete_def heap_push_simps)
  next
    case (CallDeleteSync k)
    then show ?thesis
      using push [of "OpDelete k"] assms(3) p
      by (auto simp: answer_def sb_Delete_def sb_DeleteSync_def heap_push_simps)
  next
    case (CallBatchSet i k v)
    then show ?thesis
      using push [of "OpSet k v"] assms(3)
      by (auto simp: on_batch_def answer_def nb_Set_def heap_push_simps batch)
  next
    case (CallBatchDelete i k)
    then show ?thesis
      using push [of "OpDelete k"] assms(3)
      by (auto simp: on_batch_def answer_def nb_Delete_def heap_push_simps batch)
  next
    case CallNewBatch
    then show ?thesis
      using new p by (simp add: sb_NewBatch_def NewSafeBatchNullify_def)
  qed (use assms(1,3) s opened get_contents has_contents iter_store riter_store in
      \<open>auto simp: answer_def on_batch_def sb_Get_def sb_Has_def sb_Iterator_def sb_ReverseIterator_def
        nb_Write_def nb_WriteSync_def nb_Close_def batch\<close>)
qed

lemma run_prog_refines:
  assumes "inv s" and "open_client holds s c ps" and "prog_ok keys iters g"
  shows "(\<exists>x qs c'. spec_prog (contents s) g (length (snd c)) = Ok (x, qs, length (snd c')) \<and>
      run_prog D g c = Returned x c' \<and> open_client holds s c' (ps @ qs)) \<or>
    (\<exists>e qs c'. spec_prog (contents s) g (length (snd c)) = Panic e \<and> run_prog D g c = Crashed e c' \<and>
      open_client holds s c' (ps @ qs))"
  using assms(2,3)
proof (induction g arbitrary: c ps)
  case (Done x)
  then show ?case by (cases c) auto
next
  case (Abort p)
  then show ?case by (auto intro!: exI [of _ "[]"])
next
  case (Call q f)
  from sb_call_refines [OF assms(1) Call.prems(1), of q] Call.prems(2)
  consider (ok) r qs n c' where "spec_call (contents s) (length (snd c)) q = Ok (r, qs, n)"
      "sb_call D c q = Ok (r, c')" "open_client holds s c' (ps @ qs)" "length (snd c') = n"
    | (panic) e where "spec_call (contents s) (length (snd c)) q = Panic e" "sb_call D c q = Panic e"
    by auto
  then show ?case
  proof cases
    case ok
    then show ?thesis
      using Call.IH [of "f r" c' "ps @ qs"] Call.prems(2) by (auto intro: exI [of _ "qs @ x" for x])
  next
    case panic
    then show ?thesis
      using Call.prems(1) by (auto intro!: exI [of _ "[]"])
  qed
qed

lemma open_client_Open:
  assumes "inv (sb_store w)"
  shows "open_client holds (sb_store w) (sb_Open D w, []) []"
  using batch_new [OF assms] by (simp add: open_client_def sb_Open_def)

lemma Flush_applies:
  assumes "inv s" and "open_client holds s c ps"
  shows "\<exists>b b' w'. holds s b ps \<and> batch_WriteSync D s b = Ok (sb_store w', b') \<and>
    sb_Flush D rollback (fst c) = Ok (rollback b, None, w') \<and> inv (sb_store w') \<and>
    contents (sb_store w') = apply_ops ps (contents s) \<and> sb_batch w' = None"
proof -
  obtain p where c: "sb_batch (fst c) = Some p" "sb_store (fst c) = s" "holds s (sb_heap (fst c) ! p) ps"
    using assms(2) by (auto simp: open_client_def)
  obtain s' b' where w: "batch_WriteSync D s (sb_heap (fst c) ! p) = Ok (s', b')" "inv s'"
    "contents s' = apply_ops ps (contents s)"
    using batch_write [OF assms(1) c(3)] by blast
  obtain b'' where "batch_Close D b' = Ok b''"
    using batch_close by blast
  then have "sb_Flush D rollback (fst c) = Ok (rollback (sb_heap (fst c) ! p), None,
      (fst c)\<lparr>sb_store := s', sb_heap := (sb_heap (fst c))[p := b''], sb_batch := None\<rparr>)"
    using c w by (simp add: sb_Flush_def sb_release_def)
  with c w show ?thesis by fastforce
qed

end

text \<open>
  One round of the database: open, run a client, flush. The store is given at the end of the
  round, or at the panic that ended it.
\<close>

definition sb_round ::
  "('s, 'b, 'z) tmdb_scheme \<Rightarrow> ('b \<Rightarrow> 'r option) \<Rightarrow> 'a prog \<Rightarrow> ('s, 'b) SafeBatchDB \<Rightarrow>
   ('a \<times> 'r option \<times> string option, ('s, 'b) SafeBatchDB) run" where
  "sb_round D rollback g w =
     (case run_prog D g (sb_Open D w, []) of
        Crashed p c \<Rightarrow> Crashed p (fst c)
      | Returned x c \<Rightarrow>
          (case sb_Flush D rollback (fst c) of
             Ok (r, e, w') \<Rightarrow> Returned (x, r, e) w'
           | Err e \<Rightarrow> Crashed e (fst c)
           | Panic p \<Rightarrow> Crashed p (fst c)))"

context kv_store
begin

lemma run_open_cases:
  assumes "inv (sb_store w)" and "prog_ok keys iters g"
  obtains (ok) x qs c where "spec_prog (contents (sb_store w)) g 0 = Ok (x, qs, length (snd c))"
      "run_prog D g (sb_Open D w, []) = Returned x c" "open_client holds (sb_store w) c qs"
    | (panic) e qs c where "spec_prog (contents (sb_store w)) g 0 = Panic e"
      "run_prog D g (sb_Open D w, []) = Crashed e c" "open_client holds (sb_store w) c qs"
proof -
  have "length (snd (sb_Open D w, [] :: sb_handle list)) = 0" by simp
  from run_prog_refines [OF assms(1) open_client_Open [OF assms(1)] assms(2), unfolded this] that
  show ?thesis by auto
qed

lemma open_client_store: "open_client holds s c ps \<Longrightarrow> sb_store (fst c) = s"
  by (auto simp: open_client_def)

lemma sb_round_refines:
  assumes "inv (sb_store w)" and "prog_ok keys iters g"
  shows "case spec_prog (contents (sb_store w)) g 0 of
      Ok (x, qs, n) \<Rightarrow> \<exists>b b' w'. holds (sb_store w) b qs \<and> batch_WriteSync D (sb_store w) b = Ok (sb_store w', b') \<and>
        sb_round D rollback g w = Returned (x, rollback b, None) w' \<and> inv (sb_store w') \<and>
        contents (sb_store w') = apply_ops qs (contents (sb_store w)) \<and> sb_batch w' = None
    | Err e \<Rightarrow> False
    | Panic e \<Rightarrow> \<exists>w'. sb_round D rollback g w = Crashed e w' \<and> sb_store w' = sb_store w"
  using assms
proof (cases rule: run_open_cases)
  case (ok x qs c)
  from Flush_applies [OF assms(1) ok(3), of rollback] ok(1,2) show ?thesis
    by (fastforce simp: sb_round_def)
next
  case (panic e qs c)
  then show ?thesis
    using open_client_store [OF panic(3)] by (simp add: sb_round_def)
qed

end

section \<open>Reading outside a round\<close>

text \<open>A client that only reads, on contents \<open>m\<close> and within the keys \<open>K\<close>.\<close>

fun read_reply :: "bytes set \<Rightarrow> (bytes \<rightharpoonup> bytes) \<Rightarrow> db_call \<Rightarrow> db_reply option" where
  "read_reply K m (CallGet k) = (if k \<in> K then Some (RValue (m k)) else None)"
| "read_reply K m (CallHas k) = (if k \<in> K then Some (RBool (m k \<noteq> None)) else None)"
| "read_reply K m (CallIterator st en) =
     (if st \<noteq> Some [] \<and> en \<noteq> Some [] then Some (REntries (range_entries m st en)) else None)"
| "read_reply K m (CallReverseIterator st en) =
     (if st \<noteq> Some [] \<and> en \<noteq> Some [] then Some (REntries (rev (range_entries m st en))) else None)"
| "read_reply K m q = None"

primrec reads_only :: "bytes set \<Rightarrow> (bytes \<rightharpoonup> bytes) \<Rightarrow> 'a prog \<Rightarrow> bool" where
  "reads_only K m (Done x) \<longleftrightarrow> True"
| "reads_only K m (Abort p) \<longleftrightarrow> True"
| "reads_only K m (Call q f) \<longleftrightarrow> (case read_reply K m q of Some r \<Rightarrow> reads_only K m (f r) | None \<Rightarrow> False)"

lemma reads_only_bind:
  "reads_only K m g \<Longrightarrow> (\<And>x. reads_only K m (f x)) \<Longrightarrow> reads_only K m (bind_prog g f)"
  by (induction g) (auto split: option.splits)

lemma read_reply_spec: "read_reply K m q = Some r \<Longrightarrow> spec_call m n q = Ok (r, [], n)"
  by (cases q) (auto split: if_splits)

context kv_read
begin

lemma read_reply_call:
  "inv (sb_store (fst c)) \<Longrightarrow> read_reply keys (contents (sb_store (fst c))) q = Some r \<Longrightarrow> sb_call D c q = Ok (r, c)"
  by (cases q) (auto simp: answer_def sb_Get_def sb_Has_def sb_Iterator_def sb_ReverseIterator_def
      get_contents has_contents iter_contents riter_contents split: if_splits)

text \<open>Such a client sees the contents and changes nothing, whether a batch is open or not.\<close>

lemma run_reads:
  assumes "inv (sb_store (fst c))" and "reads_only keys (contents (sb_store (fst c))) g"
  shows "run_prog D g c = (case spec_prog (contents (sb_store (fst c))) g n of
    Ok (x, qs, n') \<Rightarrow> Returned x c | Err e \<Rightarrow> Crashed e c | Panic p \<Rightarrow> Crashed p c)"
  using assms
proof (induction g)
  case (Call q f)
  then obtain r where r: "read_reply keys (contents (sb_store (fst c))) q = Some r"
    and "reads_only keys (contents (sb_store (fst c))) (f r)" by (auto split: option.splits)
  with Call show ?case
    using read_reply_call [OF Call.prems(1) r] read_reply_spec [OF r, of n]
    by (auto split: res.splits)
qed auto

end

end
