(* ===== verification/Node_Store.thy ===== *)
theory Node_Store
  imports Hld_Contract Safe_Batch_Atomic
begin

text \<open>
  The database stack \<open>src/sync.go\<close> builds: a safe batch database over the height-limited
  database over the LevelDB driver. The contracts compose: the height-limited database is a
  \<open>kv_store\<close> for the safe batch database, so a block's writes are atomic on disk, visible at
  the block's height, and can be rolled back.
\<close>

sublocale height_store \<subseteq> node: kv_store "hld_db H" "hld_view view" "hld_holds holds" "writer_inv ok" keys True
proof
  fix w k
  assume inv: "writer_inv ok w"
  note r = writer_inv_reader [OF inv]
  show "finite (dom (hld_view view w))"
    by (rule reader.finite_contents [OF r])
  show "k \<in> keys" if "hld_view view w k \<noteq> None"
    using reader.contents_keys [OF r that] .
  show "tm_Get (hld_db H) w k = Ok (hld_view view w k)" if "k \<in> keys"
    using reader.get_contents [OF r that] .
  show "tm_Has (hld_db H) w k = Ok (hld_view view w k \<noteq> None)" if "k \<in> keys"
    using reader.has_contents [OF r that] .
next
  fix w and st en :: "bytes option"
  assume inv: "writer_inv ok w" and bounds: "st \<noteq> Some []" "en \<noteq> Some []"
  note r = writer_inv_reader [OF inv]
  show "tm_Iterator (hld_db H) w st en = Ok (range_entries (hld_view view w) st en)"
    and "tm_ReverseIterator (hld_db H) w st en = Ok (rev (range_entries (hld_view view w) st en))"
    using reader.iter_contents [OF r bounds] reader.riter_contents [OF r bounds] by simp_all
qed

text \<open>\<open>LevelBatch\<close> implements \<open>rollbackable.HasRollbackBatch\<close>.\<close>

definition level_rollback :: "'b level_batch \<Rightarrow> 'b option" where
  "level_rollback b = Some (lb_RollbackBatch b)"

definition node_db :: "('s, 'b) leveldb \<Rightarrow> driver \<Rightarrow> ('s hworld, 'b level_batch) tmdb" where
  "node_db S d = hld_db (driver_db S d)"

text \<open>The state the writer starts a block from, and the state it sees.\<close>

definition node_inv ::
  "('s \<Rightarrow> bytes \<rightharpoonup> bytes) \<Rightarrow> driver \<Rightarrow> bytes set \<Rightarrow> ('s hworld, 'b level_batch) SafeBatchDB \<Rightarrow> bool" where
  "node_inv contents d K w \<longleftrightarrow> writer_inv (driver_ok contents d K) (sb_store w)"

definition node_view ::
  "('s \<Rightarrow> bytes \<rightharpoonup> bytes) \<Rightarrow> driver \<Rightarrow> ('s hworld, 'b level_batch) SafeBatchDB \<Rightarrow> int64 \<Rightarrow> bytes \<rightharpoonup> bytes" where
  "node_view contents d w h = driver_view contents d (fst (sb_store w)) h"

context height_store
begin

lemmas round_refines = node.sb_round_refines

lemma round_view:
  assumes "writer_inv ok (s, hl)" and "hld_holds holds (s, hl) b qs"
    and "batch_WriteSync (hld_db H) (s, hl) b = Ok ((s', hl'), b')"
  shows "view s' h = (if h \<noteq> 0 \<and> unat h < unat (hl_writeHeight hl) then view s h else apply_ops qs (view s h))"
    and "ok s' (unat (hl_writeHeight hl)) \<and> hl' = hl"
proof -
  obtain t where "ok s t" and "t \<le> unat (hl_writeHeight hl)" and "valid_height (hl_writeHeight hl)"
    using assms(1) by (auto simp: writer_inv_def)
  from write_view [OF this] assms(2) obtain s1 b1 where
    "ob_WriteSync H s b = Ok (s1, b1)" and "ok s1 (unat (hl_writeHeight hl))"
    and "view s1 = (\<lambda>i. if i \<noteq> 0 \<and> unat i < unat (hl_writeHeight hl) then view s i
      else apply_ops qs (view s i))"
    unfolding hld_holds_def fst_conv snd_conv by blast
  with assms(3) show "view s' h = (if h \<noteq> 0 \<and> unat h < unat (hl_writeHeight hl) then view s h else apply_ops qs (view s h))"
    and "ok s' (unat (hl_writeHeight hl)) \<and> hl' = hl"
    by (auto simp: hld_db_def)
qed

end

context height_rollback
begin

lemma round_undo:
  assumes "writer_inv ok (sb_store w)" and "prog_ok keys True g"
    and "sb_round (hld_db H) (\<lambda>b. Some (undo b)) g w = Returned (x, r, e) w'"
    and "ok (fst (sb_store w)) t"
  shows "\<exists>u s'' u'. r = Some u \<and> undo_write (fst (sb_store w')) u = Ok (s'', u') \<and> ok s'' t \<and>
    view s'' = view (fst (sb_store w))"
proof -
  obtain qs n where spec: "spec_prog (hld_view view (sb_store w)) g 0 = Ok (x, qs, n)"
    using node.sb_round_refines [OF assms(1,2), of "\<lambda>b. Some (undo b)"] assms(3)
    by (auto split: res.splits)
  then obtain b b' where b: "hld_holds holds (sb_store w) b qs"
    and wr: "batch_WriteSync (hld_db H) (sb_store w) b = Ok (sb_store w', b')"
    and "r = Some (undo b)"
    using node.sb_round_refines [OF assms(1,2), of "\<lambda>b. Some (undo b)"] assms(3) by auto
  moreover have "ob_WriteSync H (fst (sb_store w)) b = Ok (fst (sb_store w'), b')"
    using wr by (auto simp: hld_db_def map_ok_eq_Ok)
  ultimately show ?thesis
    using undo_restores [OF assms(4)] by (auto simp: hld_holds_def)
qed

end

section \<open>Properties\<close>

lemma height_store_driver:
  "level_session S contents pending \<Longrightarrow> key_universe (drv_mode d) K \<Longrightarrow>
    height_store (driver_db S d) (driver_view contents d) (driver_ok contents d K)
      (driver_holds contents pending d K) K"
  using driver_height_rollback height_rollback.axioms(1) by blast

context height_store
begin

lemmas reader_contract = reader.kv_read_axioms reader.kv_point_axioms

end

lemma node_reader:
  assumes "level_session S contents pending" and "key_universe (drv_mode d) K"
  shows "kv_read (node_db S d) (hld_view (driver_view contents d)) (reader_inv (driver_ok contents d K)) K"
  unfolding node_db_def
  using height_store.reader_contract [OF height_store_driver [OF assms]] by (simp add: kv_read_def)

lemma node_contents:
  "node_inv contents d K w \<Longrightarrow> hld_view (driver_view contents d) (sb_store w) = node_view contents d w 0"
  by (simp add: node_inv_def writer_inv_def hld_view_def node_view_def)

lemma node_round_cases:
  assumes "level_session S contents pending" and "key_universe (drv_mode d) K"
    and "node_inv contents d K w" and "prog_ok K True g"
  shows "case spec_prog (node_view contents d w 0) g 0 of
      Ok (x, qs, n) \<Rightarrow> \<exists>r w'. sb_round (node_db S d) level_rollback g w = Returned (x, r, None) w' \<and>
        node_inv contents d K w' \<and> node_view contents d w' 0 = apply_ops qs (node_view contents d w 0)
    | Err e \<Rightarrow> False
    | Panic e \<Rightarrow> \<exists>w'. sb_round (node_db S d) level_rollback g w = Crashed e w' \<and> sb_store w' = sb_store w"
proof -
  have inv: "writer_inv (driver_ok contents d K) (sb_store w)"
    using assms(3) by (simp add: node_inv_def)
  from height_store.round_refines [OF height_store_driver [OF assms(1,2)] inv assms(4), of level_rollback]
  show ?thesis
    using assms(3) node_contents
    by (force simp: node_db_def node_inv_def node_contents [OF assms(3)] split: res.splits)
qed

lemma node_round_Ok:
  assumes "level_session S contents pending" and "key_universe (drv_mode d) K"
    and "node_inv contents d K w" and "prog_ok K True g"
    and "spec_prog (node_view contents d w 0) g 0 = Ok (x, qs, n)"
  shows "\<exists>r w'. sb_round (node_db S d) level_rollback g w = Returned (x, r, None) w' \<and>
    node_inv contents d K w' \<and> node_view contents d w' 0 = apply_ops qs (node_view contents d w 0)"
  using node_round_cases [OF assms(1-4)] assms(5) by simp

lemma node_round_view:
  assumes "level_session S contents pending" and "key_universe (drv_mode d) K"
    and "node_inv contents d K w" and "prog_ok K True g"
    and "sb_round (node_db S d) level_rollback g w = Returned (x, r, e) w'"
    and "spec_prog (node_view contents d w 0) g 0 = Ok (x', qs, n)"
  shows "node_view contents d w' h =
    (if h \<noteq> 0 \<and> unat h < unat (hl_writeHeight (snd (sb_store w))) then node_view contents d w h
     else apply_ops qs (node_view contents d w h))"
proof -
  note hs = height_store_driver [OF assms(1,2)]
  have inv: "writer_inv (driver_ok contents d K) (sb_store w)"
    using assms(3) by (simp add: node_inv_def)
  obtain b b' where "hld_holds (driver_holds contents pending d K) (sb_store w) b qs"
    and "batch_WriteSync (hld_db (driver_db S d)) (sb_store w) b = Ok (sb_store w', b')"
    using height_store.round_refines [OF hs inv assms(4), of level_rollback] assms(5,6)
    by (auto simp: node_contents [OF assms(3)] node_db_def)
  with inv show ?thesis
    using height_store.round_view(1) [OF hs, of "fst (sb_store w)" "snd (sb_store w)" b qs "fst (sb_store w')"
      "snd (sb_store w')" b' h]
    by (simp add: node_view_def)
qed

text \<open>
  C3. Block atomicity: a client program runs against the state at \<open>Open\<close> whatever it writes
  meanwhile; if it returns, the flush succeeds and the current state is changed by exactly its
  writes in order; if it panics, the store is untouched.
\<close>

theorem node_round_atomic:
  assumes "level_session S contents pending" and "key_universe (drv_mode d) K"
    and "node_inv contents d K w" and "prog_ok K True g"
  shows "case spec_prog (node_view contents d w 0) g 0 of
      Ok (x, qs, n) \<Rightarrow> \<exists>r w'. sb_round (node_db S d) level_rollback g w = Returned (x, r, None) w' \<and>
        node_inv contents d K w' \<and> node_view contents d w' 0 = apply_ops qs (node_view contents d w 0)
    | Err e \<Rightarrow> False
    | Panic e \<Rightarrow> \<exists>w'. sb_round (node_db S d) level_rollback g w = Crashed e w' \<and> sb_store w' = sb_store w"
  using node_round_cases [OF assms] .

text \<open>Sample client: it reads a key, writes it through a batch of its own, and reads it again.\<close>

definition sample_client :: "(db_reply \<times> db_reply) prog" where
  "sample_client =
     Call (CallGet [97]) (\<lambda>r. Call CallNewBatch (\<lambda>_. Call (CallBatchSet 0 [97] [7]) (\<lambda>_.
       Call (CallBatchWrite 0) (\<lambda>_. Call (CallGet [97]) (\<lambda>r'. Done (r, r'))))))"

definition sample_node :: "(mem_store hworld, mem_batch level_batch) SafeBatchDB" where
  "sample_node = NewSafeBatchDB ([], sample_writer)"

lemma sample_client_ok: "prog_ok sample_keys True sample_client"
  by (simp add: sample_client_def sample_keys_def)

lemma sample_node_inv: "node_inv mem_contents sample_driver sample_keys sample_node"
  using sample_writer_inv by (simp add: node_inv_def sample_node_def NewSafeBatchDB_def)

lemma sample_client_spec: "spec_prog m sample_client 0 = Ok ((RValue (m [97]), RValue (m [97])), [OpSet [97] [7]], 1)"
  by (simp add: sample_client_def)

lemma sample_node_view: "node_view mem_contents sample_driver sample_node h = Map.empty"
proof -
  have "hist_of mode (mem_contents []) k i = None" for mode k i
    by (simp add: hist_of_def mem_contents_def)
  then show ?thesis
    by (auto simp: node_view_def sample_node_def NewSafeBatchDB_def driver_view_def current_of_def
        prefix_map_def mem_contents_def snapshot_def lookup_at_untouched)
qed

lemma sample_round: "\<exists>r w'. sb_round (node_db mem_db sample_driver) level_rollback sample_client sample_node =
    Returned ((RValue None, RValue None), r, None) w'"
  using mem_driver.round_refines [OF sample_node_inv [unfolded node_inv_def] sample_client_ok, of level_rollback]
  by (force simp: sample_client_spec node_db_def node_contents [OF sample_node_inv] sample_node_view)

theorem node_round_atomic_witness:
  "\<exists>r w'. sb_round (node_db mem_db sample_driver) level_rollback sample_client sample_node =
      Returned ((RValue (node_view mem_contents sample_driver sample_node 0 [97]),
        RValue (node_view mem_contents sample_driver sample_node 0 [97])), r, None) w' \<and>
    node_view mem_contents sample_driver w' 0 [97] = Some [7]"
  using node_round_atomic [OF mem.level_session_axioms sample_keys_universe sample_node_inv sample_client_ok]
  by (auto simp: sample_client_spec apply_op_def)

text \<open>
  C23. A round that returns at write height \<open>h\<close> changes exactly the states at heights from \<open>h\<close>
  on: below, the history is as before.
\<close>

theorem node_round_history:
  assumes "level_session S contents pending" and "key_universe (drv_mode d) K"
    and "node_inv contents d K w" and "prog_ok K True g"
    and "sb_round (node_db S d) level_rollback g w = Returned (x, r, e) w'"
    and "spec_prog (node_view contents d w 0) g 0 = Ok (x', qs, n)"
  shows "node_view contents d w' h =
    (if h \<noteq> 0 \<and> unat h < unat (hl_writeHeight (snd (sb_store w))) then node_view contents d w h
     else apply_ops qs (node_view contents d w h))"
  using node_round_view [OF assms] .

theorem node_round_history_witness:
  "\<exists>r w'. sb_round (node_db mem_db sample_driver) level_rollback sample_client sample_node =
      Returned ((RValue None, RValue None), r, None) w' \<and>
    node_view mem_contents sample_driver w' 4 = Map.empty \<and>
    node_view mem_contents sample_driver w' 5 [97] = Some [7]"
proof -
  obtain r w' where r: "sb_round (node_db mem_db sample_driver) level_rollback sample_client sample_node =
      Returned ((RValue None, RValue None), r, None) w'"
    using sample_round by blast
  have "hl_writeHeight (snd (sb_store sample_node)) = 5"
    by (simp add: sample_node_def NewSafeBatchDB_def sample_writer_def SetWriteHeight_def)
  then have "node_view mem_contents sample_driver w' 4 = Map.empty"
    and "node_view mem_contents sample_driver w' 5 [97] = Some [7]"
    using node_round_history [OF mem.level_session_axioms sample_keys_universe sample_node_inv
        sample_client_ok r sample_client_spec]
    by (simp_all add: sample_node_view apply_op_def)
  with r show ?thesis by blast
qed

text \<open>
  C7. The batch that \<open>Flush\<close> returns undoes the round: written to the session, it gives every
  height, and the current state, the contents they had before the round.
\<close>

theorem node_round_rollback:
  assumes "level_session S contents pending" and "key_universe (drv_mode d) K"
    and "node_inv contents d K w" and "prog_ok K True g"
    and "sb_round (node_db S d) level_rollback g w = Returned (x, r, e) w'"
  shows "\<exists>u s'' u'. r = Some u \<and> batch_WriteSync S (fst (sb_store w')) u = Ok (s'', u') \<and>
    driver_view contents d s'' = node_view contents d w"
proof -
  have inv: "writer_inv (driver_ok contents d K) (sb_store w)"
    using assms(3) by (simp add: node_inv_def)
  then obtain t where "driver_ok contents d K (fst (sb_store w)) t"
    by (auto simp: writer_inv_def)
  from height_rollback.round_undo [OF driver_height_rollback [OF assms(1,2)] inv assms(4) _ this, of x r e w'] assms(5)
  show ?thesis
    by (auto simp: node_db_def level_rollback_def [abs_def] node_view_def [abs_def])
qed

theorem node_round_rollback_witness:
  "\<exists>x u w' s'' u'. sb_round (node_db mem_db sample_driver) level_rollback sample_client sample_node =
      Returned (x, Some u, None) w' \<and> batch_WriteSync mem_db (fst (sb_store w')) u = Ok (s'', u') \<and>
    driver_view mem_contents sample_driver s'' = node_view mem_contents sample_driver sample_node"
  using sample_round node_round_rollback [OF mem.level_session_axioms sample_keys_universe sample_node_inv
      sample_client_ok] by metis

end
