(* ===== verification/Snappy_DB.thy ===== *)
theory Snappy_DB
  imports Safe_Batch_Atomic
begin

text \<open>
  \<open>src/db/snappy\<close>: the compressing overlay of the indexer database. The codec
  (\<open>github.com/golang/snappy\<close>) and \<open>json.Valid\<close> are parameters; the locale \<open>snappy_session\<close>
  states the one fact the code relies on, that decoding inverts encoding.
\<close>

section \<open>Definitions\<close>

definition CompatModeEnabled :: int where
  "CompatModeEnabled = 0"

definition CompatModeDisabled :: int where
  "CompatModeDisabled = 1"

definition errIteratorNotSupported :: string where
  "errIteratorNotSupported = ''iterator unsupported''"

definition errUnknownData :: string where
  "errUnknownData = ''unknown format''"

record codec =
  cd_Encode :: "bytes \<Rightarrow> bytes"
  cd_Decode :: "bytes \<Rightarrow> bytes res"
  cd_json_Valid :: "bytes \<Rightarrow> bool"

record SnappyDB =
  sy_compatMode :: int

definition NewSnappyDB :: "int \<Rightarrow> SnappyDB" where
  "NewSnappyDB compatMode = \<lparr>sy_compatMode = compatMode\<rparr>"

text \<open>
  A read may write: an item that is not compressed but is valid JSON is set again, as it is.
  The error of that write is dropped.
\<close>

definition snappy_Get ::
  "codec \<Rightarrow> ('s, 'b, 'z) tmdb_scheme \<Rightarrow> SnappyDB \<Rightarrow> 's \<Rightarrow> bytes \<Rightarrow> (bytes option \<times> 's) res" where
  "snappy_Get C D y s key =
     bind_res (tm_Get D s key) (\<lambda>r.
       case r of
         None \<Rightarrow> Ok (None, s)
       | Some item \<Rightarrow>
           (case cd_Decode C item of
              Panic p \<Rightarrow> Panic p
            | Ok decoded \<Rightarrow> Ok (Some decoded, s)
            | Err decodeErr \<Rightarrow>
                if sy_compatMode y = CompatModeEnabled then
                  if cd_json_Valid C item then
                    (case tm_Set D s key item of
                       Ok s' \<Rightarrow> Ok (Some item, s')
                     | Err e \<Rightarrow> Ok (Some item, s)
                     | Panic p \<Rightarrow> Panic p)
                  else Err errUnknownData
                else Err decodeErr))"

definition snappy_Has :: "('s, 'b, 'z) tmdb_scheme \<Rightarrow> 's \<Rightarrow> bytes \<Rightarrow> bool res" where
  "snappy_Has D s key = tm_Has D s key"

definition snappy_Set :: "codec \<Rightarrow> ('s, 'b, 'z) tmdb_scheme \<Rightarrow> 's \<Rightarrow> bytes \<Rightarrow> bytes \<Rightarrow> 's res" where
  "snappy_Set C D s key value = tm_Set D s key (cd_Encode C value)"

definition snappy_SetSync :: "codec \<Rightarrow> ('s, 'b, 'z) tmdb_scheme \<Rightarrow> 's \<Rightarrow> bytes \<Rightarrow> bytes \<Rightarrow> 's res" where
  "snappy_SetSync C D s key value = snappy_Set C D s key value"

definition snappy_Delete :: "('s, 'b, 'z) tmdb_scheme \<Rightarrow> 's \<Rightarrow> bytes \<Rightarrow> 's res" where
  "snappy_Delete D s key = tm_Delete D s key"

definition snappy_DeleteSync :: "('s, 'b, 'z) tmdb_scheme \<Rightarrow> 's \<Rightarrow> bytes \<Rightarrow> 's res" where
  "snappy_DeleteSync D s key = snappy_Delete D s key"

definition snappy_Iterator :: "'s \<Rightarrow> bytes option \<Rightarrow> bytes option \<Rightarrow> entries res" where
  "snappy_Iterator s start end = Err errIteratorNotSupported"

definition snappy_ReverseIterator :: "'s \<Rightarrow> bytes option \<Rightarrow> bytes option \<Rightarrow> entries res" where
  "snappy_ReverseIterator s start end = Err errIteratorNotSupported"

definition snappy_Close :: "('s, 'b, 'z) tmdb_scheme \<Rightarrow> 's \<Rightarrow> 's res" where
  "snappy_Close D s = tm_Close D s"

record 'b SnappyBatch =
  sy_batch :: 'b

definition NewSnappyBatch :: "'b \<Rightarrow> 'b SnappyBatch" where
  "NewSnappyBatch batch = \<lparr>sy_batch = batch\<rparr>"

definition snappy_NewBatch :: "('s, 'b, 'z) tmdb_scheme \<Rightarrow> 's \<Rightarrow> 'b SnappyBatch" where
  "snappy_NewBatch D s = NewSnappyBatch (tm_NewBatch D s)"

definition syb_Set ::
  "codec \<Rightarrow> ('s, 'b, 'z) tmdb_scheme \<Rightarrow> 's \<Rightarrow> 'b SnappyBatch \<Rightarrow> bytes \<Rightarrow> bytes \<Rightarrow> 'b SnappyBatch res" where
  "syb_Set C D s b key value = map_ok NewSnappyBatch (batch_Set D s (sy_batch b) key (cd_Encode C value))"

definition syb_Delete ::
  "('s, 'b, 'z) tmdb_scheme \<Rightarrow> 's \<Rightarrow> 'b SnappyBatch \<Rightarrow> bytes \<Rightarrow> 'b SnappyBatch res" where
  "syb_Delete D s b key = map_ok NewSnappyBatch (batch_Delete D s (sy_batch b) key)"

definition syb_Write ::
  "('s, 'b, 'z) tmdb_scheme \<Rightarrow> 's \<Rightarrow> 'b SnappyBatch \<Rightarrow> ('s \<times> 'b SnappyBatch) res" where
  "syb_Write D s b = map_ok (\<lambda>(s, x). (s, NewSnappyBatch x)) (batch_Write D s (sy_batch b))"

definition syb_WriteSync ::
  "('s, 'b, 'z) tmdb_scheme \<Rightarrow> 's \<Rightarrow> 'b SnappyBatch \<Rightarrow> ('s \<times> 'b SnappyBatch) res" where
  "syb_WriteSync D s b = map_ok (\<lambda>(s, x). (s, NewSnappyBatch x)) (batch_WriteSync D s (sy_batch b))"

definition syb_Close :: "('s, 'b, 'z) tmdb_scheme \<Rightarrow> 'b SnappyBatch \<Rightarrow> 'b SnappyBatch res" where
  "syb_Close D b = map_ok NewSnappyBatch (batch_Close D (sy_batch b))"

text \<open>
  The \<open>tmdb.DB\<close> it implements. A read through the interface leaves out the rewriting of an
  uncompressed item, which does not change the contents of the store (\<open>snappy_Get_keeps\<close>).
\<close>

definition snappy_db ::
  "codec \<Rightarrow> ('s, 'b, 'z) tmdb_scheme \<Rightarrow> SnappyDB \<Rightarrow> ('s, 'b SnappyBatch) tmdb" where
  "snappy_db C D y =
     \<lparr>tm_Get = (\<lambda>s k. map_ok fst (snappy_Get C D y s k)), tm_Has = snappy_Has D,
      tm_Set = snappy_Set C D, tm_SetSync = snappy_SetSync C D,
      tm_Delete = snappy_Delete D, tm_DeleteSync = snappy_DeleteSync D,
      tm_Iterator = snappy_Iterator, tm_ReverseIterator = snappy_ReverseIterator,
      tm_Close = snappy_Close D, tm_NewBatch = snappy_NewBatch D,
      batch_Set = syb_Set C D, batch_Delete = syb_Delete D, batch_Write = syb_Write D,
      batch_WriteSync = syb_WriteSync D, batch_Close = syb_Close D\<rparr>"

section \<open>Contents seen through the codec\<close>

text \<open>What a stored item stands for: its decoding, or itself when it is plain JSON.\<close>

definition unpack :: "codec \<Rightarrow> bytes \<Rightarrow> bytes" where
  "unpack C x = (case cd_Decode C x of Ok v \<Rightarrow> v | _ \<Rightarrow> x)"

definition readable :: "codec \<Rightarrow> SnappyDB \<Rightarrow> bytes \<Rightarrow> bool" where
  "readable C y x \<longleftrightarrow> (case cd_Decode C x of Ok v \<Rightarrow> True
     | Err e \<Rightarrow> sy_compatMode y = CompatModeEnabled \<and> cd_json_Valid C x | Panic p \<Rightarrow> False)"

definition unpacked :: "codec \<Rightarrow> (bytes \<rightharpoonup> bytes) \<Rightarrow> (bytes \<rightharpoonup> bytes)" where
  "unpacked C m = (\<lambda>k. map_option (unpack C) (m k))"

definition all_readable :: "codec \<Rightarrow> SnappyDB \<Rightarrow> (bytes \<rightharpoonup> bytes) \<Rightarrow> bool" where
  "all_readable C y m \<longleftrightarrow> (\<forall>x \<in> ran m. readable C y x)"

primrec pack_op :: "codec \<Rightarrow> batch_op \<Rightarrow> batch_op" where
  "pack_op C (OpSet k v) = OpSet k (cd_Encode C v)"
| "pack_op C (OpDelete k) = OpDelete k"

lemma op_key_pack_op [simp]: "op_key (pack_op C p) = op_key p"
  by (cases p) simp_all

locale snappy_session = level_session S contents pending
  for S :: "('s, 'b) leveldb"
    and contents :: "'s \<Rightarrow> bytes \<rightharpoonup> bytes"
    and pending :: "'b \<Rightarrow> batch_op list option" +
  fixes C :: codec and y :: SnappyDB
  assumes decode_encode: "cd_Decode C (cd_Encode C v) = Ok v"
begin

lemma unpack_encode [simp]: "unpack C (cd_Encode C v) = v"
  by (simp add: unpack_def decode_encode)

lemma readable_encode [simp]: "readable C y (cd_Encode C v)"
  by (simp add: readable_def decode_encode)

lemma unpacked_pack: "unpacked C (apply_ops (map (pack_op C) ps) m) = apply_ops ps (unpacked C m)"
proof (induction ps arbitrary: m)
  case Nil
  then show ?case by simp
next
  case (Cons p ps)
  have "unpacked C (apply_op (pack_op C p) m) = apply_op p (unpacked C m)"
    by (cases p) (auto simp: unpacked_def apply_op_def)
  with Cons show ?case by simp
qed

lemma all_readable_pack: "all_readable C y m \<Longrightarrow> all_readable C y (apply_ops (map (pack_op C) ps) m)"
proof (induction ps arbitrary: m)
  case Nil
  then show ?case by simp
next
  case (Cons p ps)
  have "all_readable C y (apply_op (pack_op C p) m)"
    using Cons.prems by (cases p) (auto simp: all_readable_def apply_op_def ran_def split: if_splits)
  with Cons.IH show ?case by simp
qed

lemma snappy_Get_read:
  assumes "all_readable C y (contents s)" and "k \<noteq> []"
  shows "\<exists>s'. snappy_Get C S y s k = Ok (unpacked C (contents s) k, s') \<and> contents s' = contents s"
proof (cases "contents s k")
  case None
  then show ?thesis
    using assms(2) by (simp add: snappy_Get_def get_contents unpacked_def)
next
  case (Some x)
  then have "readable C y x"
    using assms(1) by (auto simp: all_readable_def ran_def)
  moreover obtain s' where "tm_Set S s k x = Ok s'" and "contents s' = (contents s)(k \<mapsto> x)"
    using set_contents [of k s x] assms(2) by auto
  moreover have "(contents s)(k \<mapsto> x) = contents s"
    using Some by auto
  ultimately show ?thesis
    using Some assms(2)
    by (auto simp: snappy_Get_def get_contents unpacked_def unpack_def readable_def split: res.splits)
qed

lemma set_get:
  assumes "k \<noteq> []" and "snappy_Set C S s k v = Ok s'"
  shows "snappy_Get C S y' s' k = Ok (Some v, s')"
proof -
  have "contents s' = (contents s)(k \<mapsto> cd_Encode C v)"
    using assms set_contents [of k s "cd_Encode C v"] by (auto simp: snappy_Set_def)
  then show ?thesis
    using assms(1) by (simp add: snappy_Get_def get_contents decode_encode)
qed

lemma get_legacy:
  assumes "k \<noteq> []" and "sy_compatMode y' = CompatModeEnabled"
    and "contents s k = Some item" and "cd_Decode C item = Err e" and "cd_json_Valid C item"
  shows "\<exists>s'. tm_Set S s k item = Ok s' \<and> snappy_Get C S y' s k = Ok (Some item, s') \<and> contents s' = contents s"
proof -
  obtain s' where "tm_Set S s k item = Ok s'" and "contents s' = (contents s)(k \<mapsto> item)"
    using set_contents [of k s item] assms(1) by auto
  moreover have "(contents s)(k \<mapsto> item) = contents s"
    using assms(3) by auto
  ultimately show ?thesis
    using assms by (simp add: snappy_Get_def get_contents)
qed

end

sublocale snappy_session \<subseteq> compressed: kv_store "snappy_db C S y" "\<lambda>s. unpacked C (contents s)"
  "\<lambda>s b ps. pending (sy_batch b) = Some (map (pack_op C) ps)" "\<lambda>s. all_readable C y (contents s)" "- {[]}" False
proof
  fix s k
  assume inv: "all_readable C y (contents s)"
  have "dom (unpacked C (contents s)) = dom (contents s)"
    by (auto simp: unpacked_def)
  then show "finite (dom (unpacked C (contents s)))"
    by (simp add: finite_contents)
  show "k \<in> - {[]}" if "unpacked C (contents s) k \<noteq> None"
    using that contents_keys [of s k] by (auto simp: unpacked_def)
  show "tm_Get (snappy_db C S y) s k = Ok (unpacked C (contents s) k)" if "k \<in> - {[]}"
    using snappy_Get_read [OF inv, of k] that by (auto simp: snappy_db_def)
  show "tm_Has (snappy_db C S y) s k = Ok (unpacked C (contents s) k \<noteq> None)" if "k \<in> - {[]}"
    using that by (simp add: snappy_db_def snappy_Has_def has_contents unpacked_def)
next
  show "pending (sy_batch (tm_NewBatch (snappy_db C S y) s)) = Some (map (pack_op C) [])" for s
    by (simp add: snappy_db_def snappy_NewBatch_def NewSnappyBatch_def batch_new)
next
  fix s and b :: "'b SnappyBatch" and ps p
  assume b: "pending (sy_batch b) = Some (map (pack_op C) ps)"
  show "\<exists>b'. batch_push (snappy_db C S y) s b p = Ok b' \<and> pending (sy_batch b') = Some (map (pack_op C) (ps @ [p]))"
    if "op_key p \<in> - {[]}"
  proof -
    have "batch_push (snappy_db C S y) s b p = map_ok NewSnappyBatch (batch_push S s (sy_batch b) (pack_op C p))"
      by (cases p) (simp_all add: batch_push_def snappy_db_def syb_Set_def syb_Delete_def)
    then show ?thesis
      using batch_push [OF _ b, of "pack_op C p" s] that by (auto simp: NewSnappyBatch_def)
  qed
  show "\<exists>s' b'. batch_WriteSync (snappy_db C S y) s b = Ok (s', b') \<and> all_readable C y (contents s') \<and>
      unpacked C (contents s') = apply_ops ps (unpacked C (contents s))"
    if "all_readable C y (contents s)"
    using batch_write [OF _ b, of s] all_readable_pack [OF that, of ps]
    by (auto simp: snappy_db_def syb_WriteSync_def unpacked_pack)
next
  show "\<exists>b'. batch_Close (snappy_db C S y) b = Ok b'" for b
    using batch_close [of "sy_batch b"] by (auto simp: snappy_db_def syb_Close_def)
qed simp_all

section \<open>Properties\<close>

text \<open>A codec for the witnesses: a marker byte before the data; JSON starts with a brace.\<close>

definition sample_codec :: codec where
  "sample_codec = \<lparr>cd_Encode = (\<lambda>v. 0 # v),
     cd_Decode = (\<lambda>x. case x of [] \<Rightarrow> Err ''corrupt'' | b # v \<Rightarrow> if b = 0 then Ok v else Err ''corrupt''),
     cd_json_Valid = (\<lambda>x. x \<noteq> [] \<and> hd x = 123)\<rparr>"

interpretation mem_snappy: snappy_session mem_db mem_contents mem_pending sample_codec "NewSnappyDB CompatModeEnabled"
  by unfold_locales (simp add: sample_codec_def)

text \<open>
  C29. A value set through the overlay is read back unchanged, whatever the store holds for the
  other keys.
\<close>

theorem snappy_Set_Get:
  assumes "snappy_session S contents pending C" and "k \<noteq> []" and "snappy_Set C S s k v = Ok s'"
  shows "snappy_Get C S y s' k = Ok (Some v, s')"
  using assms by (rule snappy_session.set_get)

theorem snappy_Set_Get_witness:
  "\<exists>s'. snappy_Set sample_codec mem_db [] [97] [1, 2] = Ok s' \<and>
    snappy_Get sample_codec mem_db (NewSnappyDB CompatModeEnabled) s' [97] = Ok (Some [1, 2], s')"
proof -
  obtain s' where "snappy_Set sample_codec mem_db [] [97] [1, 2] = Ok s'"
    by (simp add: snappy_Set_def mem_db_def mem_set_def)
  with snappy_Set_Get [OF mem_snappy.snappy_session_axioms _ this] show ?thesis by auto
qed

text \<open>
  In compatibility mode an item stored uncompressed as valid JSON is returned as it is, and
  the read leaves the contents of the store as they are: the item is written back in the same
  uncompressed form, not encoded.
\<close>

theorem snappy_Get_legacy:
  assumes "snappy_session S contents pending C" and "k \<noteq> []" and "sy_compatMode y = CompatModeEnabled"
    and "contents s k = Some item" and "cd_Decode C item = Err e" and "cd_json_Valid C item"
  shows "\<exists>s'. tm_Set S s k item = Ok s' \<and> snappy_Get C S y s k = Ok (Some item, s') \<and> contents s' = contents s"
  using assms by (rule snappy_session.get_legacy)

theorem snappy_Get_legacy_witness:
  "\<exists>s'. snappy_Get sample_codec mem_db (NewSnappyDB CompatModeEnabled) [([97], [123, 125])] [97] =
      Ok (Some [123, 125], s') \<and> mem_contents s' [97] = Some [123, 125]"
proof -
  have "\<exists>s'. tm_Set mem_db [([97], [123, 125])] [97] [123, 125] = Ok s' \<and>
      snappy_Get sample_codec mem_db (NewSnappyDB CompatModeEnabled) [([97], [123, 125])] [97] =
        Ok (Some [123, 125], s') \<and> mem_contents s' = mem_contents [([97], [123, 125])]"
    by (rule snappy_Get_legacy [OF mem_snappy.snappy_session_axioms])
       (simp_all add: NewSnappyDB_def mem_contents_def sample_codec_def)
  moreover have "mem_contents [([97], [123, 125])] [97] = Some [123, 125]"
    by (simp add: mem_contents_def)
  ultimately show ?thesis by metis
qed

end
