(* ===== verification/Tm_Types.thy ===== *)
theory Tm_Types
  imports Prelude
begin

text \<open>
  The data of tendermint, the ABCI and the Go standard library that the source reads or
  writes: blocks, block ids, transaction results and events with the fields the code uses, and
  the conversions between strings, bytes and numbers.
\<close>

section \<open>Blocks and results\<close>

record event_attribute =
  ea_Key :: bytes
  ea_Value :: bytes

record abci_event =
  ae_Type :: string
  ae_Attributes :: "event_attribute list"

record abci_deliver_tx =
  dt_Code :: "32 word"
  dt_Data :: bytes
  dt_Log :: string
  dt_Info :: string
  dt_GasWanted :: int64
  dt_GasUsed :: int64
  dt_Events :: "abci_event list"
  dt_Codespace :: string

text \<open>\<open>blk_rest\<close> stands for the parts of a block no code of the repository looks at.\<close>

record 'x tm_block =
  blk_Height :: int64
  blk_AppHash :: bytes
  blk_Time :: int
  blk_Txs :: "bytes list"
  blk_rest :: 'x

record block_id =
  bid_Hash :: bytes
  bid_PartSetHeader :: bytes

section \<open>Strings and numbers\<close>

definition string_of :: "bytes \<Rightarrow> string" where
  "string_of bs = map (\<lambda>b. char_of (unat b)) bs"

lemma bytes_of_string_of [simp]: "bytes_of (string_of bs) = bs"
  by (induction bs) (simp_all add: bytes_of_def string_of_def unat_byte_less)

lemma string_of_bytes_of [simp]: "string_of (bytes_of s) = s"
  by (induction s) (simp_all add: string_of_def bytes_of_def unat_of_nat of_char_mod_256)

lemma bytes_of_inject [simp]: "bytes_of s = bytes_of t \<longleftrightarrow> s = t"
  by (metis string_of_bytes_of)

text \<open>Integers of the SDK: a result of more than 256 bits panics.\<close>

definition sdk_int :: "int \<Rightarrow> int res" where
  "sdk_int i = (if \<bar>i\<bar> < 2 ^ 256 then Ok i else Panic ''Int overflow'')"

lemma sdk_int_Ok [simp]: "\<bar>i\<bar> < 2 ^ 256 \<Longrightarrow> sdk_int i = Ok i"
  by (simp add: sdk_int_def)

lemma sdk_int_Panic: "\<not> \<bar>i\<bar> < 2 ^ 256 \<Longrightarrow> sdk_int i = Panic ''Int overflow''"
  by (simp add: sdk_int_def)

text \<open>\<open>fmt.Sprintf("%X", b)\<close> on a byte slice: two upper case digits per byte.\<close>

definition hex_digit :: "nat \<Rightarrow> char" where
  "hex_digit n = (''0123456789ABCDEF'' ! (n mod 16))"

definition Sprintf_X :: "bytes \<Rightarrow> string" where
  "Sprintf_X bs = concat (map (\<lambda>b. [hex_digit (unat b div 16), hex_digit (unat b)]) bs)"

text \<open>\<open>strconv.Atoi\<close>: an optional sign, at least one decimal digit, the range of \<open>int64\<close>.\<close>

definition digit_value :: "char \<Rightarrow> nat option" where
  "digit_value c = (let n = of_char c in if 48 \<le> n \<and> n \<le> 57 then Some (n - 48) else None)"

fun digits_value :: "nat \<Rightarrow> string \<Rightarrow> nat option" where
  "digits_value acc [] = Some acc"
| "digits_value acc (c # cs) =
     (case digit_value c of None \<Rightarrow> None | Some d \<Rightarrow> digits_value (10 * acc + d) cs)"

definition Atoi :: "string \<Rightarrow> int res" where
  "Atoi s =
     (let (neg, ds) = (case s of [] \<Rightarrow> (False, [])
        | c # cs \<Rightarrow> if c = CHR ''-'' then (True, cs) else if c = CHR ''+'' then (False, cs) else (False, s))
      in if ds = [] then Err ''invalid syntax''
         else case digits_value 0 ds of
             None \<Rightarrow> Err ''invalid syntax''
           | Some n \<Rightarrow>
               (let v = (if neg then - int n else int n)
                in if - (2 ^ 63) \<le> v \<and> v < 2 ^ 63 then Ok v else Err ''value out of range''))"

text \<open>\<open>fmt.Sprintf("%d", i)\<close>.\<close>

definition dec_digit :: "nat \<Rightarrow> char" where
  "dec_digit n = char_of (48 + n)"

fun dec_digits :: "nat \<Rightarrow> string" where
  "dec_digits n = (if n < 10 then [dec_digit n] else dec_digits (n div 10) @ [dec_digit (n mod 10)])"

definition Sprintf_d :: "int \<Rightarrow> string" where
  "Sprintf_d i = (if i < 0 then CHR ''-'' # dec_digits (nat (- i)) else dec_digits (nat i))"

declare dec_digits.simps [simp del]

lemma digit_value_dec_digit [simp]: "n < 10 \<Longrightarrow> digit_value (dec_digit n) = Some n"
  by (simp add: digit_value_def dec_digit_def Let_def)

lemma digits_value_append:
  "digits_value acc (xs @ ys) = (case digits_value acc xs of None \<Rightarrow> None | Some a \<Rightarrow> digits_value a ys)"
  by (induction xs arbitrary: acc) (auto split: option.split)

lemma digits_value_dec_digits: "digits_value 0 (dec_digits n) = Some n"
  by (induction n rule: dec_digits.induct) (subst dec_digits.simps, simp add: digits_value_append)

lemma dec_digits_Cons: "\<exists>c cs. dec_digits n = c # cs \<and> digit_value c \<noteq> None"
proof (induction n rule: dec_digits.induct)
  case (1 n)
  then show ?case
    by (subst dec_digits.simps) (auto simp: dec_digits.simps [of n])
qed

lemma dec_digits_inject: "dec_digits m = dec_digits n \<Longrightarrow> m = n"
  by (metis digits_value_dec_digits option.inject)

lemma digit_value_minus [simp]: "digit_value CHR ''-'' = None" "digit_value CHR ''+'' = None"
  by code_simp+

lemma Sprintf_d_inject: "Sprintf_d i = Sprintf_d j \<Longrightarrow> i = j"
  using dec_digits_Cons [of "nat i"] dec_digits_Cons [of "nat j"] dec_digits_inject [of "nat i" "nat j"]
    dec_digits_inject [of "nat (- i)" "nat (- j)"]
  by (auto simp: Sprintf_d_def split: if_splits)

text \<open>\<open>strconv.Atoi\<close> reads what \<open>%d\<close> prints.\<close>

lemma Atoi_Sprintf_d: "- (2 ^ 63) \<le> i \<Longrightarrow> i < 2 ^ 63 \<Longrightarrow> Atoi (Sprintf_d i) = Ok i"
proof -
  assume i: "- (2 ^ 63) \<le> i" "i < 2 ^ 63"
  obtain c cs where c: "dec_digits (nat \<bar>i\<bar>) = c # cs" "digit_value c \<noteq> None"
    using dec_digits_Cons by blast
  then have "c \<noteq> CHR ''-''" and "c \<noteq> CHR ''+''"
    by auto
  with i c digits_value_dec_digits [of "nat \<bar>i\<bar>"] show ?thesis
    by (auto simp: Atoi_def Sprintf_d_def Let_def)
qed

lemma hex_digit_inject: "hex_digit m = hex_digit n \<longleftrightarrow> m mod 16 = n mod 16"
proof -
  have "distinct ''0123456789ABCDEF''" by code_simp
  then show ?thesis
    unfolding hex_digit_def by (intro nth_eq_iff_index_eq) simp_all
qed

lemma Sprintf_X_inject: "Sprintf_X xs = Sprintf_X ys \<Longrightarrow> xs = ys"
proof (induction xs arbitrary: ys)
  case Nil
  then show ?case by (cases ys) (simp_all add: Sprintf_X_def)
next
  case (Cons x xs)
  then obtain y ys' where ys: "ys = y # ys'"
    by (cases ys) (simp_all add: Sprintf_X_def)
  with Cons.prems have "Sprintf_X xs = Sprintf_X ys'"
    and "unat x div 16 mod 16 = unat y div 16 mod 16" and "unat x mod 16 = unat y mod 16"
    by (simp_all add: Sprintf_X_def hex_digit_inject)
  moreover have "unat x div 16 < 16" and "unat y div 16 < 16"
    using unat_byte_less [of x] unat_byte_less [of y] by simp_all
  ultimately have "unat x = unat y"
    by (metis div_mult_mod_eq mod_less)
  with Cons.IH \<open>Sprintf_X xs = Sprintf_X ys'\<close> ys show ?case
    by (simp add: word_unat_eq_iff)
qed

section \<open>HTTP responses\<close>

record http_response =
  hr_Status :: nat
  hr_Body :: bytes

definition http_Error :: "string \<Rightarrow> nat \<Rightarrow> http_response" where
  "http_Error msg code = \<lparr>hr_Status = code, hr_Body = bytes_of msg @ [10]\<rparr>"

definition http_OK :: "bytes \<Rightarrow> http_response" where
  "http_OK body = \<lparr>hr_Status = 200, hr_Body = body\<rparr>"

end
