(* ===== verification/Event_Collector.thy ===== *)
theory Event_Collector
  imports Tm_Types
begin

text \<open>
  \<open>src/mantlemint/event.go\<close>: the event bus handed to the block executor, which keeps the
  responses of the block being applied for the indexers.
\<close>

section \<open>Definitions\<close>

text \<open>The responses to the beginning and the end of a block; the code reads their events.\<close>

record abci_block_response =
  br_Events :: "abci_event list"

record 'x EventCollector =
  ev_Height :: int64
  ev_Block :: "'x tm_block option"
  ev_ResponseBeginBlock :: "abci_block_response option"
  ev_ResponseEndBlock :: "abci_block_response option"
  ev_ResponseDeliverTxs :: "abci_deliver_tx list"

definition NewMantlemintEventCollector :: "'x EventCollector" where
  "NewMantlemintEventCollector = \<lparr>ev_Height = 0, ev_Block = None, ev_ResponseBeginBlock = None,
     ev_ResponseEndBlock = None, ev_ResponseDeliverTxs = []\<rparr>"

definition PublishEventNewBlock ::
  "'x EventCollector \<Rightarrow> 'x tm_block \<Rightarrow> abci_block_response \<Rightarrow> abci_block_response \<Rightarrow> 'x EventCollector" where
  "PublishEventNewBlock ev block resultBegin resultEnd =
     ev\<lparr>ev_Height := blk_Height block, ev_Block := Some block,
        ev_ResponseBeginBlock := Some resultBegin, ev_ResponseEndBlock := Some resultEnd\<rparr>"

definition PublishEventTx :: "'x EventCollector \<Rightarrow> abci_deliver_tx \<Rightarrow> 'x EventCollector" where
  "PublishEventTx ev result = ev\<lparr>ev_ResponseDeliverTxs := ev_ResponseDeliverTxs ev @ [result]\<rparr>"

definition PublishEventNewBlockHeader :: "'x EventCollector \<Rightarrow> 'x EventCollector" where
  "PublishEventNewBlockHeader ev = ev"

definition PublishEventValidatorSetUpdates :: "'x EventCollector \<Rightarrow> 'x EventCollector" where
  "PublishEventValidatorSetUpdates ev = ev"

definition PublishEventNewEvidence :: "'x EventCollector \<Rightarrow> 'x EventCollector" where
  "PublishEventNewEvidence ev = ev"

text \<open>The events an executor publishes while it applies a block, in order.\<close>

datatype 'x tm_event =
    EventNewBlock "'x tm_block" abci_block_response abci_block_response
  | EventTx abci_deliver_tx
  | EventNewBlockHeader
  | EventValidatorSetUpdates
  | EventNewEvidence

primrec publish :: "'x tm_event \<Rightarrow> 'x EventCollector \<Rightarrow> 'x EventCollector" where
  "publish (EventNewBlock b rb re) ev = PublishEventNewBlock ev b rb re"
| "publish (EventTx r) ev = PublishEventTx ev r"
| "publish EventNewBlockHeader ev = PublishEventNewBlockHeader ev"
| "publish EventValidatorSetUpdates ev = PublishEventValidatorSetUpdates ev"
| "publish EventNewEvidence ev = PublishEventNewEvidence ev"

definition publish_all :: "'x tm_event list \<Rightarrow> 'x EventCollector \<Rightarrow> 'x EventCollector" where
  "publish_all es ev = fold publish es ev"

section \<open>What a collector holds\<close>

primrec tx_results :: "'x tm_event list \<Rightarrow> abci_deliver_tx list" where
  "tx_results [] = []"
| "tx_results (e # es) = (case e of EventTx r \<Rightarrow> r # tx_results es | _ \<Rightarrow> tx_results es)"

primrec last_block :: "'x tm_event list \<Rightarrow> 'x tm_block option \<Rightarrow> 'x tm_block option" where
  "last_block [] b = b"
| "last_block (e # es) b = last_block es (case e of EventNewBlock b' _ _ \<Rightarrow> Some b' | _ \<Rightarrow> b)"

lemmas publish_defs = PublishEventNewBlock_def PublishEventTx_def PublishEventNewBlockHeader_def
  PublishEventValidatorSetUpdates_def PublishEventNewEvidence_def

lemma publish_all_txs:
  "ev_ResponseDeliverTxs (publish_all es ev) = ev_ResponseDeliverTxs ev @ tx_results es"
  by (induction es arbitrary: ev)
     (auto simp: publish_all_def publish_defs split: tm_event.split)

lemma publish_all_block: "ev_Block (publish_all es ev) = last_block es (ev_Block ev)"
  by (induction es arbitrary: ev)
     (auto simp: publish_all_def publish_defs split: tm_event.split)

text \<open>
  The collector of a block holds the transaction results in the order of their events,
  and nothing of another block: the \<open>i\<close>-th result belongs to the \<open>i\<close>-th published transaction.
\<close>

theorem collector_keeps_order:
  "ev_ResponseDeliverTxs (publish_all es NewMantlemintEventCollector) = tx_results es \<and>
   ev_Block (publish_all es NewMantlemintEventCollector) = last_block es None"
  by (simp add: publish_all_txs publish_all_block NewMantlemintEventCollector_def)

end
