(* ===== verification/Indexer.thy ===== *)
theory Indexer
  imports Snappy_DB Event_Collector Lib_Bytes
begin

text \<open>
  \<open>src/indexer\<close>: the indexing service, which runs its index functions over one batch of the
  indexer database per block, and the block, height and transaction indexers with their REST
  handlers. An index function is a client program of the safe batch database; its state \<open>'g\<close> is
  what it keeps in memory between blocks. JSON encoding, transaction decoding and hashing are
  library code and enter as parameters.
\<close>

section \<open>The service (\<open>indexer.go\<close>, \<open>types.go\<close>)\<close>

type_synonym ('x, 'g) IndexFunc =
  "'x tm_block \<Rightarrow> block_id option \<Rightarrow> 'x EventCollector \<Rightarrow> 'g \<Rightarrow> ('g \<times> string option) prog"

definition CreateIndexer :: "('x, 'g) IndexFunc \<Rightarrow> ('x, 'g) IndexFunc" where
  "CreateIndexer idf = idf"

record ('x, 'g) Indexer =
  ix_indexerTags :: "string list"
  ix_indexers :: "('x, 'g) IndexFunc list"

text \<open>\<open>open_db\<close> is \<open>tmdb.NewGoLevelDB\<close>.\<close>

definition NewIndexer ::
  "(string \<Rightarrow> string \<Rightarrow> 's res) \<Rightarrow> string \<Rightarrow> string \<Rightarrow> ('s \<times> SnappyDB \<times> ('x, 'g) Indexer) res" where
  "NewIndexer open_db dbName path =
     bind_res (open_db dbName path) (\<lambda>indexerDB.
       Ok (indexerDB, NewSnappyDB CompatModeEnabled, \<lparr>ix_indexerTags = [], ix_indexers = []\<rparr>))"

definition RegisterIndexerService ::
  "('x, 'g) Indexer \<Rightarrow> string \<Rightarrow> ('x, 'g) IndexFunc \<Rightarrow> ('x, 'g) Indexer" where
  "RegisterIndexerService idx tag indexerFunc =
     idx\<lparr>ix_indexerTags := ix_indexerTags idx @ [tag], ix_indexers := ix_indexers idx @ [indexerFunc]\<rparr>"

text \<open>The loop of \<open>Run\<close> over the index functions; it stops at the first error.\<close>

primrec run_indexers ::
  "('x, 'g) IndexFunc list \<Rightarrow> 'x tm_block \<Rightarrow> block_id option \<Rightarrow> 'x EventCollector \<Rightarrow> 'g \<Rightarrow>
   ('g \<times> string option) prog" where
  "run_indexers [] block blockId evc g = Done (g, None)"
| "run_indexers (f # fs) block blockId evc g =
     bind_prog (f block blockId evc g) (\<lambda>(g', err).
       case err of Some e \<Rightarrow> Done (g', Some e) | None \<Rightarrow> run_indexers fs block blockId evc g')"

text \<open>
  \<open>Run\<close>: a fresh safe batch database per block, flushed only if every index function
  succeeded. The result is the state in memory and the error.
\<close>

definition Indexer_Run ::
  "('s, 'b, 'z) tmdb_scheme \<Rightarrow> ('x, 'g) Indexer \<Rightarrow> 's \<Rightarrow> 'x tm_block \<Rightarrow> block_id option \<Rightarrow> 'x EventCollector \<Rightarrow> 'g \<Rightarrow>
   ('g \<times> string option, 's) run" where
  "Indexer_Run D idx s block blockId evc g =
     (let w = sb_Open D (NewSafeBatchDB s) in
      case run_prog D (run_indexers (ix_indexers idx) block blockId evc g) (w, []) of
        Crashed p c \<Rightarrow> Crashed p (sb_store (fst c))
      | Returned (g', Some e) c \<Rightarrow> Returned (g', Some e) (sb_store (fst c))
      | Returned (g', None) c \<Rightarrow>
          (case sb_Flush D (\<lambda>b. None :: unit option) (fst c) of
             Ok (_, err, w') \<Rightarrow> Returned (g', err) (sb_store w')
           | Err e \<Rightarrow> Crashed e (sb_store (fst c))
           | Panic p \<Rightarrow> Crashed p (sb_store (fst c))))"

definition ErrorInternal :: string where
  "ErrorInternal = ''internal server error''"

text \<open>\<open>return indexerDB.Set(key, value)\<close> as the last or an inner step of an index function.\<close>

definition set_then :: "bytes \<Rightarrow> bytes \<Rightarrow> 'g \<Rightarrow> ('g \<times> string option) prog \<Rightarrow> ('g \<times> string option) prog" where
  "set_then key value g next =
     Call (CallSet key value) (\<lambda>r. case r of RError e \<Rightarrow> Done (g, Some e) | _ \<Rightarrow> next)"

section \<open>Blocks (\<open>block/block.go\<close>, \<open>block/types.go\<close>, \<open>block/client.go\<close>)\<close>

definition block_prefix :: bytes where
  "block_prefix = bytes_of ''block/height:''"

definition block_getKey :: "uint64 \<Rightarrow> bytes" where
  "block_getKey height = ConcatBytes [block_prefix, UintToBigEndian height]"

record 'x BlockRecord =
  br_BlockID :: "block_id option"
  br_Block :: "'x tm_block"

definition IndexBlock :: "('x BlockRecord \<Rightarrow> bytes res) \<Rightarrow> ('x, 'g) IndexFunc" where
  "IndexBlock Marshal block blockID evc g =
     (let rec = \<lparr>br_BlockID = blockID, br_Block = block\<rparr> in
      case Marshal rec of
        Err e \<Rightarrow> Done (g, Some e)
      | Panic p \<Rightarrow> Abort p
      | Ok recordJSON \<Rightarrow> set_then (block_getKey (blk_Height block)) recordJSON g (Done (g, None)))"

definition ErrorInvalidHeight :: "string \<Rightarrow> string" where
  "ErrorInvalidHeight height = ''invalid height '' @ height"

definition ErrorBlockNotFound :: "string \<Rightarrow> string" where
  "ErrorBlockNotFound height = ''block '' @ height @ '' not found... yet.''"

text \<open>\<open>uint64(heightInInt)\<close> wraps a negative number.\<close>

definition blockByHeightHandler ::
  "codec \<Rightarrow> ('s, 'b, 'z) tmdb_scheme \<Rightarrow> SnappyDB \<Rightarrow> 's \<Rightarrow> string \<Rightarrow> (bytes option \<times> 's) res" where
  "blockByHeightHandler C D y s height =
     (case Atoi height of
        Err e \<Rightarrow> Err (ErrorInvalidHeight height)
      | Panic p \<Rightarrow> Panic p
      | Ok heightInInt \<Rightarrow> snappy_Get C D y s (block_getKey (word_of_int heightInInt)))"

text \<open>The route; \<open>mux.Vars\<close> gives the path variable, absent in the model as \<^const>\<open>None\<close>.\<close>

definition block_route ::
  "codec \<Rightarrow> ('s, 'b, 'z) tmdb_scheme \<Rightarrow> SnappyDB \<Rightarrow> 's \<Rightarrow> string option \<Rightarrow> (http_response \<times> 's) res" where
  "block_route C D y s var =
     (case var of
        None \<Rightarrow> Ok (http_Error (ErrorInvalidHeight []) 400, s)
      | Some height \<Rightarrow>
          (case blockByHeightHandler C D y s height of
             Err e \<Rightarrow> Ok (http_Error ErrorInternal 500, s)
           | Panic p \<Rightarrow> Panic p
           | Ok (None, s') \<Rightarrow> Ok (http_Error (ErrorBlockNotFound height) 400, s')
           | Ok (Some block, s') \<Rightarrow> Ok (http_OK block, s')))"

section \<open>Last known height (\<open>height/height.go\<close>, \<open>height/types.go\<close>)\<close>

definition height_getKey :: bytes where
  "height_getKey = bytes_of ''lastKnownHeight''"

record HeightRecord =
  hrec_Height :: uint64

definition IndexHeight :: "(HeightRecord \<Rightarrow> bytes res) \<Rightarrow> ('x, 'g) IndexFunc" where
  "IndexHeight Marshal block blockID evc g =
     (let rec = \<lparr>hrec_Height = blk_Height block\<rparr> in
      case Marshal rec of
        Err e \<Rightarrow> Done (g, Some e)
      | Panic p \<Rightarrow> Abort p
      | Ok recordJSON \<Rightarrow> set_then height_getKey recordJSON g (Done (g, None)))"

section \<open>Transactions (\<open>tx/tx.go\<close>, \<open>tx/types.go\<close>, \<open>tx/client.go\<close>)\<close>

record TxRecord =
  tr_Tx :: bytes
  tr_TxResponse :: bytes

record TxByHeightRecord =
  th_Code :: "32 word"
  th_Codespace :: string
  th_GasUsed :: int64
  th_GasWanted :: int64
  th_Height :: int64
  th_RawLog :: string
  th_Logs :: bytes
  th_TxHash :: string
  th_Timestamp :: int
  th_Tx :: bytes

definition txPrefix :: bytes where
  "txPrefix = bytes_of ''tx/hash:''"

definition tx_getKey :: "string \<Rightarrow> bytes" where
  "tx_getKey hash = ConcatBytes [txPrefix, bytes_of hash]"

definition byHeightPrefix :: bytes where
  "byHeightPrefix = bytes_of ''tx/height:''"

definition getByHeightKey :: "uint64 \<Rightarrow> bytes" where
  "getByHeightKey height = ConcatBytes [byHeightPrefix, UintToBigEndian height]"

record EventAttributeJSON =
  ej_Key :: string
  ej_Value :: string

record EventJSON =
  ev_Type :: string
  ev_Attributes :: "EventAttributeJSON list"

record ResponseDeliverTx =
  rd_Code :: "32 word"
  rd_Data :: bytes
  rd_Log :: string
  rd_Info :: string
  rd_GasWanted :: int64
  rd_GasUsed :: int64
  rd_Events :: "EventJSON list"
  rd_Codespace :: string

definition ToResponseDeliverTxJSON :: "abci_deliver_tx \<Rightarrow> ResponseDeliverTx" where
  "ToResponseDeliverTxJSON r =
     \<lparr>rd_Code = dt_Code r, rd_Data = dt_Data r, rd_Log = dt_Log r, rd_Info = dt_Info r,
      rd_GasWanted = dt_GasWanted r, rd_GasUsed = dt_GasUsed r,
      rd_Events = map (\<lambda>e. \<lparr>ev_Type = ae_Type e,
        ev_Attributes = map (\<lambda>a. \<lparr>ej_Key = string_of (ea_Key a), ej_Value = string_of (ea_Value a)\<rparr>)
          (ae_Attributes e)\<rparr>) (dt_Events r),
      rd_Codespace = dt_Codespace r\<rparr>"

text \<open>
  Library code of the transaction indexer: the hash of a transaction, decoding and its JSON
  (whose error the code drops), and the three encodings.
\<close>

record 'tx tx_library =
  tl_Hash :: "bytes \<Rightarrow> bytes"
  tl_Decode :: "bytes \<Rightarrow> 'tx res"
  tl_JSON :: "'tx \<Rightarrow> bytes"
  tl_MarshalResponse :: "ResponseDeliverTx \<Rightarrow> bytes res"
  tl_MarshalRecord :: "TxRecord \<Rightarrow> bytes res"
  tl_MarshalByHeight :: "TxByHeightRecord list \<Rightarrow> bytes res"

text \<open>One round of the first loop: the hash, the record and the entry of the height payload.\<close>

definition tx_row ::
  "'tx tx_library \<Rightarrow> 'x tm_block \<Rightarrow> 'x EventCollector \<Rightarrow> nat \<Rightarrow> bytes \<Rightarrow>
   (string \<times> TxRecord \<times> TxByHeightRecord) res" where
  "tx_row L block evc txIndex txByte =
     (let hash = tl_Hash L txByte in
      bind_res (tl_Decode L txByte) (\<lambda>tx.
        let txJSON = tl_JSON L tx in
        if length (ev_ResponseDeliverTxs evc) \<le> txIndex then Panic ''runtime error: index out of range''
        else
          let response = ToResponseDeliverTxJSON (ev_ResponseDeliverTxs evc ! txIndex) in
          bind_res (tl_MarshalResponse L response) (\<lambda>responseJSON.
            Ok (Sprintf_X hash,
                \<lparr>tr_Tx = txJSON, tr_TxResponse = responseJSON\<rparr>,
                \<lparr>th_Code = rd_Code response, th_Codespace = rd_Codespace response,
                 th_GasUsed = rd_GasUsed response, th_GasWanted = rd_GasWanted response,
                 th_Height = blk_Height block, th_RawLog = rd_Log response,
                 th_Logs = (if rd_Code response = 0 then bytes_of (rd_Log response) else bytes_of ''[]''),
                 th_TxHash = Sprintf_X hash, th_Timestamp = blk_Time block, th_Tx = txJSON\<rparr>))))"

fun tx_rows ::
  "'tx tx_library \<Rightarrow> 'x tm_block \<Rightarrow> 'x EventCollector \<Rightarrow> nat \<Rightarrow> bytes list \<Rightarrow>
   (string \<times> TxRecord \<times> TxByHeightRecord) list res" where
  "tx_rows L block evc i [] = Ok []"
| "tx_rows L block evc i (t # ts) =
     bind_res (tx_row L block evc i t) (\<lambda>row.
       map_ok (\<lambda>rows. row # rows) (tx_rows L block evc (Suc i) ts))"

text \<open>The second loop, over the records, and the step that follows it.\<close>

primrec set_records ::
  "'tx tx_library \<Rightarrow> (string \<times> TxRecord \<times> TxByHeightRecord) list \<Rightarrow> 'g \<Rightarrow> ('g \<times> string option) prog \<Rightarrow>
   ('g \<times> string option) prog" where
  "set_records L [] g next = next"
| "set_records L (row # rows) g next =
     (case tl_MarshalRecord L (fst (snd row)) of
        Err e \<Rightarrow> Done (g, Some e)
      | Panic p \<Rightarrow> Abort p
      | Ok txRecordJSON \<Rightarrow> set_then (tx_getKey (fst row)) txRecordJSON g (set_records L rows g next))"

definition IndexTx :: "'tx tx_library \<Rightarrow> ('x, 'g) IndexFunc" where
  "IndexTx L block blockID evc g =
     (case tx_rows L block evc 0 (blk_Txs block) of
        Err e \<Rightarrow> Done (g, Some e)
      | Panic p \<Rightarrow> Abort p
      | Ok rows \<Rightarrow>
          set_records L rows g
            (case tl_MarshalByHeight L (map (\<lambda>row. snd (snd row)) rows) of
               Err e \<Rightarrow> Done (g, Some e)
             | Panic p \<Rightarrow> Abort p
             | Ok byHeightJSON \<Rightarrow>
                 set_then (getByHeightKey (blk_Height block)) byHeightJSON g (Done (g, None))))"

definition ErrorTxsNotFound :: "string \<Rightarrow> string" where
  "ErrorTxsNotFound height = ''txs at height '' @ height @ '' not found... yet.''"

definition ErrorInvalidHash :: "string \<Rightarrow> string" where
  "ErrorInvalidHash hash = ''invalid hash '' @ hash"

definition ErrorTxNotFound :: "string \<Rightarrow> string" where
  "ErrorTxNotFound hash = ''tx ('' @ hash @ '') not found... yet or forever.''"

definition txByHashHandler ::
  "codec \<Rightarrow> ('s, 'b, 'z) tmdb_scheme \<Rightarrow> SnappyDB \<Rightarrow> 's \<Rightarrow> string \<Rightarrow> (bytes option \<times> 's) res" where
  "txByHashHandler C D y s txHash = snappy_Get C D y s (tx_getKey txHash)"

definition txsByHeightHandler ::
  "codec \<Rightarrow> ('s, 'b, 'z) tmdb_scheme \<Rightarrow> SnappyDB \<Rightarrow> 's \<Rightarrow> string \<Rightarrow> (bytes option \<times> 's) res" where
  "txsByHeightHandler C D y s height =
     (case Atoi height of
        Err e \<Rightarrow> Err (ErrorInvalidHeight height)
      | Panic p \<Rightarrow> Panic p
      | Ok heightInInt \<Rightarrow> snappy_Get C D y s (getByHeightKey (word_of_int heightInInt)))"

definition tx_hash_route ::
  "codec \<Rightarrow> ('s, 'b, 'z) tmdb_scheme \<Rightarrow> SnappyDB \<Rightarrow> 's \<Rightarrow> string option \<Rightarrow> (http_response \<times> 's) res" where
  "tx_hash_route C D y s var =
     (case var of
        None \<Rightarrow> Ok (http_Error (ErrorInvalidHash []) 400, s)
      | Some hash \<Rightarrow>
          (case txByHashHandler C D y s hash of
             Err e \<Rightarrow> Ok (http_Error ErrorInternal 500, s)
           | Panic p \<Rightarrow> Panic p
           | Ok (None, s') \<Rightarrow> Ok (http_Error (ErrorTxNotFound hash) 400, s')
           | Ok (Some txn, s') \<Rightarrow> Ok (http_OK txn, s')))"

definition tx_height_route ::
  "codec \<Rightarrow> ('s, 'b, 'z) tmdb_scheme \<Rightarrow> SnappyDB \<Rightarrow> 's \<Rightarrow> string option \<Rightarrow> (http_response \<times> 's) res" where
  "tx_height_route C D y s var =
     (case var of
        None \<Rightarrow> Ok (http_Error (ErrorInvalidHeight []) 400, s)
      | Some height \<Rightarrow>
          (case txsByHeightHandler C D y s height of
             Err e \<Rightarrow> Ok (http_Error ErrorInternal 400, s)
           | Panic p \<Rightarrow> Panic p
           | Ok (None, s') \<Rightarrow> Ok (http_Error (ErrorTxsNotFound height) 400, s')
           | Ok (Some txns, s') \<Rightarrow> Ok (http_OK txns, s')))"

end
