(* ===== verification/Richlist.thy ===== *)
theory Richlist
  imports Indexer "HOL-Library.Multiset"
begin

text \<open>
  \<open>src/indexer/richlist\<close>: the ranking of accounts by balance. The table is a B-tree
  (\<open>github.com/google/btree\<close>), coins and the application's keepers are cosmos-sdk code: both are
  parameters (\<open>btree\<close>, \<open>sdk\<close>). \<open>sdk.Int\<close> is an integer whose sums panic beyond 256 bits (\<open>sdk_int\<close>).
  The read-write mutex guards single calls only and the indexer runs in one goroutine, so it is left out.
\<close>

section \<open>Library interfaces\<close>

record coin =
  coin_Denom :: string
  coin_Amount :: int

record Ranker =
  rk_Position :: int
  rk_Addresses :: "string list"
  rk_Score :: coin

record 't btree =
  bt_New :: 't
  bt_Get :: "'t \<Rightarrow> Ranker \<Rightarrow> Ranker option"
  bt_ReplaceOrInsert :: "'t \<Rightarrow> Ranker \<Rightarrow> 't"
  bt_Delete :: "'t \<Rightarrow> Ranker \<Rightarrow> 't"
  bt_Min :: "'t \<Rightarrow> Ranker option"
  bt_Max :: "'t \<Rightarrow> Ranker option"
  bt_Len :: "'t \<Rightarrow> nat"
  bt_Descend :: "'t \<Rightarrow> Ranker list"

text \<open>
  Coins, and the queries of the application: the account of an address, whether it is a module
  account, its balance, and all accounts with their addresses at a height. \<open>IsLT\<close> and \<open>NewCoin\<close>
  panic on coins they do not accept, which is \<^const>\<open>None\<close>; \<open>ParseCoinsNormalized\<close> returns an error.
\<close>

record 'acc sdk =
  sdk_IsLT :: "coin \<Rightarrow> coin \<Rightarrow> bool option"
  sdk_NewCoin :: "string \<Rightarrow> int \<Rightarrow> coin option"
  sdk_ParseCoins :: "string \<Rightarrow> coin list option"
  sdk_AccAddress :: "string \<Rightarrow> 'acc"
  sdk_IsModule :: "'acc \<Rightarrow> bool"
  sdk_Balance :: "'acc \<Rightarrow> string \<Rightarrow> coin"
  sdk_Accounts :: "uint64 \<Rightarrow> ('acc \<times> string) list"

section \<open>Rankers (\<open>types.go\<close>)\<close>

definition sdk_call :: "'a option \<Rightarrow> 'a res" where
  "sdk_call r = (case r of Some x \<Rightarrow> Ok x | None \<Rightarrow> Panic ''invalid coin'')"

definition ranker_Less :: "'acc sdk \<Rightarrow> Ranker \<Rightarrow> Ranker \<Rightarrow> bool res" where
  "ranker_Less K ranker than = sdk_call (sdk_IsLT K (rk_Score ranker) (rk_Score than))"

definition Enlist :: "Ranker \<Rightarrow> string \<Rightarrow> Ranker" where
  "Enlist ranker accAddress =
     (if accAddress \<in> set (rk_Addresses ranker) then ranker
      else ranker\<lparr>rk_Addresses := rk_Addresses ranker @ [accAddress]\<rparr>)"

text \<open>\<open>Unlist\<close> drops the first occurrence and tells whether the ranker is empty then.\<close>

definition Unlist :: "Ranker \<Rightarrow> string \<Rightarrow> (bool \<times> string option) \<times> Ranker" where
  "Unlist ranker accAddress =
     (if accAddress \<in> set (rk_Addresses ranker)
      then let ranker' = ranker\<lparr>rk_Addresses := remove1 accAddress (rk_Addresses ranker)\<rparr>
           in ((rk_Addresses ranker' = [], None), ranker')
      else ((False, Some (accAddress @ '' is not on the ranker list'')), ranker))"

section \<open>The list (\<open>types.go\<close>)\<close>

record 't Richlist =
  rl_Height :: uint64
  rl_Rankers :: 't
  rl_threshold :: "coin option"

definition NewRichlist :: "'t btree \<Rightarrow> uint64 \<Rightarrow> coin option \<Rightarrow> 't Richlist" where
  "NewRichlist B height threshold = \<lparr>rl_Height = height, rl_Rankers = bt_New B, rl_threshold = threshold\<rparr>"

definition rl_deref :: "coin option \<Rightarrow> coin res" where
  "rl_deref t = (case t of None \<Rightarrow> Panic nil_deref | Some c \<Rightarrow> Ok c)"

definition Rank :: "'acc sdk \<Rightarrow> 't btree \<Rightarrow> 't Richlist \<Rightarrow> Ranker \<Rightarrow> 't Richlist res" where
  "Rank K B list ranker =
     bind_res (rl_deref (rl_threshold list)) (\<lambda>threshold.
     bind_res (sdk_call (sdk_IsLT K (rk_Score ranker) threshold)) (\<lambda>below.
       if below then Ok list
       else
         let ranked = (case bt_Get B (rl_Rankers list) ranker of
               Some item \<Rightarrow> foldl Enlist item (rk_Addresses ranker)
             | None \<Rightarrow> ranker)
         in Ok (list\<lparr>rl_Rankers := bt_ReplaceOrInsert B (rl_Rankers list) ranked\<rparr>)))"

definition Unrank :: "'t btree \<Rightarrow> 't Richlist \<Rightarrow> Ranker \<Rightarrow> 't Richlist res" where
  "Unrank B list ranker =
     bind_res (rl_deref (rl_threshold list)) (\<lambda>threshold.
       if coin_Amount (rk_Score ranker) < coin_Amount threshold then Ok list
       else case bt_Get B (rl_Rankers list) ranker of
           None \<Rightarrow> Err ''failed to unrank: cannot find''
         | Some item \<Rightarrow>
             let unranked = foldl (\<lambda>r addr. snd (Unlist r addr)) item (rk_Addresses ranker)
             in Ok (list\<lparr>rl_Rankers := (if rk_Addresses unranked = [] then bt_Delete B (rl_Rankers list) unranked
                  else bt_ReplaceOrInsert B (rl_Rankers list) unranked)\<rparr>))"

definition rl_Min :: "'t btree \<Rightarrow> 't Richlist \<Rightarrow> Ranker res" where
  "rl_Min B list = (case bt_Min B (rl_Rankers list) of Some r \<Rightarrow> Ok r
     | None \<Rightarrow> Panic ''interface conversion: interface is nil'')"

definition rl_Max :: "'t btree \<Rightarrow> 't Richlist \<Rightarrow> Ranker res" where
  "rl_Max B list = (case bt_Max B (rl_Rankers list) of Some r \<Rightarrow> Ok r
     | None \<Rightarrow> Panic ''interface conversion: interface is nil'')"

definition rl_Len :: "'t btree \<Rightarrow> 't Richlist \<Rightarrow> nat" where
  "rl_Len B list = bt_Len B (rl_Rankers list)"

definition rl_Count :: "'t btree \<Rightarrow> 't Richlist \<Rightarrow> nat" where
  "rl_Count B list = sum_list (map (\<lambda>r. length (rk_Addresses r)) (bt_Descend B (rl_Rankers list)))"

text \<open>
  The loop of \<open>Extract\<close> over the descending entries; the comparison with the threshold is made
  only while there is room, and only when a threshold was given.
\<close>

fun extract_loop ::
  "'acc sdk \<Rightarrow> 't btree \<Rightarrow> nat \<Rightarrow> Ranker option \<Rightarrow> Ranker list \<Rightarrow> 't Richlist \<Rightarrow> 't Richlist res" where
  "extract_loop K B len temp [] extracted = Ok extracted"
| "extract_loop K B len temp (ranker # rest) extracted =
     (if len \<le> rl_Count B extracted then Ok extracted
      else bind_res (case temp of None \<Rightarrow> Ok False | Some t \<Rightarrow> ranker_Less K ranker t) (\<lambda>below.
        if below then Ok extracted
        else extract_loop K B len temp rest
          (extracted\<lparr>rl_Rankers := bt_ReplaceOrInsert B (rl_Rankers extracted) ranker\<rparr>)))"

definition Extract ::
  "'acc sdk \<Rightarrow> 't btree \<Rightarrow> 't Richlist \<Rightarrow> uint64 \<Rightarrow> nat \<Rightarrow> coin option \<Rightarrow> 't Richlist res" where
  "Extract K B list height len threshold =
     (if rl_Len B list < 1 then Err ''richlist empty''
      else extract_loop K B len
        (map_option (\<lambda>t. \<lparr>rk_Position = 0, rk_Addresses = [], rk_Score = t\<rparr>) threshold)
        (bt_Descend B (rl_Rankers list)) (NewRichlist B height None))"

text \<open>
  One change of \<open>Apply\<close>. An error of \<open>Unrank\<close> is printed and the old list kept; \<open>Rank\<close> has no
  error of its own.
\<close>

definition apply_change ::
  "'acc sdk \<Rightarrow> 't btree \<Rightarrow> string \<Rightarrow> 't Richlist \<Rightarrow> string \<Rightarrow> int \<Rightarrow> 't Richlist res" where
  "apply_change K B denom list address amount =
     (let accAddress = sdk_AccAddress K address in
      if sdk_IsModule K accAddress then Ok list
      else
        let amountPrev = sdk_Balance K accAddress denom in
        bind_res (sdk_int (coin_Amount amountPrev + amount)) (\<lambda>sum.
        bind_res (sdk_call (sdk_NewCoin K denom sum)) (\<lambda>amountAfter.
          let ranker = \<lparr>rk_Position = 0, rk_Addresses = [address], rk_Score = amountPrev\<rparr> in
          case Unrank B list ranker of
            Panic p \<Rightarrow> Panic p
          | Err e \<Rightarrow> Rank K B list (ranker\<lparr>rk_Score := amountAfter\<rparr>)
          | Ok list' \<Rightarrow> Rank K B list' (ranker\<lparr>rk_Score := amountAfter\<rparr>))))"

text \<open>\<open>changes\<close> are the entries of the Go map in the order the iteration visits them.\<close>

fun Apply ::
  "'acc sdk \<Rightarrow> 't btree \<Rightarrow> string \<Rightarrow> 't Richlist \<Rightarrow> (string \<times> int) list \<Rightarrow> 't Richlist res" where
  "Apply K B denom list [] = Ok list"
| "Apply K B denom list ((address, amount) # changes) =
     bind_res (apply_change K B denom list address amount) (\<lambda>list'. Apply K B denom list' changes)"

text \<open>\<open>MarshalJSON\<close>: the height and the entries from the top, numbered from one.\<close>

record jsonlist =
  jl_Height :: uint64
  jl_Rankers :: "Ranker list"

definition rl_json :: "'t btree \<Rightarrow> 't Richlist \<Rightarrow> jsonlist" where
  "rl_json B list =
     \<lparr>jl_Height = rl_Height list,
      jl_Rankers = map (\<lambda>(n, r). r\<lparr>rk_Position := int n\<rparr>) (enumerate 1 (bt_Descend B (rl_Rankers list)))\<rparr>"

definition rl_MarshalJSON :: "(jsonlist \<Rightarrow> bytes res) \<Rightarrow> 't btree \<Rightarrow> 't Richlist \<Rightarrow> bytes res" where
  "rl_MarshalJSON Marshal B list = Marshal (rl_json B list)"

section \<open>Balance changes of a block (\<open>richlist.go\<close>)\<close>

definition eventCoinSpent :: string where
  "eventCoinSpent = ''coin_spent''"

definition eventCoinReceived :: string where
  "eventCoinReceived = ''coin_received''"

definition attrSpender :: string where
  "attrSpender = ''spender''"

definition attrReceiver :: string where
  "attrReceiver = ''receiver''"

definition attrAmount :: string where
  "attrAmount = ''amount''"

text \<open>The last coin of the wanted denomination, if there is one.\<close>

definition coin_of :: "string \<Rightarrow> coin list \<Rightarrow> int option \<Rightarrow> int option" where
  "coin_of denom coins amount =
     fold (\<lambda>c a. if coin_Denom c = denom then Some (coin_Amount c) else a) coins amount"

fun extract_change_loop ::
  "'acc sdk \<Rightarrow> string \<Rightarrow> string \<Rightarrow> event_attribute list \<Rightarrow> string \<Rightarrow> int option \<Rightarrow> string \<times> int option" where
  "extract_change_loop K attributeKey denom [] address amount = (address, amount)"
| "extract_change_loop K attributeKey denom (attr # attrs) address amount =
     (let key = string_of (ea_Key attr);
          step = (if key = attributeKey then Some (string_of (ea_Value attr), amount)
            else if key = attrAmount then
              (case sdk_ParseCoins K (string_of (ea_Value attr)) of
                 Some coins \<Rightarrow> Some (address, coin_of denom coins amount)
               | None \<Rightarrow> None)
            else Some (address, amount))
      in case step of
           None \<Rightarrow> ([], None)
         | Some (address', amount') \<Rightarrow>
             if address' \<noteq> [] \<and> amount' \<noteq> None then (address', amount')
             else extract_change_loop K attributeKey denom attrs address' amount')"

definition extractChange ::
  "'acc sdk \<Rightarrow> event_attribute list \<Rightarrow> string \<Rightarrow> string \<Rightarrow> string \<times> int option" where
  "extractChange K attrs attributeKey denom = extract_change_loop K attributeKey denom attrs [] None"

text \<open>
  The Go map as an association list in the order its keys were first set. \<open>new\<close> is the value for
  an address that is not found, \<open>upd\<close> the one for an address that is.
\<close>

fun coin_update ::
  "string \<Rightarrow> int res \<Rightarrow> (int \<Rightarrow> int res) \<Rightarrow> (string \<times> int) list \<Rightarrow> (string \<times> int) list res" where
  "coin_update a new upd [] = map_ok (\<lambda>x. [(a, x)]) new"
| "coin_update a new upd ((b, prev) # m) =
     (if a = b then map_ok (\<lambda>x. (b, x) # m) (upd prev) else map_ok ((#) (b, prev)) (coin_update a new upd m))"

definition filter_event ::
  "'acc sdk \<Rightarrow> string \<Rightarrow> abci_event \<Rightarrow> (string \<times> int) list \<Rightarrow> (string \<times> int) list res" where
  "filter_event K denom event coinMap =
     (if ae_Type event = eventCoinSpent then
        (case extractChange K (ae_Attributes event) attrSpender denom of
           (address, None) \<Rightarrow> Ok coinMap
         | (address, Some changing) \<Rightarrow> if address = [] then Ok coinMap
             else coin_update address (sdk_int (0 - changing)) (\<lambda>prev. sdk_int (prev - changing)) coinMap)
      else if ae_Type event = eventCoinReceived then
        (case extractChange K (ae_Attributes event) attrReceiver denom of
           (address, None) \<Rightarrow> Ok coinMap
         | (address, Some changing) \<Rightarrow> if address = [] then Ok coinMap
             else coin_update address (Ok changing) (\<lambda>prev. sdk_int (prev + changing)) coinMap)
      else Ok coinMap)"

fun filter_events ::
  "'acc sdk \<Rightarrow> string \<Rightarrow> abci_event list \<Rightarrow> (string \<times> int) list \<Rightarrow> (string \<times> int) list res" where
  "filter_events K denom [] coinMap = Ok coinMap"
| "filter_events K denom (event # events) coinMap =
     bind_res (filter_event K denom event coinMap) (filter_events K denom events)"

definition filterCoinChanges :: "'acc sdk \<Rightarrow> abci_event list \<Rightarrow> string \<Rightarrow> (string \<times> int) list res" where
  "filterCoinChanges K events denom = filter_events K denom events []"

text \<open>Building the list from all accounts; module accounts are skipped.\<close>

fun rank_accounts ::
  "'acc sdk \<Rightarrow> 't btree \<Rightarrow> string \<Rightarrow> ('acc \<times> string) list \<Rightarrow> 't Richlist \<Rightarrow> 't Richlist res" where
  "rank_accounts K B denom [] list = Ok list"
| "rank_accounts K B denom ((account, address) # rest) list =
     (if sdk_IsModule K account then rank_accounts K B denom rest list
      else bind_res (Rank K B list
          \<lparr>rk_Position = 0, rk_Addresses = [address], rk_Score = sdk_Balance K account denom\<rparr>)
        (\<lambda>list'. rank_accounts K B denom rest list'))"

definition generateRichlistFromState ::
  "'acc sdk \<Rightarrow> 't btree \<Rightarrow> uint64 \<Rightarrow> coin \<Rightarrow> 't Richlist res" where
  "generateRichlistFromState K B height threshold =
     rank_accounts K B (coin_Denom threshold) (sdk_Accounts K height) (NewRichlist B height (Some threshold))"

section \<open>The index function (\<open>richlist.go\<close>, \<open>client.go\<close>)\<close>

definition richlist_prefix :: bytes where
  "richlist_prefix = bytes_of ''richlist/height:''"

definition richlist_getKey :: "uint64 \<Rightarrow> string \<Rightarrow> bytes" where
  "richlist_getKey height denom =
     ConcatBytes [richlist_prefix, UintToBigEndian height, bytes_of '':'', bytes_of denom]"

text \<open>
  The configuration: how many entries to keep, and the least balance that counts, which is nil
  when the length is 0.
\<close>

record richlist_cfg =
  rc_Length :: nat
  rc_Threshold :: "coin option"

definition getDefaultKey :: "richlist_cfg \<Rightarrow> uint64 \<Rightarrow> bytes res" where
  "getDefaultKey cfg height =
     map_ok (\<lambda>threshold. richlist_getKey height (coin_Denom threshold)) (rl_deref (rc_Threshold cfg))"

text \<open>Extract the list, encode it, and go on with the bytes; errors end the index function.\<close>

definition extracted_json ::
  "(jsonlist \<Rightarrow> bytes res) \<Rightarrow> 'acc sdk \<Rightarrow> 't btree \<Rightarrow> richlist_cfg \<Rightarrow> 't Richlist \<Rightarrow> uint64 \<Rightarrow> bytes res" where
  "extracted_json Marshal K B cfg list height =
     (case Extract K B list height (rc_Length cfg) None of
        Err e \<Rightarrow> Err (''failed to extract richlist: '' @ e)
      | Panic p \<Rightarrow> Panic p
      | Ok extracted \<Rightarrow> rl_MarshalJSON Marshal B extracted)"

definition or_fail :: "'g \<Rightarrow> 'x res \<Rightarrow> ('x \<Rightarrow> ('g \<times> string option) prog) \<Rightarrow> ('g \<times> string option) prog" where
  "or_fail g r f = (case r of Ok x \<Rightarrow> f x | Err e \<Rightarrow> Done (g, Some e) | Panic p \<Rightarrow> Abort p)"

text \<open>The events of the block: begin block, every transaction, end block.\<close>

definition block_events :: "'x EventCollector \<Rightarrow> abci_event list" where
  "block_events evc =
     (case ev_ResponseBeginBlock evc of None \<Rightarrow> [] | Some r \<Rightarrow> br_Events r) @
     concat (map dt_Events (ev_ResponseDeliverTxs evc)) @
     (case ev_ResponseEndBlock evc of None \<Rightarrow> [] | Some r \<Rightarrow> br_Events r)"

text \<open>
  Steps after the optional rebuild of the list. \<open>visit\<close> is the order in which Go iterates over
  the map of changes.
\<close>

definition haltOnApplyFailure :: bool where
  "haltOnApplyFailure = False"

definition apply_block ::
  "(jsonlist \<Rightarrow> bytes res) \<Rightarrow> 'acc sdk \<Rightarrow> 't btree \<Rightarrow> richlist_cfg \<Rightarrow>
   ((string \<times> int) list \<Rightarrow> (string \<times> int) list) \<Rightarrow> 'x EventCollector \<Rightarrow> uint64 \<Rightarrow> 't Richlist \<Rightarrow>
   ('t Richlist \<times> string option) prog" where
  "apply_block Marshal K B cfg visit evc height list =
     or_fail list (rl_deref (rl_threshold list)) (\<lambda>threshold.
       let denom = coin_Denom threshold in
       or_fail list (filterCoinChanges K (block_events evc) denom) (\<lambda>changes.
          or_fail list
            (case Apply K B denom list (visit changes) of
               Err e \<Rightarrow> if haltOnApplyFailure then Err e else Ok list
             | r \<Rightarrow> r) (\<lambda>applied.
            let list' = applied\<lparr>rl_Height := height\<rparr>
            in or_fail list' (extracted_json Marshal K B cfg list' height) (\<lambda>richlistJSON.
                 or_fail list' (getDefaultKey cfg 0) (\<lambda>latestKey.
                   set_then latestKey richlistJSON list'
                     (or_fail list' (getDefaultKey cfg height) (\<lambda>heightKey.
                        set_then heightKey richlistJSON list' (Done (list', None)))))))))"

definition IndexRichlist ::
  "(jsonlist \<Rightarrow> bytes res) \<Rightarrow> 'acc sdk \<Rightarrow> 't btree \<Rightarrow> richlist_cfg \<Rightarrow>
   ((string \<times> int) list \<Rightarrow> (string \<times> int) list) \<Rightarrow> ('x, 't Richlist) IndexFunc" where
  "IndexRichlist Marshal K B cfg visit block blockID evc richlist =
     (let height = blk_Height block in
      if rc_Length cfg = 0 \<or> height = 1 then Done (richlist, None)
      else if height = 2 \<or> rl_Len B richlist < rc_Length cfg then
        or_fail richlist (rl_deref (rl_threshold richlist)) (\<lambda>threshold.
          or_fail richlist (generateRichlistFromState K B (height - 1) threshold) (\<lambda>list.
            if height = 2 then
              or_fail list (extracted_json Marshal K B cfg list 1) (\<lambda>richlistJSON.
                or_fail list (getDefaultKey cfg 1) (\<lambda>key.
                  set_then key richlistJSON list
                    (apply_block Marshal K B cfg visit evc height list)))
            else apply_block Marshal K B cfg visit evc height list))
      else apply_block Marshal K B cfg visit evc height richlist)"

definition ErrorRichlistNotFound :: "string \<Rightarrow> string" where
  "ErrorRichlistNotFound height = ''richlist at '' @ height @ '' not found... yet.''"

definition richlistByHeightHandler ::
  "codec \<Rightarrow> ('s, 'b, 'z) tmdb_scheme \<Rightarrow> SnappyDB \<Rightarrow> richlist_cfg \<Rightarrow> 's \<Rightarrow> string \<Rightarrow> (bytes option \<times> 's) res" where
  "richlistByHeightHandler C D y cfg s height =
     (case Atoi height of
        Err e \<Rightarrow> Err (ErrorInvalidHeight height)
      | Panic p \<Rightarrow> Panic p
      | Ok heightInInt \<Rightarrow>
          bind_res (getDefaultKey cfg (word_of_int heightInInt)) (\<lambda>key. snappy_Get C D y s key))"

text \<open>
  The route. A missing path variable writes an error but does not return: the handler goes on
  with the empty height and writes a second response; the status of the first one stands.
\<close>

definition richlist_serve ::
  "codec \<Rightarrow> ('s, 'b, 'z) tmdb_scheme \<Rightarrow> SnappyDB \<Rightarrow> richlist_cfg \<Rightarrow> 's \<Rightarrow> string \<Rightarrow> (http_response \<times> 's) res" where
  "richlist_serve C D y cfg s var =
     (let height = (if var = ''latest'' then ''0'' else var) in
      case richlistByHeightHandler C D y cfg s height of
        Err e \<Rightarrow> Ok (http_Error ErrorInternal 500, s)
      | Panic p \<Rightarrow> Panic p
      | Ok (None, s') \<Rightarrow> Ok (http_Error (ErrorRichlistNotFound height) 400, s')
      | Ok (Some list, s') \<Rightarrow> Ok (http_OK list, s'))"

definition richlist_route ::
  "codec \<Rightarrow> ('s, 'b, 'z) tmdb_scheme \<Rightarrow> SnappyDB \<Rightarrow> richlist_cfg \<Rightarrow> 's \<Rightarrow> string option \<Rightarrow> (http_response \<times> 's) res" where
  "richlist_route C D y cfg s var =
     (case var of
        Some height \<Rightarrow> richlist_serve C D y cfg s height
      | None \<Rightarrow> map_ok (\<lambda>(r, s'). (\<lparr>hr_Status = 400,
            hr_Body = hr_Body (http_Error (ErrorInvalidHeight []) 400) @ hr_Body r\<rparr>, s'))
          (richlist_serve C D y cfg s []))"

end
