(* ===== verification/Richlist_Correct.thy ===== *)
theory Richlist_Correct
  imports Richlist
begin

text \<open>
  The rich list represents balances: the entry for a score holds exactly the ranked accounts
  with that balance, each once. Ranking, unranking and applying the changes of a block keep
  this, in whatever order the changes are visited, and extraction takes the top of the list.
\<close>

section \<open>Contract of the libraries\<close>

definition amount :: "Ranker \<Rightarrow> int" where
  "amount r = coin_Amount (rk_Score r)"

definition denom_of :: "Ranker \<Rightarrow> string" where
  "denom_of r = coin_Denom (rk_Score r)"

text \<open>
  \<open>tbl t\<close> is the table a tree stands for, by score; \<open>good t\<close> says that all scores are in the
  denomination \<open>d\<close>, so that comparisons do not panic.
\<close>

locale ranking =
  fixes K :: "'acc sdk" and B :: "'t btree" and d :: string
    and good :: "'t \<Rightarrow> bool" and tbl :: "'t \<Rightarrow> int \<rightharpoonup> Ranker"
  assumes tbl_finite: "good t \<Longrightarrow> finite (dom (tbl t))"
    and tbl_entry: "good t \<Longrightarrow> tbl t a = Some r \<Longrightarrow> amount r = a \<and> denom_of r = d"
    and tbl_New: "good (bt_New B) \<and> tbl (bt_New B) = Map.empty"
    and tbl_Get: "good t \<Longrightarrow> denom_of r = d \<Longrightarrow> bt_Get B t r = tbl t (amount r)"
    and tbl_Insert: "good t \<Longrightarrow> denom_of r = d \<Longrightarrow>
      good (bt_ReplaceOrInsert B t r) \<and> tbl (bt_ReplaceOrInsert B t r) = (tbl t)(amount r \<mapsto> r)"
    and tbl_Delete: "good t \<Longrightarrow> denom_of r = d \<Longrightarrow>
      good (bt_Delete B t r) \<and> tbl (bt_Delete B t r) = (tbl t)(amount r := None)"
    and tbl_Descend: "good t \<Longrightarrow>
      bt_Descend B t = map (\<lambda>a. the (tbl t a)) (rev (sorted_list_of_set (dom (tbl t))))"
    and tbl_Len: "good t \<Longrightarrow> bt_Len B t = card (dom (tbl t))"
    and coin_IsLT: "coin_Denom x = d \<Longrightarrow> coin_Denom y = d \<Longrightarrow>
      sdk_IsLT K x y = Some (coin_Amount x < coin_Amount y)"
    and coin_New: "0 \<le> n \<Longrightarrow> sdk_NewCoin K d n = Some \<lparr>coin_Denom = d, coin_Amount = n\<rparr>"
    and balance_denom: "coin_Denom (sdk_Balance K acc d) = d"

text \<open>Which accounts a table lists, and that no entry is empty or lists an account twice.\<close>

definition listed :: "(int \<rightharpoonup> Ranker) \<Rightarrow> string \<Rightarrow> int \<Rightarrow> bool" where
  "listed m a b \<longleftrightarrow> (\<exists>r. m b = Some r \<and> a \<in> set (rk_Addresses r))"

definition table_wf :: "(int \<rightharpoonup> Ranker) \<Rightarrow> bool" where
  "table_wf m \<longleftrightarrow> (\<forall>b r. m b = Some r \<longrightarrow> rk_Addresses r \<noteq> [] \<and> distinct (rk_Addresses r))"

definition table_of :: "int \<Rightarrow> (string \<rightharpoonup> int) \<Rightarrow> (int \<rightharpoonup> Ranker) \<Rightarrow> bool" where
  "table_of th bal m \<longleftrightarrow> table_wf m \<and> (\<forall>a b. listed m a b \<longleftrightarrow> bal a = Some b \<and> th \<le> b)"

definition represents ::
  "('t \<Rightarrow> bool) \<Rightarrow> ('t \<Rightarrow> int \<rightharpoonup> Ranker) \<Rightarrow> string \<Rightarrow> int \<Rightarrow> 't Richlist \<Rightarrow> (string \<rightharpoonup> int) \<Rightarrow> bool" where
  "represents good tbl d th list bal \<longleftrightarrow>
     good (rl_Rankers list) \<and> rl_threshold list = Some \<lparr>coin_Denom = d, coin_Amount = th\<rparr> \<and>
     table_of th bal (tbl (rl_Rankers list))"

text \<open>A single account and its score.\<close>

definition solo :: "string \<Rightarrow> string \<Rightarrow> int \<Rightarrow> Ranker" where
  "solo d a b = \<lparr>rk_Position = 0, rk_Addresses = [a], rk_Score = \<lparr>coin_Denom = d, coin_Amount = b\<rparr>\<rparr>"

lemma solo_simps [simp]:
  "amount (solo d a b) = b" "denom_of (solo d a b) = d" "rk_Addresses (solo d a b) = [a]"
  "rk_Score (solo d a b) = \<lparr>coin_Denom = d, coin_Amount = b\<rparr>"
  by (simp_all add: solo_def amount_def denom_of_def)

lemma solo_rescore: "(solo d a b)\<lparr>rk_Score := \<lparr>coin_Denom = d, coin_Amount = c\<rparr>\<rparr> = solo d a c"
  by (simp add: solo_def)

section \<open>Tables\<close>

definition addresses_at :: "(int \<rightharpoonup> Ranker) \<Rightarrow> int \<Rightarrow> string set" where
  "addresses_at m b = (case m b of None \<Rightarrow> {} | Some r \<Rightarrow> set (rk_Addresses r))"

lemma listed_addresses: "listed m a b \<longleftrightarrow> a \<in> addresses_at m b"
  by (simp add: listed_def addresses_at_def split: option.split)

lemma table_of_addresses:
  "table_of th bal m \<Longrightarrow> addresses_at m b = {a. bal a = Some b \<and> th \<le> b}"
  by (auto simp: table_of_def listed_addresses)

lemma table_of_update:
  assumes "table_of th bal m"
    and "\<And>r. x = Some r \<Longrightarrow> rk_Addresses r \<noteq> [] \<and> distinct (rk_Addresses r)"
    and "(case x of None \<Rightarrow> {} | Some r \<Rightarrow> set (rk_Addresses r)) = {a. bal' a = Some b \<and> th \<le> b}"
    and "\<And>a c. c \<noteq> b \<Longrightarrow> th \<le> c \<Longrightarrow> bal' a = Some c \<longleftrightarrow> bal a = Some c"
  shows "table_of th bal' (m(b := x))"
proof -
  have "addresses_at (m(b := x)) c = {a. bal' a = Some c \<and> th \<le> c}" for c
    using assms(3,4) table_of_addresses [OF assms(1), of c] by (auto simp: addresses_at_def)
  moreover have "table_wf (m(b := x))"
    using assms(1,2) by (auto simp: table_of_def table_wf_def)
  ultimately show ?thesis
    by (auto simp: table_of_def listed_addresses)
qed

lemma table_of_nonempty: "table_of th bal m \<Longrightarrow> m b = Some r \<Longrightarrow> th \<le> b \<and> set (rk_Addresses r) = {a. bal a = Some b}"
proof -
  assume t: "table_of th bal m" and r: "m b = Some r"
  then have "set (rk_Addresses r) = {a. bal a = Some b \<and> th \<le> b}"
    using table_of_addresses [OF t, of b] by (simp add: addresses_at_def)
  moreover have "rk_Addresses r \<noteq> []"
    using t r by (auto simp: table_of_def table_wf_def)
  ultimately show ?thesis
    by (cases "th \<le> b") auto
qed

lemma table_of_empty_entry: "table_of th bal m \<Longrightarrow> m b = None \<Longrightarrow> th \<le> b \<Longrightarrow> bal a \<noteq> Some b"
  using table_of_addresses [of th bal m b] by (auto simp: addresses_at_def)

text \<open>An account without a balance on the list enters it; below the threshold nothing changes.\<close>

lemma table_of_below:
  "table_of th bal m \<Longrightarrow> b < th \<Longrightarrow> (\<forall>c. bal a = Some c \<longrightarrow> c < th) \<Longrightarrow> table_of th (bal(a \<mapsto> b)) m"
  by (fastforce simp: table_of_def)

lemma table_of_rank:
  assumes "table_of th bal m" and "bal a = None" and "th \<le> b"
  shows "table_of th (bal(a \<mapsto> b))
    (m(b \<mapsto> (case m b of Some r \<Rightarrow> Enlist r a | None \<Rightarrow> solo d a b)))"
proof (rule table_of_update [OF assms(1)])
  fix r
  assume "Some (case m b of Some r \<Rightarrow> Enlist r a | None \<Rightarrow> solo d a b) = Some r"
  then show "rk_Addresses r \<noteq> [] \<and> distinct (rk_Addresses r)"
    using assms(1) by (auto simp: table_of_def table_wf_def Enlist_def split: option.splits if_splits)
next
  show "(case Some (case m b of Some r \<Rightarrow> Enlist r a | None \<Rightarrow> solo d a b) of
      None \<Rightarrow> {} | Some r \<Rightarrow> set (rk_Addresses r)) = {a'. (bal(a \<mapsto> b)) a' = Some b \<and> th \<le> b}"
    using table_of_nonempty [OF assms(1), of b] table_of_empty_entry [OF assms(1), of b] assms(2,3)
    by (auto simp: Enlist_def split: option.splits)
qed (use assms(2) in auto)

lemma table_of_unrank:
  assumes "table_of th bal m" and "m b = Some r" and "bal a = Some b \<or> bal a = None"
  defines "r' \<equiv> snd (Unlist r a)"
  shows "table_of th (bal(a := None)) (m(b := (if rk_Addresses r' = [] then None else Some r')))"
proof (rule table_of_update [OF assms(1)])
  have dist: "distinct (rk_Addresses r)" and "rk_Addresses r \<noteq> []"
    using assms(1,2) by (auto simp: table_of_def table_wf_def)
  then have r': "set (rk_Addresses r') = set (rk_Addresses r) - {a}" "distinct (rk_Addresses r')"
    by (auto simp: r'_def Unlist_def Let_def)
  then show "rk_Addresses x \<noteq> [] \<and> distinct (rk_Addresses x)"
    if "(if rk_Addresses r' = [] then None else Some r') = Some x" for x
    using that by (auto split: if_splits)
  show "(case if rk_Addresses r' = [] then None else Some r' of None \<Rightarrow> {} | Some r \<Rightarrow> set (rk_Addresses r)) =
      {a'. (bal(a := None)) a' = Some b \<and> th \<le> b}"
    using table_of_nonempty [OF assms(1,2)] r'(1) by auto
  show "(bal(a := None)) a' = Some c \<longleftrightarrow> bal a' = Some c" if "c \<noteq> b" for a' c
    using assms(3) that by auto
qed

section \<open>Operations of the list\<close>

text \<open>
  The balance of an address before the block, as the application tells it, and the balances
  after the changes of a block.
\<close>

definition bank_of :: "'acc sdk \<Rightarrow> string \<Rightarrow> string \<Rightarrow> int" where
  "bank_of K d a = coin_Amount (sdk_Balance K (sdk_AccAddress K a) d)"

definition module_address :: "'acc sdk \<Rightarrow> string \<Rightarrow> bool" where
  "module_address K a = sdk_IsModule K (sdk_AccAddress K a)"

definition changed_by :: "'acc sdk \<Rightarrow> string \<Rightarrow> (string \<times> int) list \<Rightarrow> (string \<rightharpoonup> int) \<Rightarrow> (string \<rightharpoonup> int)" where
  "changed_by K d cs bal = (\<lambda>a. case map_of cs a of
     Some x \<Rightarrow> if module_address K a then bal a else Some (bank_of K d a + x) | None \<Rightarrow> bal a)"

text \<open>No sum has more than 256 bits.\<close>

definition sums_fit :: "'acc sdk \<Rightarrow> string \<Rightarrow> (string \<times> int) list \<Rightarrow> bool" where
  "sums_fit K d cs \<longleftrightarrow> (\<forall>(a, x) \<in> set cs. \<not> module_address K a \<longrightarrow> bank_of K d a + x < 2 ^ 256)"

text \<open>Strictly descending lists.\<close>

lemma distinct_desc: "sorted_wrt (>) xs \<Longrightarrow> distinct (xs :: int list)"
  by (induction xs) auto

lemma sorted_list_of_desc:
  assumes "sorted_wrt (>) (xs :: int list)"
  shows "sorted_list_of_set (set xs) = rev xs"
proof -
  have "sorted_wrt (<) (rev xs)"
    using assms by (simp only: sorted_wrt_rev)
  then have "sorted (rev xs)" and "distinct (rev xs)"
    by (simp_all only: strict_sorted_iff)
  then show ?thesis
    using sorted_list_of_set.idem_if_sorted_distinct [of "rev xs"] by simp
qed

text \<open>The table with the given entries.\<close>

definition table_from :: "Ranker list \<Rightarrow> (int \<rightharpoonup> Ranker)" where
  "table_from es = map_of (map (\<lambda>r. (amount r, r)) es)"

lemma dom_table_from: "dom (table_from es) = set (map amount es)"
  by (simp add: table_from_def dom_map_of_conv_image_fst image_image)

lemma table_from_entry: "distinct (map amount es) \<Longrightarrow> r \<in> set es \<Longrightarrow> table_from es (amount r) = Some r"
  by (induction es) (auto simp: table_from_def, metis imageI)

lemma table_from_snoc:
  "amount r \<notin> amount ` set es \<Longrightarrow> table_from (es @ [r]) = (table_from es)(amount r \<mapsto> r)"
  by (induction es) (auto simp: table_from_def fun_upd_twist)

text \<open>
  The shortest prefix of the entries that lists at least \<open>len\<close> accounts, when \<open>acc\<close> of them are
  listed already.
\<close>

fun take_until :: "nat \<Rightarrow> nat \<Rightarrow> Ranker list \<Rightarrow> Ranker list" where
  "take_until len acc [] = []"
| "take_until len acc (r # rs) =
     (if len \<le> acc then [] else r # take_until len (acc + length (rk_Addresses r)) rs)"

lemma take_until_prefix: "\<exists>n \<le> length es. take_until len acc es = take n es \<and>
    (n < length es \<longrightarrow> len \<le> acc + sum_list (map (\<lambda>r. length (rk_Addresses r)) (take n es))) \<and>
    (\<forall>m < n. acc + sum_list (map (\<lambda>r. length (rk_Addresses r)) (take m es)) < len)"
proof (induction es arbitrary: acc)
  case Nil
  then show ?case by simp
next
  case (Cons r es)
  show ?case
  proof (cases "len \<le> acc")
    case True
    then show ?thesis by (intro exI [of _ 0]) simp
  next
    case False
    obtain n where n: "n \<le> length es" "take_until len (acc + length (rk_Addresses r)) es = take n es"
      "n < length es \<longrightarrow> len \<le> acc + length (rk_Addresses r) + sum_list (map (\<lambda>r. length (rk_Addresses r)) (take n es))"
      "\<And>m. m < n \<Longrightarrow> acc + length (rk_Addresses r) + sum_list (map (\<lambda>r. length (rk_Addresses r)) (take m es)) < len"
      using Cons.IH [of "acc + length (rk_Addresses r)"] by blast
    have "acc + sum_list (map (\<lambda>r. length (rk_Addresses r)) (take m (r # es))) < len" if "m < Suc n" for m
      using that False n(4) by (cases m) (auto simp: add.assoc)
    with n False show ?thesis
      by (intro exI [of _ "Suc n"]) (auto simp: add.assoc)
  qed
qed

context ranking
begin

abbreviation reps where
  "reps th list bal \<equiv> represents good tbl d th list bal"

lemma Rank_represents:
  assumes "reps th list bal" and "bal a = None"
  shows "\<exists>list'. Rank K B list (solo d a b) = Ok list' \<and> reps th list' (bal(a \<mapsto> b))"
proof -
  have good: "good (rl_Rankers list)" and th: "rl_threshold list = Some \<lparr>coin_Denom = d, coin_Amount = th\<rparr>"
    and t: "table_of th bal (tbl (rl_Rankers list))"
    using assms(1) by (auto simp: represents_def)
  have lt: "sdk_IsLT K \<lparr>coin_Denom = d, coin_Amount = b\<rparr> \<lparr>coin_Denom = d, coin_Amount = th\<rparr> = Some (b < th)"
    by (simp add: coin_IsLT)
  show ?thesis
  proof (cases "b < th")
    case True
    then show ?thesis
      using assms table_of_below [OF t True, of a]
      by (simp add: Rank_def th lt rl_deref_def sdk_call_def represents_def)
  next
    case False
    let ?r = "case tbl (rl_Rankers list) b of Some r \<Rightarrow> Enlist r a | None \<Rightarrow> solo d a b"
    have r: "amount ?r = b" "denom_of ?r = d"
      using tbl_entry [OF good, of b]
      by (auto simp: Enlist_def amount_def denom_of_def split: option.splits)
    have "table_of th (bal(a \<mapsto> b)) ((tbl (rl_Rankers list))(b \<mapsto> ?r))"
      using table_of_rank [OF t assms(2)] False by simp
    moreover have "Rank K B list (solo d a b) = Ok (list\<lparr>rl_Rankers := bt_ReplaceOrInsert B (rl_Rankers list) ?r\<rparr>)"
      using False by (simp add: Rank_def th lt rl_deref_def sdk_call_def tbl_Get [OF good] Let_def split: option.split)
    ultimately show ?thesis
      using tbl_Insert [OF good r(2)] r(1) th by (simp add: represents_def)
  qed
qed

text \<open>Unranking at the balance the list knows, or of an account it does not know.\<close>

lemma Unrank_represents:
  assumes "reps th list bal" and "bal a = Some b \<or> bal a = None"
  shows "(\<exists>list'. Unrank B list (solo d a b) = Ok list' \<and> reps th list' (bal(a := None))) \<or>
    (\<exists>e. Unrank B list (solo d a b) = Err e \<and> reps th list (bal(a := None)))"
proof -
  have good: "good (rl_Rankers list)" and th: "rl_threshold list = Some \<lparr>coin_Denom = d, coin_Amount = th\<rparr>"
    and t: "table_of th bal (tbl (rl_Rankers list))"
    using assms(1) by (auto simp: represents_def)
  show ?thesis
  proof (cases "b < th")
    case True
    then have "table_of th (bal(a := None)) (tbl (rl_Rankers list))"
      using t assms(2) by (auto simp: table_of_def)
    then show ?thesis
      using True assms(1) by (simp add: Unrank_def th rl_deref_def represents_def)
  next
    case False
    show ?thesis
    proof (cases "tbl (rl_Rankers list) b")
      case None
      then have "bal a = None"
        using assms(2) table_of_empty_entry [OF t None] False by auto
      then have "bal(a := None) = bal" by auto
      then show ?thesis
        using None False assms(1) by (simp add: Unrank_def th rl_deref_def tbl_Get [OF good])
    next
      case (Some r)
      let ?r = "snd (Unlist r a)"
      have "rk_Score ?r = rk_Score r"
        by (simp add: Unlist_def Let_def)
      then have r: "amount ?r = b" "denom_of ?r = d"
        using tbl_entry [OF good Some] by (simp_all add: amount_def denom_of_def)
      have "table_of th (bal(a := None))
          ((tbl (rl_Rankers list))(b := (if rk_Addresses ?r = [] then None else Some ?r)))"
        using table_of_unrank [OF t Some assms(2)] .
      then show ?thesis
        using False Some r th tbl_Insert [OF good r(2)] tbl_Delete [OF good r(2)]
        by (cases "rk_Addresses ?r = []")
           (simp_all add: Unrank_def th rl_deref_def tbl_Get [OF good] represents_def Let_def)
    qed
  qed
qed

abbreviation bank where
  "bank \<equiv> bank_of K d"

abbreviation is_module where
  "is_module \<equiv> module_address K"

abbreviation changed where
  "changed \<equiv> changed_by K d"

lemma prev_ranker: "\<lparr>rk_Position = 0, rk_Addresses = [a], rk_Score = sdk_Balance K (sdk_AccAddress K a) d\<rparr> =
    solo d a (bank a)"
  using balance_denom [of "sdk_AccAddress K a"] by (simp add: solo_def bank_of_def)

lemma apply_change_represents:
  assumes "reps th list bal" and "\<not> is_module a" and "bal a = Some (bank a) \<or> bal a = None"
    and "0 \<le> bank a + x" and "bank a + x < 2 ^ 256"
  shows "\<exists>list'. apply_change K B d list a x = Ok list' \<and> reps th list' (bal(a \<mapsto> bank a + x))"
proof -
  have new: "sdk_NewCoin K d (bank a + x) = Some \<lparr>coin_Denom = d, coin_Amount = bank a + x\<rparr>"
    using coin_New [OF assms(4)] .
  have sum: "sdk_int (coin_Amount (sdk_Balance K (sdk_AccAddress K a) d) + x) = Ok (bank a + x)"
    using assms(4,5) by (simp add: bank_of_def)
  have eq: "apply_change K B d list a x = (case Unrank B list (solo d a (bank a)) of
      Panic p \<Rightarrow> Panic p | Err e \<Rightarrow> Rank K B list (solo d a (bank a + x))
    | Ok list' \<Rightarrow> Rank K B list' (solo d a (bank a + x)))"
    using assms(2)
    by (simp add: apply_change_def module_address_def Let_def sum new sdk_call_def prev_ranker solo_rescore split: res.split)
  have rank: "\<exists>l'. Rank K B l (solo d a (bank a + x)) = Ok l' \<and> reps th l' (bal(a \<mapsto> bank a + x))"
    if "reps th l (bal(a := None))" for l
    using Rank_represents [OF that, of a "bank a + x"] by simp
  from Unrank_represents [OF assms(1,3)] show ?thesis
    using rank by (auto simp: eq)
qed

lemma apply_change_overflow:
  assumes "\<not> is_module a" and "2 ^ 256 \<le> bank a + x"
  shows "apply_change K B d list a x = Panic ''Int overflow''"
  using assms sdk_int_Panic [of "bank a + x"] by (simp add: apply_change_def module_address_def bank_of_def Let_def)

text \<open>A change whose sum has more than 256 bits panics, wherever it is visited.\<close>

lemma Apply_represents:
  assumes "reps th list bal" and "distinct (map fst cs)"
    and "\<And>a x. (a, x) \<in> set cs \<Longrightarrow> \<not> is_module a \<Longrightarrow> (bal a = Some (bank a) \<or> bal a = None) \<and> 0 \<le> bank a + x"
  shows "if sums_fit K d cs then \<exists>list'. Apply K B d list cs = Ok list' \<and> reps th list' (changed cs bal)
    else Apply K B d list cs = Panic ''Int overflow''"
  using assms
proof (induction cs arbitrary: list bal)
  case Nil
  then show ?case by (simp add: changed_by_def sums_fit_def)
next
  case (Cons c cs)
  obtain a x where c: "c = (a, x)" by (cases c)
  show ?case
  proof (cases "\<not> is_module a \<and> 2 ^ 256 \<le> bank a + x")
    case True
    then show ?thesis
      using apply_change_overflow [of a x list] by (auto simp: c sums_fit_def)
  next
    case False
    let ?bal = "if is_module a then bal else bal(a \<mapsto> bank a + x)"
    have "\<exists>list1. apply_change K B d list a x = Ok list1 \<and> reps th list1 ?bal"
    proof (cases "is_module a")
      case True
      then show ?thesis
        using Cons.prems(1) by (simp add: apply_change_def module_address_def Let_def)
    next
      case nm: False
      then show ?thesis
        using apply_change_represents [OF Cons.prems(1) nm, of x] Cons.prems(3) [of a x] False c by simp
    qed
    then obtain list1 where list1: "apply_change K B d list a x = Ok list1" "reps th list1 ?bal"
      by blast
    have "a \<notin> fst ` set cs"
      using Cons.prems(2) c by simp
    then have "map_of cs a = None"
      by (simp add: map_of_eq_None_iff)
    then have "changed cs ?bal = changed (c # cs) bal"
      by (intro ext) (simp add: changed_by_def c split: option.split)
    moreover have "(?bal a' = Some (bank a') \<or> ?bal a' = None) \<and> 0 \<le> bank a' + x'"
      if "(a', x') \<in> set cs" "\<not> is_module a'" for a' x'
      using Cons.prems(3) [of a' x'] that \<open>a \<notin> fst ` set cs\<close> by force
    moreover have "sums_fit K d (c # cs) \<longleftrightarrow> sums_fit K d cs"
      using False by (auto simp: sums_fit_def c)
    ultimately show ?thesis
      using Cons.IH [OF list1(2)] Cons.prems(2) list1(1) c by auto
  qed
qed

lemma changed_permute:
  assumes "mset cs = mset cs'" and "distinct (map fst cs)"
  shows "changed cs bal = changed cs' bal"
proof -
  have "distinct (map fst cs')"
    using assms by (metis mset_eq_imp_distinct_iff mset_map)
  moreover have "set cs = set cs'"
    using assms(1) by (rule mset_eq_setD)
  ultimately have "map_of cs = map_of cs'"
    using assms(2) by (intro map_of_inject_set [THEN iffD2]) auto
  then show ?thesis by (simp add: changed_by_def)
qed

text \<open>A tree whose table is that of a strictly descending list is traversed as that list.\<close>

lemma Descend_eq:
  assumes "good t" and "tbl t = table_from es" and "sorted_wrt (>) (map amount es)"
  shows "bt_Descend B t = es"
proof -
  have "sorted_list_of_set (set (map amount es)) = rev (map amount es)"
    using assms(3) by (rule sorted_list_of_desc)
  moreover have "the (tbl t (amount r)) = r" if "r \<in> set es" for r
    using table_from_entry [OF distinct_desc [OF assms(3)] that] by (simp add: assms(2))
  ultimately show ?thesis
    by (simp add: tbl_Descend [OF assms(1)] assms(2) dom_table_from rev_map map_idI)
qed

lemma Descend_sorted:
  assumes "good t"
  shows "sorted_wrt (>) (map amount (bt_Descend B t))" and "\<And>r. r \<in> set (bt_Descend B t) \<Longrightarrow> denom_of r = d"
proof -
  let ?as = "rev (sorted_list_of_set (dom (tbl t)))"
  have keys: "set ?as = dom (tbl t)"
    using tbl_finite [OF assms] by simp
  have entry: "amount (the (tbl t a)) = a \<and> denom_of (the (tbl t a)) = d" if "a \<in> set ?as" for a
    using that tbl_entry [OF assms, of a] unfolding keys by auto
  have "map amount (bt_Descend B t) = ?as"
    unfolding tbl_Descend [OF assms] map_map comp_def using entry by (intro map_idI) blast
  moreover have "\<forall>r \<in> set (bt_Descend B t). denom_of r = d"
    unfolding tbl_Descend [OF assms] set_map using entry by blast
  moreover have "sorted_wrt (>) ?as"
    by (simp add: sorted_wrt_rev)
  ultimately show "sorted_wrt (>) (map amount (bt_Descend B t))"
    and "\<And>r. r \<in> set (bt_Descend B t) \<Longrightarrow> denom_of r = d"
    by simp_all
qed

text \<open>The loop of \<open>Extract\<close> without a threshold, with the entries \<open>pre\<close> extracted so far.\<close>

lemma extract_loop_top:
  assumes "good (rl_Rankers ex)" and "tbl (rl_Rankers ex) = table_from pre"
    and "sorted_wrt (>) (map amount (pre @ es))" and "\<And>r. r \<in> set es \<Longrightarrow> denom_of r = d"
  shows "\<exists>ex'. extract_loop K B len None es ex = Ok ex' \<and> rl_Height ex' = rl_Height ex \<and>
    bt_Descend B (rl_Rankers ex') = pre @ take_until len (sum_list (map (\<lambda>r. length (rk_Addresses r)) pre)) es"
  using assms
proof (induction es arbitrary: pre ex)
  case Nil
  then show ?case
    using Descend_eq [OF Nil.prems(1,2)] by simp
next
  case (Cons r es)
  have pre: "bt_Descend B (rl_Rankers ex) = pre"
    using Descend_eq [OF Cons.prems(1,2)] Cons.prems(3) by (simp add: sorted_wrt_append)
  then have count: "rl_Count B ex = sum_list (map (\<lambda>r. length (rk_Addresses r)) pre)"
    by (simp add: rl_Count_def)
  show ?case
  proof (cases "len \<le> rl_Count B ex")
    case True
    then show ?thesis
      using pre count by simp
  next
    case False
    let ?ex = "ex\<lparr>rl_Rankers := bt_ReplaceOrInsert B (rl_Rankers ex) r\<rparr>"
    have r: "denom_of r = d"
      using Cons.prems(4) by simp
    have "amount r \<notin> amount ` set pre"
      using Cons.prems(3) by (auto simp: sorted_wrt_append)
    then have "good (rl_Rankers ?ex)" "tbl (rl_Rankers ?ex) = table_from (pre @ [r])"
      using tbl_Insert [OF Cons.prems(1) r] Cons.prems(2) by (simp_all add: table_from_snoc)
    from Cons.IH [OF this] Cons.prems(3,4) False count show ?thesis
      by (simp add: add.commute)
  qed
qed

lemma Extract_top:
  assumes "good (rl_Rankers list)" and "tbl (rl_Rankers list) \<noteq> Map.empty"
  shows "\<exists>ex. Extract K B list h len None = Ok ex \<and> rl_Height ex = h \<and>
    bt_Descend B (rl_Rankers ex) = take_until len 0 (bt_Descend B (rl_Rankers list))"
proof -
  have "rl_Len B list \<ge> 1"
    using assms tbl_finite [OF assms(1)] by (simp add: rl_Len_def tbl_Len Suc_le_eq card_gt_0_iff)
  then show ?thesis
    using extract_loop_top [of "NewRichlist B h None" "[]" "bt_Descend B (rl_Rankers list)" len]
      Descend_sorted [OF assms(1)] tbl_New
    by (simp add: Extract_def NewRichlist_def table_from_def)
qed

end

section \<open>Changes of a block\<close>

text \<open>
  The coins that move in a block, and how the bank module reports them: one event for each side of
  a transfer, with the address and the coins as attributes, in any order and among others. Events
  of other types report nothing.
\<close>

datatype movement = Spends string "coin list" | Receives string "coin list"

definition attributes_of :: "'acc sdk \<Rightarrow> event_attribute list \<Rightarrow> string \<Rightarrow> string \<Rightarrow> coin list \<Rightarrow> bool" where
  "attributes_of K attrs key a coins \<longleftrightarrow> a \<noteq> [] \<and> distinct (map coin_Denom coins) \<and> (\<forall>c \<in> set coins. 0 \<le> coin_Amount c) \<and>
     (\<exists>v. sdk_ParseCoins K v = Some coins \<and>
        filter (\<lambda>(k, x). k = key \<or> k = ''amount'') (map (\<lambda>at. (string_of (ea_Key at), string_of (ea_Value at))) attrs) \<in>
          {[(key, a), (''amount'', v)], [(''amount'', v), (key, a)]})"

fun reports :: "'acc sdk \<Rightarrow> abci_event \<Rightarrow> movement option \<Rightarrow> bool" where
  "reports K e None \<longleftrightarrow> ae_Type e \<noteq> ''coin_spent'' \<and> ae_Type e \<noteq> ''coin_received''"
| "reports K e (Some (Spends a coins)) \<longleftrightarrow> ae_Type e = ''coin_spent'' \<and> attributes_of K (ae_Attributes e) ''spender'' a coins"
| "reports K e (Some (Receives a coins)) \<longleftrightarrow> ae_Type e = ''coin_received'' \<and> attributes_of K (ae_Attributes e) ''receiver'' a coins"

definition amount_of :: "string \<Rightarrow> coin list \<Rightarrow> int" where
  "amount_of d coins = sum_list (map coin_Amount (filter (\<lambda>c. coin_Denom c = d) coins))"

fun spent_in :: "string \<Rightarrow> string \<Rightarrow> movement option \<Rightarrow> int" where
  "spent_in d a (Some (Spends b coins)) = (if b = a then amount_of d coins else 0)"
| "spent_in d a _ = 0"

fun received_in :: "string \<Rightarrow> string \<Rightarrow> movement option \<Rightarrow> int" where
  "received_in d a (Some (Receives b coins)) = (if b = a then amount_of d coins else 0)"
| "received_in d a _ = 0"

fun moves_in :: "string \<Rightarrow> string \<Rightarrow> movement option \<Rightarrow> bool" where
  "moves_in d a (Some (Spends b coins)) \<longleftrightarrow> b = a \<and> d \<in> coin_Denom ` set coins"
| "moves_in d a (Some (Receives b coins)) \<longleftrightarrow> b = a \<and> d \<in> coin_Denom ` set coins"
| "moves_in d a None \<longleftrightarrow> False"

definition spent_by :: "string \<Rightarrow> movement option list \<Rightarrow> string \<Rightarrow> int" where
  "spent_by d mvs a = sum_list (map (spent_in d a) mvs)"

definition received_by :: "string \<Rightarrow> movement option list \<Rightarrow> string \<Rightarrow> int" where
  "received_by d mvs a = sum_list (map (received_in d a) mvs)"

definition moves :: "string \<Rightarrow> movement option list \<Rightarrow> string \<Rightarrow> bool" where
  "moves d mvs a \<longleftrightarrow> (\<exists>mv \<in> set mvs. moves_in d a mv)"

text \<open>What \<open>extractChange\<close> finds in such attributes.\<close>

lemma extract_loop_relevant:
  "\<not> (ad \<noteq> [] \<and> am \<noteq> None) \<Longrightarrow> extract_change_loop K key d attrs ad am =
    extract_change_loop K key d (filter (\<lambda>at. string_of (ea_Key at) = key \<or> string_of (ea_Key at) = attrAmount) attrs) ad am"
  by (induction attrs arbitrary: ad am) (auto simp: Let_def split: option.split)

lemma coin_of_skip: "d \<notin> coin_Denom ` set coins \<Longrightarrow> coin_of d coins am = am"
  by (induction coins arbitrary: am) (auto simp: coin_of_def)

lemma amount_of_absent: "d \<notin> coin_Denom ` set coins \<Longrightarrow> amount_of d coins = 0"
  by (induction coins) (auto simp: amount_of_def)

lemma coin_of_distinct:
  "distinct (map coin_Denom coins) \<Longrightarrow> d \<in> coin_Denom ` set coins \<Longrightarrow> coin_of d coins am = Some (amount_of d coins)"
proof (induction coins arbitrary: am)
  case (Cons c coins)
  show ?case
  proof (cases "coin_Denom c = d")
    case True
    then have "d \<notin> coin_Denom ` set coins"
      using Cons.prems(1) by auto
    then show ?thesis
      using True coin_of_skip [of d coins "Some (coin_Amount c)"] amount_of_absent [of d coins]
      by (simp add: coin_of_def amount_of_def)
  next
    case False
    then show ?thesis
      using Cons.IH [of am] Cons.prems by (simp add: coin_of_def amount_of_def)
  qed
qed simp

lemma extractChange_attributes:
  assumes "attributes_of K attrs key a coins" and "key \<noteq> ''amount''"
  shows "extractChange K attrs key d = (a, if d \<in> coin_Denom ` set coins then Some (amount_of d coins) else None)"
proof -
  let ?f = "\<lambda>at. (string_of (ea_Key at), string_of (ea_Value at))"
  let ?rel = "filter (\<lambda>at. string_of (ea_Key at) = key \<or> string_of (ea_Key at) = attrAmount) attrs"
  obtain v where v: "sdk_ParseCoins K v = Some coins" and a: "a \<noteq> []" and dist: "distinct (map coin_Denom coins)"
    and rel: "map ?f ?rel \<in> {[(key, a), (''amount'', v)], [(''amount'', v), (key, a)]}"
    using assms(1) by (auto simp: attributes_of_def filter_map comp_def attrAmount_def)
  have found: "coin_of d coins None = (if d \<in> coin_Denom ` set coins then Some (amount_of d coins) else None)"
    using coin_of_distinct [OF dist] coin_of_skip by simp
  from rel obtain x y where xy: "?rel = [x, y]"
    and "?f x = (key, a) \<and> ?f y = (''amount'', v) \<or> ?f x = (''amount'', v) \<and> ?f y = (key, a)"
    by (auto simp: map_eq_Cons_conv)
  then have "extract_change_loop K key d ?rel [] None = (a, coin_of d coins None)"
    using a v assms(2) by (auto simp: xy attrAmount_def Let_def)
  then show ?thesis
    using extract_loop_relevant [of "[]" None K key d attrs] by (simp add: extractChange_def found)
qed

text \<open>One update of the map.\<close>

lemma coin_update_val:
  "\<exists>f. coin_update a new upd m = map_ok f (case map_of m a of None \<Rightarrow> new | Some prev \<Rightarrow> upd prev) \<and>
    (\<forall>x. map_of (f x) = (map_of m)(a \<mapsto> x) \<and> set (map fst (f x)) = insert a (set (map fst m)) \<and>
      (distinct (map fst m) \<longrightarrow> distinct (map fst (f x))))"
proof (induction m)
  case (Cons p m)
  obtain b prev where p: "p = (b, prev)" by (cases p)
  show ?case
  proof (cases "a = b")
    case True
    then show ?thesis
      by (intro exI [of _ "\<lambda>x. (b, x) # m"]) (auto simp: p)
  next
    case False
    obtain f where f: "coin_update a new upd m = map_ok f (case map_of m a of None \<Rightarrow> new | Some prev \<Rightarrow> upd prev)"
      "\<And>x. map_of (f x) = (map_of m)(a \<mapsto> x)" "\<And>x. set (map fst (f x)) = insert a (set (map fst m))"
      "\<And>x. distinct (map fst m) \<Longrightarrow> distinct (map fst (f x))"
      using Cons.IH by blast
    then show ?thesis
      using False by (intro exI [of _ "\<lambda>x. (b, prev) # f x"]) (auto simp: p map_ok_map_ok comp_def fun_upd_twist)
  qed
qed (auto intro!: exI [of _ "\<lambda>x. [(a, x)]"])

lemma coin_update_distinct:
  assumes "coin_update a new upd m = Ok m'" and "distinct (map fst m)"
  shows "distinct (map fst m')"
proof -
  obtain f where f: "coin_update a new upd m = map_ok f (case map_of m a of None \<Rightarrow> new | Some prev \<Rightarrow> upd prev)"
    "\<And>x. distinct (map fst m) \<Longrightarrow> distinct (map fst (f x))"
    using coin_update_val [of a new upd m] by blast
  have "map_ok f (case map_of m a of None \<Rightarrow> new | Some prev \<Rightarrow> upd prev) = Ok m'"
    using f(1) assms(1) by simp
  then show ?thesis
    using f(2) assms(2) by (auto simp: map_ok_eq_Ok)
qed

lemma filter_event_distinct:
  "filter_event K d e m = Ok m' \<Longrightarrow> distinct (map fst m) \<Longrightarrow> distinct (map fst m')"
  by (auto simp: filter_event_def split: if_splits prod.splits option.splits intro: coin_update_distinct)

lemma filter_events_distinct:
  "filter_events K d es m = Ok m' \<Longrightarrow> distinct (map fst m) \<Longrightarrow> distinct (map fst m')"
  by (induction es arbitrary: m) (auto simp: bind_res_eq_Ok dest: filter_event_distinct)

section \<open>A concrete instance\<close>

text \<open>A strictly descending list in place of the tree, and simple keepers.\<close>

fun desc_insert :: "Ranker \<Rightarrow> Ranker list \<Rightarrow> Ranker list" where
  "desc_insert r [] = [r]"
| "desc_insert r (x # xs) =
     (if amount x < amount r then r # x # xs else if amount x = amount r then r # xs
      else x # desc_insert r xs)"

definition list_btree :: "Ranker list btree" where
  "list_btree = \<lparr>bt_New = [], bt_Get = (\<lambda>t r. table_from t (amount r)),
     bt_ReplaceOrInsert = (\<lambda>t r. desc_insert r t),
     bt_Delete = (\<lambda>t r. filter (\<lambda>x. amount x \<noteq> amount r) t),
     bt_Min = (\<lambda>t. if t = [] then None else Some (last t)),
     bt_Max = (\<lambda>t. if t = [] then None else Some (hd t)),
     bt_Len = length, bt_Descend = (\<lambda>t. t)\<rparr>"

definition list_good :: "string \<Rightarrow> Ranker list \<Rightarrow> bool" where
  "list_good d t \<longleftrightarrow> sorted_wrt (>) (map amount t) \<and> (\<forall>r \<in> set t. denom_of r = d)"

definition sample_sdk :: "string sdk" where
  "sample_sdk = \<lparr>sdk_IsLT = (\<lambda>x y. if coin_Denom x = coin_Denom y then Some (coin_Amount x < coin_Amount y) else None),
     sdk_NewCoin = (\<lambda>d n. if 0 \<le> n then Some \<lparr>coin_Denom = d, coin_Amount = n\<rparr> else None),
     sdk_ParseCoins = (\<lambda>s. Some [\<lparr>coin_Denom = ''uluna'', coin_Amount = int (length s)\<rparr>]),
     sdk_AccAddress = (\<lambda>a. a), sdk_IsModule = (\<lambda>a. a = ''pool''),
     sdk_Balance = (\<lambda>a d. \<lparr>coin_Denom = d, coin_Amount = (if a = ''alice'' then 10 else 0)\<rparr>),
     sdk_Accounts = (\<lambda>h. [(''alice'', ''alice''), (''pool'', ''pool'')])\<rparr>"

lemma set_desc_insert:
  "sorted_wrt (>) (map amount t) \<Longrightarrow> set (desc_insert r t) = insert r {x \<in> set t. amount x \<noteq> amount r}"
  by (induction r t rule: desc_insert.induct) auto

lemma sorted_desc_insert: "sorted_wrt (>) (map amount t) \<Longrightarrow> sorted_wrt (>) (map amount (desc_insert r t))"
proof (induction r t rule: desc_insert.induct)
  case (2 r x xs)
  then show ?case
    using set_desc_insert [of xs r] by auto
qed auto

lemma table_desc_insert:
  "sorted_wrt (>) (map amount t) \<Longrightarrow> table_from (desc_insert r t) = (table_from t)(amount r \<mapsto> r)"
  by (induction r t rule: desc_insert.induct) (auto simp: table_from_def fun_upd_twist)

lemma table_delete:
  "table_from (filter (\<lambda>x. amount x \<noteq> b) t) = (table_from t)(b := None)"
  by (induction t) (auto simp: table_from_def fun_upd_twist)

lemma desc_list_table:
  assumes "sorted_wrt (>) (map amount t)"
  shows "map (\<lambda>a. the (table_from t a)) (rev (sorted_list_of_set (dom (table_from t)))) = t"
proof -
  have "sorted_list_of_set (set (map amount t)) = rev (map amount t)"
    using assms by (rule sorted_list_of_desc)
  then show ?thesis
    using table_from_entry [OF distinct_desc [OF assms]]
    by (simp add: dom_table_from rev_map map_idI)
qed

interpretation sample: ranking sample_sdk list_btree "''uluna''" "list_good ''uluna''" table_from
proof
  fix t :: "Ranker list" and a r
  assume g: "list_good ''uluna'' t"
  show "finite (dom (table_from t))"
    by (simp add: dom_table_from)
  show "amount r = a \<and> denom_of r = ''uluna''" if "table_from t a = Some r"
    using that g map_of_SomeD by (fastforce simp: table_from_def list_good_def)
  show "bt_Get list_btree t r = table_from t (amount r)"
    by (simp add: list_btree_def)
  show "list_good ''uluna'' (bt_ReplaceOrInsert list_btree t r) \<and>
      table_from (bt_ReplaceOrInsert list_btree t r) = (table_from t)(amount r \<mapsto> r)" if "denom_of r = ''uluna''"
    using g that by (simp add: list_good_def list_btree_def sorted_desc_insert table_desc_insert set_desc_insert)
  show "list_good ''uluna'' (bt_Delete list_btree t r) \<and>
      table_from (bt_Delete list_btree t r) = (table_from t)(amount r := None)"
    using g by (simp add: list_good_def list_btree_def table_delete sorted_wrt_map sorted_wrt_filter)
  show "bt_Descend list_btree t = map (\<lambda>a. the (table_from t a)) (rev (sorted_list_of_set (dom (table_from t))))"
    using g desc_list_table by (simp add: list_btree_def list_good_def)
  show "bt_Len list_btree t = card (dom (table_from t))"
    using g distinct_card [OF distinct_desc, of "map amount t"] by (simp add: list_btree_def list_good_def dom_table_from)
qed (simp_all add: list_good_def list_btree_def table_from_def sample_sdk_def)

section \<open>Properties\<close>

text \<open>
  C15. Applying the balance changes of a block to a list that represents the balances before it
  gives, whatever the order in which the map of changes is visited, a list that represents the
  balances after it: each non-module account sits exactly at its new balance, or nowhere if that
  is below the threshold. If a new balance has more than 256 bits, the sum panics.
\<close>

theorem richlist_tracks_balances:
  assumes "ranking K B d good tbl" and "represents good tbl d th list bal"
    and "filterCoinChanges K events d = Ok cs" and "mset (visit cs) = mset cs"
    and "\<And>a x. (a, x) \<in> set cs \<Longrightarrow> \<not> module_address K a \<Longrightarrow>
      (bal a = Some (bank_of K d a) \<or> bal a = None) \<and> 0 \<le> bank_of K d a + x"
  shows "if sums_fit K d cs
    then \<exists>list'. Apply K B d list (visit cs) = Ok list' \<and> represents good tbl d th list' (changed_by K d cs bal)
    else Apply K B d list (visit cs) = Panic ''Int overflow''"
proof -
  have dist: "distinct (map fst cs)"
    using filter_events_distinct [OF assms(3) [unfolded filterCoinChanges_def]] by simp
  then have "distinct (map fst (visit cs))"
    using assms(4) by (metis mset_eq_imp_distinct_iff mset_map)
  moreover have set: "set (visit cs) = set cs"
    using assms(4) by (rule mset_eq_setD)
  ultimately have "if sums_fit K d (visit cs)
    then \<exists>list'. Apply K B d list (visit cs) = Ok list' \<and> represents good tbl d th list' (changed_by K d (visit cs) bal)
    else Apply K B d list (visit cs) = Panic ''Int overflow''"
    using assms(5) by (intro ranking.Apply_represents [OF assms(1,2)]) auto
  moreover have "sums_fit K d (visit cs) \<longleftrightarrow> sums_fit K d cs"
    by (simp add: sums_fit_def set)
  ultimately show ?thesis
    using ranking.changed_permute [OF assms(1) assms(4) [symmetric] dist, of bal] by simp
qed

definition sample_events :: "abci_event list" where
  "sample_events =
     [\<lparr>ae_Type = eventCoinSpent, ae_Attributes =
         [\<lparr>ea_Key = bytes_of attrSpender, ea_Value = bytes_of ''alice''\<rparr>,
          \<lparr>ea_Key = bytes_of attrAmount, ea_Value = bytes_of ''xxx''\<rparr>]\<rparr>,
      \<lparr>ae_Type = eventCoinReceived, ae_Attributes =
         [\<lparr>ea_Key = bytes_of attrReceiver, ea_Value = bytes_of ''bob''\<rparr>,
          \<lparr>ea_Key = bytes_of attrAmount, ea_Value = bytes_of ''xxx''\<rparr>]\<rparr>]"

definition sample_list :: "Ranker list Richlist" where
  "sample_list = \<lparr>rl_Height = 4, rl_Rankers = [solo ''uluna'' ''alice'' 10],
     rl_threshold = Some \<lparr>coin_Denom = ''uluna'', coin_Amount = 1\<rparr>\<rparr>"

lemma sample_changes: "filterCoinChanges sample_sdk sample_events ''uluna'' = Ok [(''alice'', -3), (''bob'', 3)]"
  by code_simp

lemma sample_list_represents:
  "represents (list_good ''uluna'') table_from ''uluna'' 1 sample_list [''alice'' \<mapsto> 10]"
  by (auto simp: represents_def sample_list_def list_good_def table_of_def table_wf_def listed_def
      table_from_def split: if_splits)

theorem richlist_tracks_balances_witness:
  "\<exists>list'. Apply sample_sdk list_btree ''uluna'' sample_list [(''bob'', 3), (''alice'', -3)] = Ok list' \<and>
    represents (list_good ''uluna'') table_from ''uluna'' 1 list'
      (changed_by sample_sdk ''uluna'' [(''alice'', -3), (''bob'', 3)] [''alice'' \<mapsto> 10])"
proof -
  have bank: "bank_of sample_sdk ''uluna'' a = (if a = ''alice'' then 10 else 0)" for a
    by (simp add: bank_of_def sample_sdk_def)
  have "sums_fit sample_sdk ''uluna'' [(''alice'', -3), (''bob'', 3)]"
    by (simp add: sums_fit_def bank)
  moreover have "if sums_fit sample_sdk ''uluna'' [(''alice'', -3), (''bob'', 3)]
    then \<exists>list'. Apply sample_sdk list_btree ''uluna'' sample_list (rev [(''alice'', -3), (''bob'', 3)]) = Ok list' \<and>
      represents (list_good ''uluna'') table_from ''uluna'' 1 list'
        (changed_by sample_sdk ''uluna'' [(''alice'', -3), (''bob'', 3)] [''alice'' \<mapsto> 10])
    else Apply sample_sdk list_btree ''uluna'' sample_list (rev [(''alice'', -3), (''bob'', 3)]) = Panic ''Int overflow''"
    by (rule richlist_tracks_balances [OF sample.ranking_axioms sample_list_represents sample_changes]) (auto simp: bank)
  ultimately show ?thesis
    by (simp del: Apply.simps)
qed

text \<open>
  The map after a part of the block: an entry for each address that has moved coins of the
  denomination, with the net amount.
\<close>

definition net_map :: "string \<Rightarrow> movement option list \<Rightarrow> (string \<times> int) list \<Rightarrow> bool" where
  "net_map d mvs m \<longleftrightarrow> distinct (map fst m) \<and>
     (\<forall>a. map_of m a = (if moves d mvs a then Some (received_by d mvs a - spent_by d mvs a) else None))"

lemma by_append [simp]:
  "spent_by d (xs @ ys) a = spent_by d xs a + spent_by d ys a"
  "received_by d (xs @ ys) a = received_by d xs a + received_by d ys a"
  "moves d (xs @ ys) a \<longleftrightarrow> moves d xs a \<or> moves d ys a"
  by (auto simp: spent_by_def received_by_def moves_def)

lemma by_single [simp]:
  "spent_by d [mv] a = spent_in d a mv" "received_by d [mv] a = received_in d a mv" "moves d [mv] a = moves_in d a mv"
  by (simp_all add: spent_by_def received_by_def moves_def)

lemma by_unmoved: "\<not> moves d mvs a \<Longrightarrow> spent_by d mvs a = 0 \<and> received_by d mvs a = 0"
proof (induction mvs)
  case (Cons mv mvs)
  have "spent_in d a mv = 0 \<and> received_in d a mv = 0" if "\<not> moves_in d a mv"
    using that amount_of_absent by (cases "(d, a, mv)" rule: moves_in.cases) auto
  with Cons show ?case
    by (simp add: spent_by_def received_by_def moves_def)
qed (simp add: spent_by_def received_by_def)

lemma reports_nonneg: "reports K e mv \<Longrightarrow> 0 \<le> spent_in d a mv \<and> 0 \<le> received_in d a mv"
  by (cases "(K, e, mv)" rule: reports.cases)
    (auto simp: attributes_of_def amount_of_def intro!: sum_list_nonneg)

lemma by_nonneg: "list_all2 (reports K) events mvs \<Longrightarrow> 0 \<le> spent_by d mvs a \<and> 0 \<le> received_by d mvs a"
proof (induction rule: list_all2_induct)
  case (Cons e es mv mvs)
  then show ?case
    using reports_nonneg [OF Cons.hyps(1), of d a] by (simp add: spent_by_def received_by_def)
qed (simp add: spent_by_def received_by_def)

text \<open>One event.\<close>

lemma net_update:
  assumes "net_map d mvs m" and "moves_in d a mv"
    and "(case map_of m a of None \<Rightarrow> new | Some prev \<Rightarrow> upd prev) \<in> {Ok z, sdk_int z}"
    and "z = received_by d (mvs @ [mv]) a - spent_by d (mvs @ [mv]) a"
    and "0 \<le> spent_by d (mvs @ [mv]) a" and "0 \<le> received_by d (mvs @ [mv]) a"
  shows "case coin_update a new upd m of Ok m' \<Rightarrow> net_map d (mvs @ [mv]) m' | Err err \<Rightarrow> False
    | Panic p \<Rightarrow> \<exists>a. 2 ^ 256 \<le> received_by d (mvs @ [mv]) a + spent_by d (mvs @ [mv]) a"
proof -
  obtain f where f: "coin_update a new upd m = map_ok f (case map_of m a of None \<Rightarrow> new | Some prev \<Rightarrow> upd prev)"
    "\<And>x. map_of (f x) = (map_of m)(a \<mapsto> x)" "\<And>x. distinct (map fst m) \<Longrightarrow> distinct (map fst (f x))"
    using coin_update_val [of a new upd m] by blast
  have "\<not> moves_in d b mv" if "b \<noteq> a" for b
    using assms(2) that by (cases "(d, a, mv)" rule: moves_in.cases) auto
  then have other: "spent_in d b mv = 0 \<and> received_in d b mv = 0 \<and> \<not> moves_in d b mv" if "b \<noteq> a" for b
    using by_unmoved [of d "[mv]" b] that by simp
  then have ok: "net_map d (mvs @ [mv]) (f z)"
    using assms(1,2,4) f(2,3) by (auto simp: net_map_def)
  show ?thesis
  proof (cases "coin_update a new upd m")
    case (Ok m')
    then show ?thesis
      using f(1) assms(3) ok by (auto simp: sdk_int_def map_ok_eq_Ok split: if_splits)
  next
    case (Err e)
    then show ?thesis
      using f(1) assms(3) by (auto simp: sdk_int_def split: if_splits)
  next
    case (Panic p)
    then have "\<not> \<bar>z\<bar> < 2 ^ 256"
      using f(1) assms(3) by (auto simp: sdk_int_def split: if_splits)
    then have "2 ^ 256 \<le> received_by d (mvs @ [mv]) a + spent_by d (mvs @ [mv]) a"
      using assms(4-6) by linarith
    with Panic show ?thesis by auto
  qed
qed

lemma filter_event_net:
  assumes "reports K e mv" and "net_map d mvs m" and "\<And>a. 0 \<le> spent_by d mvs a \<and> 0 \<le> received_by d mvs a"
  shows "case filter_event K d e m of Ok m' \<Rightarrow> net_map d (mvs @ [mv]) m' | Err err \<Rightarrow> False
    | Panic p \<Rightarrow> \<exists>a. 2 ^ 256 \<le> received_by d (mvs @ [mv]) a + spent_by d (mvs @ [mv]) a"
proof (cases "\<exists>a. moves_in d a mv")
  case False
  have "filter_event K d e m = Ok m"
    using assms(1) False
    by (cases "(K, e, mv)" rule: reports.cases)
      (auto simp: filter_event_def eventCoinSpent_def eventCoinReceived_def attrSpender_def attrReceiver_def
        extractChange_attributes)
  moreover have "net_map d (mvs @ [mv]) m"
    using assms(2) False by_unmoved [of d "[mv]"] by (simp add: net_map_def)
  ultimately show ?thesis by simp
next
  case True
  then obtain a where a: "moves_in d a mv" by blast
  have nonneg: "0 \<le> spent_by d (mvs @ [mv]) a" "0 \<le> received_by d (mvs @ [mv]) a"
    using assms(3) [of a] reports_nonneg [OF assms(1), of d a] by simp_all
  have old: "map_of m a = None \<Longrightarrow> received_by d mvs a = 0 \<and> spent_by d mvs a = 0"
    "map_of m a = Some prev \<Longrightarrow> prev = received_by d mvs a - spent_by d mvs a" for prev
    using assms(2) by_unmoved [of d mvs a] by (auto simp: net_map_def split: if_splits)
  have z: "received_by d (mvs @ [mv]) a - spent_by d (mvs @ [mv]) a =
      (case map_of m a of None \<Rightarrow> 0 | Some prev \<Rightarrow> prev) + received_in d a mv - spent_in d a mv"
    using old by (cases "map_of m a") simp_all
  show ?thesis
  proof (cases "(d, a, mv)" rule: moves_in.cases)
    case (1 d' a' b coins)
    then have mv: "mv = Some (Spends a coins)" and d: "d \<in> coin_Denom ` set coins"
      using a by auto
    let ?x = "amount_of d coins"
    have ev: "filter_event K d e m = coin_update a (sdk_int (0 - ?x)) (\<lambda>prev. sdk_int (prev - ?x)) m"
      using assms(1) d extractChange_attributes [of K "ae_Attributes e" "''spender''" a coins d]
      by (auto simp: mv filter_event_def eventCoinSpent_def attrSpender_def attributes_of_def)
    have val: "(case map_of m a of None \<Rightarrow> sdk_int (0 - ?x) | Some prev \<Rightarrow> sdk_int (prev - ?x)) \<in>
        {Ok (received_by d (mvs @ [mv]) a - spent_by d (mvs @ [mv]) a),
         sdk_int (received_by d (mvs @ [mv]) a - spent_by d (mvs @ [mv]) a)}"
      unfolding z by (simp add: mv split: option.split)
    show ?thesis
      unfolding ev by (rule net_update [OF assms(2) a val refl nonneg])
  next
    case (2 d' a' b coins)
    then have mv: "mv = Some (Receives a coins)" and d: "d \<in> coin_Denom ` set coins"
      using a by auto
    let ?x = "amount_of d coins"
    have ev: "filter_event K d e m = coin_update a (Ok ?x) (\<lambda>prev. sdk_int (prev + ?x)) m"
      using assms(1) d extractChange_attributes [of K "ae_Attributes e" "''receiver''" a coins d]
      by (auto simp: mv filter_event_def eventCoinSpent_def eventCoinReceived_def attrReceiver_def attributes_of_def)
    have val: "(case map_of m a of None \<Rightarrow> Ok ?x | Some prev \<Rightarrow> sdk_int (prev + ?x)) \<in>
        {Ok (received_by d (mvs @ [mv]) a - spent_by d (mvs @ [mv]) a),
         sdk_int (received_by d (mvs @ [mv]) a - spent_by d (mvs @ [mv]) a)}"
      unfolding z by (simp add: mv split: option.split)
    show ?thesis
      unfolding ev by (rule net_update [OF assms(2) a val refl nonneg])
  next
    case (3 d' a')
    then show ?thesis
      using a by simp
  qed
qed

lemma filter_events_net:
  assumes "list_all2 (reports K) events mvs" and "net_map d pre m"
    and "\<And>a. 0 \<le> spent_by d pre a \<and> 0 \<le> received_by d pre a"
  shows "case filter_events K d events m of Ok m' \<Rightarrow> net_map d (pre @ mvs) m' | Err err \<Rightarrow> False
    | Panic p \<Rightarrow> \<exists>a. 2 ^ 256 \<le> received_by d (pre @ mvs) a + spent_by d (pre @ mvs) a"
  using assms
proof (induction events mvs arbitrary: pre m rule: list_all2_induct)
  case Nil
  then show ?case by simp
next
  case (Cons e es mv mvs)
  note step = filter_event_net [OF Cons.hyps(1) Cons.prems]
  have eq: "pre @ mv # mvs = (pre @ [mv]) @ mvs" by simp
  have rest: "0 \<le> spent_by d mvs a \<and> 0 \<le> received_by d mvs a" for a
    by (rule by_nonneg [OF Cons.hyps(2)])
  show ?case
  proof (cases "filter_event K d e m")
    case (Ok m')
    have "0 \<le> spent_by d (pre @ [mv]) a \<and> 0 \<le> received_by d (pre @ [mv]) a" for a
      using Cons.prems(2) [of a] reports_nonneg [OF Cons.hyps(1), of d a] by simp
    then show ?thesis
      using Cons.IH [of "pre @ [mv]" m'] step Ok unfolding eq by simp
  next
    case (Err err)
    then show ?thesis using step by simp
  next
    case (Panic p)
    then obtain a where "2 ^ 256 \<le> received_by d (pre @ [mv]) a + spent_by d (pre @ [mv]) a"
      using step by auto
    then have "2 ^ 256 \<le> received_by d ((pre @ [mv]) @ mvs) a + spent_by d ((pre @ [mv]) @ mvs) a"
      unfolding by_append(1,2) [of d "pre @ [mv]"] using rest [of a] by linarith
    then show ?thesis
      using Panic by auto
  qed
qed

text \<open>
  C27. The changes gathered from a block are the net amounts. The events report the movements of
  coins as the bank module does, among events of other types; then there is one entry for each
  address that moved coins of the denomination, with all it received less all it spent. Only if
  the amounts of some address add up to more than 256 bits, the sum may panic; there is no error.
\<close>

theorem coin_changes_net:
  assumes "list_all2 (reports K) events mvs"
  shows "case filterCoinChanges K events d of
      Ok cs \<Rightarrow> distinct (map fst cs) \<and>
        (\<forall>a. map_of cs a = (if moves d mvs a then Some (received_by d mvs a - spent_by d mvs a) else None))
    | Err e \<Rightarrow> False
    | Panic p \<Rightarrow> \<exists>a. 2 ^ 256 \<le> received_by d mvs a + spent_by d mvs a"
  using filter_events_net [OF assms, of d "[]" "[]"]
  by (simp add: filterCoinChanges_def net_map_def moves_def spent_by_def received_by_def split: res.splits)

definition sample_movements :: "movement option list" where
  "sample_movements = [Some (Spends ''alice'' [\<lparr>coin_Denom = ''uluna'', coin_Amount = 3\<rparr>]),
     Some (Receives ''bob'' [\<lparr>coin_Denom = ''uluna'', coin_Amount = 3\<rparr>])]"

lemma sample_reports: "list_all2 (reports sample_sdk) sample_events sample_movements"
  by (simp add: sample_events_def sample_movements_def attributes_of_def sample_sdk_def eventCoinSpent_def
      eventCoinReceived_def attrSpender_def attrReceiver_def attrAmount_def)

theorem coin_changes_net_witness:
  "\<exists>cs. filterCoinChanges sample_sdk sample_events ''uluna'' = Ok cs \<and> map_of cs ''alice'' = Some (- 3) \<and>
    map_of cs ''bob'' = Some 3 \<and> map_of cs ''carol'' = None"
  using coin_changes_net [OF sample_reports, of "''uluna''"] sample_changes
  by (simp add: sample_movements_def moves_def received_by_def spent_by_def amount_of_def)

text \<open>
  C28. The list that is saved is the top of the table: from the richest entry down, the
  shortest run of entries that lists the configured number of accounts, or all of them.
\<close>

theorem extract_takes_top:
  assumes "ranking K B d good tbl" and "good (rl_Rankers list)" and "tbl (rl_Rankers list) \<noteq> Map.empty"
  shows "\<exists>ex n. Extract K B list h len None = Ok ex \<and> rl_Height ex = h \<and>
    n \<le> length (bt_Descend B (rl_Rankers list)) \<and>
    bt_Descend B (rl_Rankers ex) = take n (bt_Descend B (rl_Rankers list)) \<and>
    (n < length (bt_Descend B (rl_Rankers list)) \<longrightarrow> len \<le> rl_Count B ex) \<and>
    (\<forall>m < n. sum_list (map (\<lambda>r. length (rk_Addresses r)) (take m (bt_Descend B (rl_Rankers list)))) < len)"
proof -
  obtain ex where ex: "Extract K B list h len None = Ok ex" "rl_Height ex = h"
    "bt_Descend B (rl_Rankers ex) = take_until len 0 (bt_Descend B (rl_Rankers list))"
    using ranking.Extract_top [OF assms] by blast
  with take_until_prefix [of "bt_Descend B (rl_Rankers list)" len 0] show ?thesis
    by (auto simp: rl_Count_def)
qed

theorem extract_takes_top_witness:
  "\<exists>ex n. Extract sample_sdk list_btree sample_list 5 1 None = Ok ex \<and> rl_Height ex = 5 \<and>
    bt_Descend list_btree (rl_Rankers ex) = take n (bt_Descend list_btree (rl_Rankers sample_list)) \<and>
    (n < length (bt_Descend list_btree (rl_Rankers sample_list)) \<longrightarrow> 1 \<le> rl_Count list_btree ex) \<and>
    (\<forall>m < n. sum_list (map (\<lambda>r. length (rk_Addresses r)) (take m (bt_Descend list_btree (rl_Rankers sample_list)))) < 1)"
proof -
  have "list_good ''uluna'' (rl_Rankers sample_list)" and "table_from (rl_Rankers sample_list) \<noteq> Map.empty"
    by (simp_all add: sample_list_def list_good_def table_from_def)
  from extract_takes_top [OF sample.ranking_axioms this, of 5 1] show ?thesis by blast
qed

end
