(* ===== verification/Index_Correct.thy ===== *)
theory Index_Correct
  imports Richlist_Correct
begin

text \<open>
  The indexing service end to end: what a run writes for a block is what the REST handlers
  serve afterwards, the index functions do not touch each other's keys, and a failed run leaves
  the database as it was.
\<close>

section \<open>Runs of the service\<close>

context kv_store
begin

lemma Indexer_Run_refines:
  assumes "inv s" and "prog_ok keys iters (run_indexers (ix_indexers idx) block blockId evc g)"
  shows "case spec_prog (contents s) (run_indexers (ix_indexers idx) block blockId evc g) 0 of
      Ok ((g', None), qs, n) \<Rightarrow> \<exists>s'. Indexer_Run D idx s block blockId evc g = Returned (g', None) s' \<and>
        inv s' \<and> contents s' = apply_ops qs (contents s)
    | Ok ((g', Some e), qs, n) \<Rightarrow> Indexer_Run D idx s block blockId evc g = Returned (g', Some e) s
    | Err e \<Rightarrow> False
    | Panic e \<Rightarrow> Indexer_Run D idx s block blockId evc g = Crashed e s"
proof -
  let ?w = "NewSafeBatchDB s :: ('s, 'b) SafeBatchDB"
  let ?g = "run_indexers (ix_indexers idx) block blockId evc g"
  have w: "sb_store ?w = s"
    by (simp add: NewSafeBatchDB_def)
  have inv: "inv (sb_store ?w)"
    using assms(1) by (simp add: w)
  show ?thesis
    using inv assms(2)
  proof (cases rule: run_open_cases)
    case (ok x qs c)
    have "sb_store (fst c) = s"
      using open_client_store [OF ok(3)] w by simp
    moreover obtain w' where "sb_Flush D (\<lambda>b. None :: unit option) (fst c) = Ok (None, None, w')"
      and "inv (sb_store w')" and "contents (sb_store w') = apply_ops qs (contents s)"
      using Flush_applies [OF inv ok(3), of "\<lambda>b. None :: unit option"] w by auto
    ultimately show ?thesis
      using ok(1,2) w by (cases x) (auto simp: Indexer_Run_def split: option.split)
  next
    case (panic e qs c)
    then show ?thesis
      using open_client_store [OF panic(3)] w by (simp add: Indexer_Run_def)
  qed
qed

end

section \<open>Key spaces\<close>

definition key_space :: "bytes \<Rightarrow> bytes set" where
  "key_space p = {k. \<exists>r. k = p @ r}"

lemma key_space_nonempty: "p \<noteq> [] \<Longrightarrow> key_space p \<subseteq> - {[]}"
  by (auto simp: key_space_def)

lemma in_key_space [simp]: "p @ r \<in> key_space p"
  by (auto simp: key_space_def)

lemma ConcatBytes_append: "ConcatBytes (x # xs) = x @ ConcatBytes xs"
  by (simp add: ConcatBytes_concat)

lemma index_keys [simp]:
  "block_getKey h \<in> key_space block_prefix"
  "tx_getKey x \<in> key_space txPrefix"
  "getByHeightKey h \<in> key_space byHeightPrefix"
  "richlist_getKey h dn \<in> key_space richlist_prefix"
  by (simp_all add: block_getKey_def tx_getKey_def getByHeightKey_def richlist_getKey_def ConcatBytes_append)

lemma key_space_clash:
  assumes "i < length p" and "i < length q" and "p ! i \<noteq> q ! i"
  shows "key_space p \<inter> key_space q = {}"
proof -
  have "k ! i = p ! i" if "k \<in> key_space p" for k
    using that assms(1) by (auto simp: key_space_def nth_append)
  moreover have "k ! i = q ! i" if "k \<in> key_space q" for k
    using that assms(2) by (auto simp: key_space_def nth_append)
  ultimately show ?thesis
    using assms(3) by fastforce
qed

lemmas index_prefix_defs = block_prefix_def txPrefix_def byHeightPrefix_def richlist_prefix_def bytes_of_def

lemma index_spaces_disjoint:
  "key_space block_prefix \<inter> key_space txPrefix = {}"
  "key_space block_prefix \<inter> key_space byHeightPrefix = {}"
  "key_space block_prefix \<inter> key_space richlist_prefix = {}"
  "key_space txPrefix \<inter> key_space richlist_prefix = {}"
  "key_space byHeightPrefix \<inter> key_space richlist_prefix = {}"
  by (rule key_space_clash [of 0]; simp add: index_prefix_defs)+

lemma tx_spaces_disjoint: "key_space txPrefix \<inter> key_space byHeightPrefix = {}"
  by (rule key_space_clash [of 4]; simp add: index_prefix_defs)

section \<open>What the index functions write\<close>

lemma spec_set_then: "spec_prog m (set_then k v g next) n =
    map_ok (\<lambda>(x, qs, n'). (x, OpSet k v # qs, n')) (spec_prog m next n)"
  by (simp add: set_then_def)

lemma prog_ok_set_then [simp]: "prog_ok K it (set_then k v g next) \<longleftrightarrow> k \<in> K \<and> prog_ok K it next"
  by (auto simp: set_then_def split: db_reply.split)

lemma prog_ok_or_fail: "(\<And>x. r = Ok x \<Longrightarrow> prog_ok K it (f x)) \<Longrightarrow> prog_ok K it (or_fail g r f)"
  by (cases r) (auto simp: or_fail_def)

lemma IndexBlock_ok: "prog_ok (key_space block_prefix) False (IndexBlock M block bid evc g)"
  by (auto simp: IndexBlock_def Let_def split: res.split)

lemma set_records_ok:
  "prog_ok (key_space txPrefix \<union> key_space byHeightPrefix) False next \<Longrightarrow>
   prog_ok (key_space txPrefix \<union> key_space byHeightPrefix) False (set_records L rows g next)"
  by (induction rows) (auto split: res.split)

lemma IndexTx_ok: "prog_ok (key_space txPrefix \<union> key_space byHeightPrefix) False (IndexTx L block bid evc g)"
  by (auto simp: IndexTx_def intro!: set_records_ok split: res.split)

lemma getDefaultKey_space: "getDefaultKey cfg h = Ok k \<Longrightarrow> k \<in> key_space richlist_prefix"
  by (auto simp: getDefaultKey_def map_ok_eq_Ok)

lemma apply_block_ok: "prog_ok (key_space richlist_prefix) False (apply_block Mr K B cfg visit evc h list)"
  unfolding apply_block_def Let_def
  by (intro prog_ok_or_fail) (auto intro!: prog_ok_or_fail dest: getDefaultKey_space)

lemma IndexRichlist_ok:
  "prog_ok (key_space richlist_prefix) False (IndexRichlist Mr K B cfg visit block bid evc list)"
  by (auto simp: IndexRichlist_def Let_def apply_block_ok intro!: prog_ok_or_fail dest!: getDefaultKey_space)

lemma IndexBlock_writes:
  assumes "spec_prog m (IndexBlock M block bid evc g) n = Ok ((g', None), qs, n')"
  shows "\<exists>json. M \<lparr>br_BlockID = bid, br_Block = block\<rparr> = Ok json \<and> qs = [OpSet (block_getKey (blk_Height block)) json]"
  using assms by (auto simp: IndexBlock_def Let_def spec_set_then split: res.splits)

text \<open>The records of a block's transactions, in order, then the payload of its height.\<close>

lemma set_records_writes:
  assumes "spec_prog m (set_records L rows g next) n = Ok ((g', None), qs, n')"
    and "\<And>m n qs. spec_prog m next n = Ok ((g', None), qs, n') \<Longrightarrow> P qs"
  shows "\<exists>jsons rest. list_all2 (\<lambda>row json. tl_MarshalRecord L (fst (snd row)) = Ok json) rows jsons \<and>
    qs = map (\<lambda>(row, json). OpSet (tx_getKey (fst row)) json) (zip rows jsons) @ rest \<and> P rest"
  using assms(1)
proof (induction rows arbitrary: n qs)
  case Nil
  then show ?case
    using assms(2) by (auto intro: exI [of _ "[]"])
next
  case (Cons row rows)
  then obtain json qs1 where j: "tl_MarshalRecord L (fst (snd row)) = Ok json"
    and s: "spec_prog m (set_records L rows g next) n = Ok ((g', None), qs1, n')"
    and q: "qs = OpSet (tx_getKey (fst row)) json # qs1"
    by (auto simp: spec_set_then map_ok_eq_Ok split: res.splits)
  from Cons.IH [OF s] obtain jsons rest where
    "list_all2 (\<lambda>row json. tl_MarshalRecord L (fst (snd row)) = Ok json) rows jsons"
    "qs1 = map (\<lambda>(row, json). OpSet (tx_getKey (fst row)) json) (zip rows jsons) @ rest" "P rest"
    by blast
  with j q show ?case
    by (intro exI [of _ "json # jsons"] exI [of _ rest]) simp
qed

lemma IndexTx_writes:
  assumes "spec_prog m (IndexTx L block bid evc g) n = Ok ((g', None), qs, n')"
  shows "\<exists>rows jsons json. tx_rows L block evc 0 (blk_Txs block) = Ok rows \<and>
    list_all2 (\<lambda>row json. tl_MarshalRecord L (fst (snd row)) = Ok json) rows jsons \<and>
    tl_MarshalByHeight L (map (\<lambda>row. snd (snd row)) rows) = Ok json \<and>
    qs = map (\<lambda>(row, json). OpSet (tx_getKey (fst row)) json) (zip rows jsons) @
      [OpSet (getByHeightKey (blk_Height block)) json]"
proof -
  obtain rows where rows: "tx_rows L block evc 0 (blk_Txs block) = Ok rows"
    using assms by (auto simp: IndexTx_def split: res.splits)
  let ?next = "case tl_MarshalByHeight L (map (\<lambda>row. snd (snd row)) rows) of
      Err e \<Rightarrow> Done (g, Some e) | Panic p \<Rightarrow> Abort p
    | Ok byHeightJSON \<Rightarrow> set_then (getByHeightKey (blk_Height block)) byHeightJSON g (Done (g, None))"
  let ?P = "\<lambda>qs. \<exists>json. tl_MarshalByHeight L (map (\<lambda>row. snd (snd row)) rows) = Ok json \<and>
      qs = [OpSet (getByHeightKey (blk_Height block)) json]"
  have "spec_prog m (set_records L rows g ?next) n = Ok ((g', None), qs, n')"
    using assms rows by (simp add: IndexTx_def)
  moreover have "?P qs'" if "spec_prog m' ?next k = Ok ((g', None), qs', n')" for m' k qs'
    using that by (auto simp: spec_set_then split: res.splits)
  ultimately obtain jsons rest where
    "list_all2 (\<lambda>row json. tl_MarshalRecord L (fst (snd row)) = Ok json) rows jsons"
    "qs = map (\<lambda>(row, json). OpSet (tx_getKey (fst row)) json) (zip rows jsons) @ rest" "?P rest"
    using set_records_writes [of m L rows g ?next n g' qs n' ?P] by metis
  with rows show ?thesis by blast
qed

section \<open>The service of the node\<close>

text \<open>The indexers \<open>sync.go\<close> registers, in its order.\<close>

definition node_indexer ::
  "'tx tx_library \<Rightarrow> ('x BlockRecord \<Rightarrow> bytes res) \<Rightarrow> ('x, 'g) IndexFunc \<Rightarrow> ('x, 'g) Indexer" where
  "node_indexer L M R =
     RegisterIndexerService (RegisterIndexerService (RegisterIndexerService
       \<lparr>ix_indexerTags = [], ix_indexers = []\<rparr> ''tx'' (CreateIndexer (IndexTx L)))
       ''block'' (CreateIndexer (IndexBlock M))) ''richlist'' (CreateIndexer R)"

definition index_keyspace :: "bytes set" where
  "index_keyspace = key_space txPrefix \<union> key_space byHeightPrefix \<union> key_space block_prefix \<union>
     key_space richlist_prefix"

lemma index_keyspace_nonempty: "index_keyspace \<subseteq> - {[]}"
  by (auto simp: index_keyspace_def key_space_def index_prefix_defs)

lemma node_indexer_list [simp]: "ix_indexers (node_indexer L M R) = [IndexTx L, IndexBlock M, R]"
  by (simp add: node_indexer_def RegisterIndexerService_def CreateIndexer_def)

lemma served_key:
  "block_getKey h \<in> index_keyspace" "getByHeightKey h \<in> index_keyspace" "tx_getKey x \<in> index_keyspace"
  "block_getKey h \<notin> key_space richlist_prefix" "getByHeightKey h \<notin> key_space richlist_prefix"
  "tx_getKey x \<notin> key_space richlist_prefix"
  using index_spaces_disjoint(3-5) index_keys(1) [of h] index_keys(2) [of x] index_keys(3) [of h]
  by (simp_all add: index_keyspace_def disjoint_iff)

lemma served_key_distinct:
  "getByHeightKey h \<noteq> block_getKey h'" "tx_getKey x \<noteq> getByHeightKey h" "tx_getKey x \<noteq> block_getKey h'"
  using index_spaces_disjoint(1,2) tx_spaces_disjoint index_keys(1) [of h'] index_keys(2) [of x] index_keys(3) [of h]
  unfolding disjoint_iff by metis+

text \<open>An index function that writes only keys of a set and does not iterate.\<close>

definition stays_in :: "bytes set \<Rightarrow> ('x, 'g) IndexFunc \<Rightarrow> bool" where
  "stays_in K f \<longleftrightarrow> (\<forall>block bid evc g. prog_ok K False (f block bid evc g))"

lemma IndexRichlist_stays_in: "stays_in (key_space richlist_prefix) (IndexRichlist Mr K B cfg visit)"
  by (simp add: stays_in_def IndexRichlist_ok)

lemma node_indexers_ok:
  assumes "stays_in (key_space richlist_prefix) R"
  shows "prog_ok (- {[]}) False (run_indexers (ix_indexers (node_indexer L M R)) block bid evc g)"
proof -
  have "prog_ok index_keyspace False (IndexTx L block bid evc g)"
    by (rule prog_ok_mono [OF IndexTx_ok]) (auto simp: index_keyspace_def)
  moreover have "prog_ok index_keyspace False (IndexBlock M block bid evc g)" for g
    by (rule prog_ok_mono [OF IndexBlock_ok]) (auto simp: index_keyspace_def)
  moreover have "prog_ok index_keyspace False (R block bid evc g)" for g
    by (rule prog_ok_mono [where K = "key_space richlist_prefix"])
       (use assms in \<open>auto simp: index_keyspace_def stays_in_def\<close>)
  ultimately have "prog_ok index_keyspace False (run_indexers (ix_indexers (node_indexer L M R)) block bid evc g)"
    by (auto intro!: prog_ok_bind split: option.split)
  then show ?thesis
    by (rule prog_ok_mono) (rule index_keyspace_nonempty)
qed

text \<open>What the whole run writes.\<close>

lemma node_run_writes:
  assumes "stays_in (key_space richlist_prefix) R"
    and "spec_prog m (run_indexers (ix_indexers (node_indexer L M R)) block bid evc g) 0 = Ok ((g', None), qs, n)"
  shows "\<exists>rows jsons byHeight json rest. tx_rows L block evc 0 (blk_Txs block) = Ok rows \<and>
    list_all2 (\<lambda>row json. tl_MarshalRecord L (fst (snd row)) = Ok json) rows jsons \<and>
    tl_MarshalByHeight L (map (\<lambda>row. snd (snd row)) rows) = Ok byHeight \<and>
    M \<lparr>br_BlockID = bid, br_Block = block\<rparr> = Ok json \<and> op_key ` set rest \<subseteq> key_space richlist_prefix \<and>
    qs = map (\<lambda>(row, json). OpSet (tx_getKey (fst row)) json) (zip rows jsons) @
      [OpSet (getByHeightKey (blk_Height block)) byHeight, OpSet (block_getKey (blk_Height block)) json] @ rest"
proof -
  from assms(2) obtain g1 q1 n1 g2 q2 n2 q3 where
    1: "spec_prog m (IndexTx L block bid evc g) 0 = Ok ((g1, None), q1, n1)"
    and 2: "spec_prog m (IndexBlock M block bid evc g1) n1 = Ok ((g2, None), q2, n2)"
    and 3: "spec_prog m (R block bid evc g2) n2 = Ok ((g', None), q3, n)" and qs: "qs = q1 @ q2 @ q3"
    by (auto simp: spec_bind_prog bind_res_eq_Ok map_ok_eq_Ok split: option.splits)
  have "op_key ` set q3 \<subseteq> key_space richlist_prefix"
    using spec_prog_keys [OF _ 3, of "key_space richlist_prefix" False] assms(1) by (simp add: stays_in_def)
  with IndexTx_writes [OF 1] IndexBlock_writes [OF 2] qs show ?thesis
    by fastforce
qed

lemma apply_sets:
  "distinct (map fst kvs) \<Longrightarrow> (k, v) \<in> set kvs \<Longrightarrow> apply_ops (map (\<lambda>(k, v). OpSet k v) kvs) m k = Some v"
proof (induction kvs arbitrary: m)
  case (Cons kv kvs)
  then show ?case
    by (cases "kv = (k, v)") (auto simp: apply_op_def apply_ops_other image_image case_prod_beta')
qed simp

lemma tx_getKey_inject: "tx_getKey a = tx_getKey b \<longleftrightarrow> a = b"
  by (simp add: tx_getKey_def ConcatBytes_append ConcatBytes_def bytes_of_inject)

context snappy_session
begin

lemma node_run_contents:
  assumes "all_readable C y (contents s)" and "stays_in (key_space richlist_prefix) R"
    and "Indexer_Run (snappy_db C S y) (node_indexer L M R) s block bid evc g = Returned (g', None) s'"
  shows "\<exists>qs n. spec_prog (unpacked C (contents s))
      (run_indexers (ix_indexers (node_indexer L M R)) block bid evc g) 0 = Ok ((g', None), qs, n) \<and>
    all_readable C y (contents s') \<and> unpacked C (contents s') = apply_ops qs (unpacked C (contents s))"
  using compressed.Indexer_Run_refines [of s "node_indexer L M R" block bid evc g,
      OF assms(1) node_indexers_ok [OF assms(2)]] assms(3)
  by (auto split: res.splits option.splits prod.splits)

lemma node_run_unchanged:
  assumes "all_readable C y (contents s)" and "stays_in (key_space richlist_prefix) R"
  shows "Indexer_Run (snappy_db C S y) (node_indexer L M R) s block bid evc g = Returned (g', Some e) s' \<Longrightarrow> s' = s"
    and "Indexer_Run (snappy_db C S y) (node_indexer L M R) s block bid evc g = Crashed e s' \<Longrightarrow> s' = s"
  using compressed.Indexer_Run_refines [of s "node_indexer L M R" block bid evc g,
      OF assms(1) node_indexers_ok [OF assms(2)]]
  by (auto split: res.splits option.splits prod.splits)

lemma node_run_served:
  assumes "all_readable C y (contents s)" and "stays_in (key_space richlist_prefix) R"
    and "Indexer_Run (snappy_db C S y) (node_indexer L M R) s block bid evc g = Returned (g', None) s'"
  shows "\<exists>json s''. M \<lparr>br_BlockID = bid, br_Block = block\<rparr> = Ok json \<and>
      snappy_Get C S y s' (block_getKey (blk_Height block)) = Ok (Some json, s'')"
    and "\<exists>rows json s''. tx_rows L block evc 0 (blk_Txs block) = Ok rows \<and>
      tl_MarshalByHeight L (map (\<lambda>row. snd (snd row)) rows) = Ok json \<and>
      snappy_Get C S y s' (getByHeightKey (blk_Height block)) = Ok (Some json, s'')"
    and "tx_rows L block evc 0 (blk_Txs block) = Ok rows \<Longrightarrow> distinct (map fst rows) \<Longrightarrow> row \<in> set rows \<Longrightarrow>
      \<exists>json s''. tl_MarshalRecord L (fst (snd row)) = Ok json \<and>
        snappy_Get C S y s' (tx_getKey (fst row)) = Ok (Some json, s'')"
proof -
  obtain qs n where spec: "spec_prog (unpacked C (contents s))
      (run_indexers (ix_indexers (node_indexer L M R)) block bid evc g) 0 = Ok ((g', None), qs, n)"
    and r: "all_readable C y (contents s')" and c: "unpacked C (contents s') = apply_ops qs (unpacked C (contents s))"
    using node_run_contents [OF assms] by blast
  have get: "\<exists>s''. snappy_Get C S y s' k = Ok (apply_ops qs (unpacked C (contents s)) k, s'')"
    if "k \<in> index_keyspace" for k
    using snappy_Get_read [OF r, of k] index_keyspace_nonempty that unfolding c by blast
  obtain rows' jsons byHeight json rest where rows': "tx_rows L block evc 0 (blk_Txs block) = Ok rows'"
    and jsons: "list_all2 (\<lambda>row json. tl_MarshalRecord L (fst (snd row)) = Ok json) rows' jsons"
    and bh: "tl_MarshalByHeight L (map (\<lambda>row. snd (snd row)) rows') = Ok byHeight"
    and json: "M \<lparr>br_BlockID = bid, br_Block = block\<rparr> = Ok json"
    and rest: "op_key ` set rest \<subseteq> key_space richlist_prefix"
    and qs: "qs = map (\<lambda>(row, json). OpSet (tx_getKey (fst row)) json) (zip rows' jsons) @
      [OpSet (getByHeightKey (blk_Height block)) byHeight, OpSet (block_getKey (blk_Height block)) json] @ rest"
    using node_run_writes [OF assms(2) spec] by blast
  have tail: "apply_ops (ps @ rest) m k = apply_ops ps m k" if "k \<in> index_keyspace - key_space richlist_prefix" for ps m k
    using rest that by (auto intro!: apply_ops_other)
  let ?txs = "map (\<lambda>(row, json). OpSet (tx_getKey (fst row)) json) (zip rows' jsons)"
  let ?hk = "getByHeightKey (blk_Height block)" and ?bk = "block_getKey (blk_Height block)"
  have at: "\<exists>s''. snappy_Get C S y s' k =
      Ok (apply_ops (?txs @ [OpSet ?hk byHeight, OpSet ?bk json]) (unpacked C (contents s)) k, s'')"
    if "k \<in> index_keyspace" "k \<notin> key_space richlist_prefix" for k
    using get [OF that(1)] tail [of k "?txs @ [OpSet ?hk byHeight, OpSet ?bk json]"] that by (simp add: qs)
  show "\<exists>json s''. M \<lparr>br_BlockID = bid, br_Block = block\<rparr> = Ok json \<and>
      snappy_Get C S y s' ?bk = Ok (Some json, s'')"
    and "\<exists>rows json s''. tx_rows L block evc 0 (blk_Txs block) = Ok rows \<and>
      tl_MarshalByHeight L (map (\<lambda>row. snd (snd row)) rows) = Ok json \<and>
      snappy_Get C S y s' ?hk = Ok (Some json, s'')"
    using at [of ?bk] at [of ?hk] json bh rows' served_key served_key_distinct by (auto simp: apply_op_def)
  assume "tx_rows L block evc 0 (blk_Txs block) = Ok rows" and dist: "distinct (map fst rows)" and "row \<in> set rows"
  then have "row \<in> set rows'" and dist: "distinct (map fst rows')"
    using rows' by simp_all
  then obtain i where i: "i < length rows'" "row = rows' ! i"
    by (auto simp: in_set_conv_nth)
  then obtain j where j: "(row, j) \<in> set (zip rows' jsons)" and mj: "tl_MarshalRecord L (fst (snd row)) = Ok j"
    using jsons by (intro that [of "jsons ! i"]) (auto simp: list_all2_conv_all_nth in_set_zip)
  let ?kvs = "map (\<lambda>(row, json). (tx_getKey (fst row), json)) (zip rows' jsons)"
  have "map fst ?kvs = map tx_getKey (map fst (take (length jsons) rows'))"
    by (induction rows' jsons rule: list_induct2') auto
  then have "distinct (map fst ?kvs)"
    using dist jsons by (simp add: list_all2_lengthD distinct_map inj_on_def tx_getKey_inject)
  moreover have "(tx_getKey (fst row), j) \<in> set ?kvs"
    using j by force
  moreover have "?txs = map (\<lambda>(k, v). OpSet k v) ?kvs"
    by (simp add: case_prod_beta')
  ultimately have "apply_ops ?txs m (tx_getKey (fst row)) = Some j" for m
    using apply_sets by metis
  then show "\<exists>json s''. tl_MarshalRecord L (fst (snd row)) = Ok json \<and>
      snappy_Get C S y s' (tx_getKey (fst row)) = Ok (Some json, s'')"
    using at [of "tx_getKey (fst row)"] mj served_key served_key_distinct by (auto simp: apply_op_def)
qed

end

section \<open>Sample data\<close>

definition sample_tx_library :: "bytes tx_library" where
  "sample_tx_library = \<lparr>tl_Hash = (\<lambda>t. t), tl_Decode = Ok, tl_JSON = (\<lambda>t. t),
     tl_MarshalResponse = (\<lambda>r. Ok (rd_Data r)), tl_MarshalRecord = (\<lambda>r. Ok (123 # tr_Tx r @ tr_TxResponse r)),
     tl_MarshalByHeight = (\<lambda>rs. Ok (91 # concat (map th_Tx rs)))\<rparr>"

definition sample_result :: "byte \<Rightarrow> abci_deliver_tx" where
  "sample_result x = \<lparr>dt_Code = 0, dt_Data = [x], dt_Log = [], dt_Info = [], dt_GasWanted = 0, dt_GasUsed = 0,
     dt_Events = [], dt_Codespace = []\<rparr>"

definition sample_tm_block :: "unit tm_block" where
  "sample_tm_block = \<lparr>blk_Height = 3, blk_AppHash = [], blk_Time = 0, blk_Txs = [[1], [2]], blk_rest = ()\<rparr>"

definition sample_block_id :: "block_id option" where
  "sample_block_id = Some \<lparr>bid_Hash = [], bid_PartSetHeader = []\<rparr>"

definition sample_collector :: "unit EventCollector" where
  "sample_collector = publish_all [EventTx (sample_result 7), EventTx (sample_result 8)] NewMantlemintEventCollector"

definition sample_snappy :: SnappyDB where
  "sample_snappy = NewSnappyDB CompatModeEnabled"

text \<open>A run on an empty database with the rich list switched off; \<open>M\<close> encodes blocks.\<close>

definition sample_run :: "(unit BlockRecord \<Rightarrow> bytes res) \<Rightarrow>
  (Ranker list Richlist \<times> string option, mem_store) run" where
  "sample_run M = Indexer_Run (snappy_db sample_codec mem_db sample_snappy)
     (node_indexer sample_tx_library M (IndexRichlist (\<lambda>j. Ok []) sample_sdk list_btree
       \<lparr>rc_Length = 0, rc_Threshold = None\<rparr> (\<lambda>x. x)))
     [] sample_tm_block sample_block_id sample_collector sample_list"

primrec run_value :: "('a, 'c) run \<Rightarrow> 'a option" where
  "run_value (Returned x c) = Some x"
| "run_value (Crashed p c) = None"

lemma sample_run_ok: "\<exists>g' s'. sample_run (\<lambda>r. Ok [66, 76]) = Returned (g', None) s'"
proof -
  have "map_option snd (run_value (sample_run (\<lambda>r. Ok [66, 76]))) = Some None"
    by code_simp
  then show ?thesis
    by (cases "sample_run (\<lambda>r. Ok [66, 76])") auto
qed

lemma sample_run_fails: "\<exists>g' s'. sample_run (\<lambda>r. Err ''json'') = Returned (g', Some ''json'') s'"
proof -
  have "map_option snd (run_value (sample_run (\<lambda>r. Err ''json''))) = Some (Some ''json'')"
    by code_simp
  then show ?thesis
    by (cases "sample_run (\<lambda>r. Err ''json'')") auto
qed

lemma sample_readable: "all_readable sample_codec sample_snappy (mem_contents [])"
  by (simp add: all_readable_def mem_contents_def ran_def)

lemma sample_height: "Atoi ''3'' = Ok 3" "word_of_int 3 = blk_Height sample_tm_block"
  by code_simp (simp add: sample_tm_block_def)

definition sample_row :: "byte \<Rightarrow> byte \<Rightarrow> string \<times> TxRecord \<times> TxByHeightRecord" where
  "sample_row t x = (Sprintf_X [t], \<lparr>tr_Tx = [t], tr_TxResponse = [x]\<rparr>,
     \<lparr>th_Code = 0, th_Codespace = [], th_GasUsed = 0, th_GasWanted = 0, th_Height = 3, th_RawLog = [],
      th_Logs = [], th_TxHash = Sprintf_X [t], th_Timestamp = 0, th_Tx = [t]\<rparr>)"

lemma sample_rows:
  "tx_rows sample_tx_library sample_tm_block sample_collector 0 (blk_Txs sample_tm_block) =
    Ok [sample_row 1 7, sample_row 2 8]"
  "distinct (map fst [sample_row 1 7, sample_row 2 8])" "sample_row 2 8 \<in> set [sample_row 1 7, sample_row 2 8]"
  by code_simp+

lemma sample_row_hash: "Sprintf_X [2] = ''02''"
  by code_simp

section \<open>Properties\<close>

text \<open>
  C9. After a successful run of the node's indexers on a block, the block route serves, for
  every decimal string that denotes the block's height, exactly the JSON of the block.
\<close>

theorem indexed_block_is_served:
  assumes "snappy_session S contents pending C" and "all_readable C y (contents s)"
    and "Indexer_Run (snappy_db C S y) (node_indexer L M (IndexRichlist Mr K B cfg visit)) s block bid evc g =
      Returned (g', None) s'"
    and "Atoi hs = Ok n" and "word_of_int n = blk_Height block"
  shows "\<exists>json s''. M \<lparr>br_BlockID = bid, br_Block = block\<rparr> = Ok json \<and>
    block_route C S y s' (Some hs) = Ok (http_OK json, s'')"
  using snappy_session.node_run_served(1) [OF assms(1,2) IndexRichlist_stays_in assms(3)] assms(4,5)
  by (auto simp: block_route_def blockByHeightHandler_def)

theorem indexed_block_is_served_witness:
  "\<exists>g' s' s''. sample_run (\<lambda>r. Ok [66, 76]) = Returned (g', None) s' \<and>
    block_route sample_codec mem_db sample_snappy s' (Some ''3'') = Ok (http_OK [66, 76], s'')"
proof -
  obtain g' s' where r: "sample_run (\<lambda>r. Ok [66, 76]) = Returned (g', None) s'"
    using sample_run_ok by blast
  from indexed_block_is_served [OF mem_snappy.snappy_session_axioms sample_readable
      this [unfolded sample_run_def] sample_height] r
  show ?thesis by auto
qed

text \<open>
  C24. The transactions of an indexed block are served: by height as the list of their entries
  in block order, and by hash, when no two of them share a hash, each with its own record.
\<close>

theorem indexed_txs_are_served:
  assumes "snappy_session S contents pending C" and "all_readable C y (contents s)"
    and "Indexer_Run (snappy_db C S y) (node_indexer L M (IndexRichlist Mr K B cfg visit)) s block bid evc g =
      Returned (g', None) s'"
    and "Atoi hs = Ok n" and "word_of_int n = blk_Height block"
    and "tx_rows L block evc 0 (blk_Txs block) = Ok rows" and "distinct (map fst rows)" and "row \<in> set rows"
  shows "\<exists>json s1 rowjson s2.
    tl_MarshalByHeight L (map (\<lambda>row. snd (snd row)) rows) = Ok json \<and>
    tx_height_route C S y s' (Some hs) = Ok (http_OK json, s1) \<and>
    tl_MarshalRecord L (fst (snd row)) = Ok rowjson \<and>
    tx_hash_route C S y s' (Some (fst row)) = Ok (http_OK rowjson, s2)"
proof -
  note served = snappy_session.node_run_served [OF assms(1,2) IndexRichlist_stays_in assms(3)]
  obtain json s1 where "tl_MarshalByHeight L (map (\<lambda>row. snd (snd row)) rows) = Ok json"
    and "snappy_Get C S y s' (getByHeightKey (blk_Height block)) = Ok (Some json, s1)"
    using served(2) assms(6) by auto
  moreover obtain rowjson s2 where "tl_MarshalRecord L (fst (snd row)) = Ok rowjson"
    and "snappy_Get C S y s' (tx_getKey (fst row)) = Ok (Some rowjson, s2)"
    using served(3) [OF assms(6-8)] by blast
  ultimately show ?thesis
    using assms(4,5)
    by (simp add: tx_height_route_def txsByHeightHandler_def tx_hash_route_def txByHashHandler_def)
qed

theorem indexed_txs_are_served_witness:
  "\<exists>g' s' s1 s2. sample_run (\<lambda>r. Ok [66, 76]) = Returned (g', None) s' \<and>
    tx_height_route sample_codec mem_db sample_snappy s' (Some ''3'') = Ok (http_OK [91, 1, 2], s1) \<and>
    tx_hash_route sample_codec mem_db sample_snappy s' (Some ''02'') = Ok (http_OK [123, 2, 8], s2)"
proof -
  obtain g' s' where r: "sample_run (\<lambda>r. Ok [66, 76]) = Returned (g', None) s'"
    using sample_run_ok by blast
  from indexed_txs_are_served [OF mem_snappy.snappy_session_axioms sample_readable
      this [unfolded sample_run_def] sample_height sample_rows] r
  show ?thesis by (force simp: sample_tx_library_def sample_row_def sample_row_hash)
qed

text \<open>
  C25. A run that fails, with an error of an index function or with a panic, leaves the indexer
  database exactly as it was.
\<close>

theorem failed_index_run_writes_nothing:
  assumes "snappy_session S contents pending C" and "all_readable C y (contents s)"
    and "Indexer_Run (snappy_db C S y) (node_indexer L M (IndexRichlist Mr K B cfg visit)) s block bid evc g = r"
    and "r = Returned (g', Some e) s' \<or> r = Crashed p s'"
  shows "s' = s"
  using assms(4)
proof
  assume "r = Returned (g', Some e) s'"
  with assms(3) show ?thesis
    using snappy_session.node_run_unchanged(1) [OF assms(1,2) IndexRichlist_stays_in] by metis
next
  assume "r = Crashed p s'"
  with assms(3) show ?thesis
    using snappy_session.node_run_unchanged(2) [OF assms(1,2) IndexRichlist_stays_in] by metis
qed

theorem failed_index_run_writes_nothing_witness:
  "\<exists>g'. sample_run (\<lambda>r. Err ''json'') = Returned (g', Some ''json'') []"
proof -
  obtain g' s' where r: "sample_run (\<lambda>r. Err ''json'') = Returned (g', Some ''json'') s'"
    using sample_run_fails by blast
  then have "s' = []"
    by (intro failed_index_run_writes_nothing [OF mem_snappy.snappy_session_axioms sample_readable
          r [unfolded sample_run_def]]) simp
  with r show ?thesis by blast
qed

end
