(* ===== verification/Mantlemint.thy ===== *)
theory Mantlemint
  imports Node_Store Event_Collector
begin

text \<open>
  \<open>src/mantlemint/reactor.go\<close>: the instance that applies blocks. Tendermint's executor, state
  store and handshaker are library code; as far as this program is concerned they are clients of
  the database, so they enter as programs over it (\<open>tm_library\<close>). The mutex is never used.
\<close>

section \<open>Definitions\<close>

text \<open>The state of tendermint, with the fields the code reads or writes.\<close>

record 'm tm_state =
  st_AppHash :: bytes
  st_LastBlockHeight :: int64
  st_InitialHeight :: int64
  st_LastResultsHash :: bytes
  st_rest :: 'm

text \<open>
  Library code: the hash and the part set header of a block, the executor, which reports the
  events it published and its result, the state store, the genesis state, the handshaker's
  replay, and the merkle hash of no items.
\<close>

record ('m, 'x, 'gen) tm_library =
  tm_Hash :: "'x tm_block \<Rightarrow> bytes"
  tm_PartSetHeader :: "'x tm_block \<Rightarrow> bytes"
  tm_ApplyBlock :: "'m tm_state \<Rightarrow> block_id \<Rightarrow> 'x tm_block \<Rightarrow>
    ('x tm_event list \<times> ('m tm_state \<times> int64 + string)) prog"
  tm_LoadState :: "('m tm_state + string) prog"
  tm_MakeGenesisState :: "'gen \<Rightarrow> 'm tm_state + string"
  tm_ReplayBlocks :: "'m tm_state \<Rightarrow> 'gen \<Rightarrow> string option prog"
  tm_EmptyHash :: bytes

type_synonym 'x CallbackBefore = "'x tm_block \<Rightarrow> string option"
type_synonym 'x CallbackAfter = "'x tm_block \<Rightarrow> 'x EventCollector \<Rightarrow> string option"

record ('m, 'x) Instance =
  mm_lastState :: "'m tm_state"
  mm_lastHeight :: int64
  mm_lastBlock :: "'x tm_block option"
  mm_evc :: "'x EventCollector option"
  mm_runBefore :: "'x CallbackBefore option"
  mm_runAfter :: "'x CallbackAfter option"

definition NewMantlemint ::
  "('m, 'x, 'gen) tm_library \<Rightarrow> 'x CallbackBefore option \<Rightarrow> 'x CallbackAfter option \<Rightarrow> ('m, 'x) Instance prog" where
  "NewMantlemint T runBefore runAfter =
     bind_prog (tm_LoadState T) (\<lambda>r. case r of
         Inr err \<Rightarrow> Abort err
       | Inl lastState \<Rightarrow> Done
           \<lparr>mm_lastState = lastState, mm_lastHeight = st_LastBlockHeight lastState, mm_lastBlock = None,
            mm_evc = None, mm_runBefore = runBefore, mm_runAfter = runAfter\<rparr>)"

definition mm_Init ::
  "('m, 'x, 'gen) tm_library \<Rightarrow> ('m, 'x) Instance \<Rightarrow> 'gen \<Rightarrow> (('m, 'x) Instance \<times> string option) prog" where
  "mm_Init T mm genesis =
     (if mm_lastHeight mm = 0 then
        (case tm_MakeGenesisState T genesis of
           Inr err \<Rightarrow> Done (mm, Some err)
         | Inl genstate \<Rightarrow>
             let mm' = mm\<lparr>mm_lastState := genstate\<rparr> in
             bind_prog (tm_ReplayBlocks T (mm_lastState mm') genesis) (\<lambda>err. Done (mm', err)))
      else Done (mm, None))"

definition LoadInitialState ::
  "('m, 'x, 'gen) tm_library \<Rightarrow> ('m, 'x) Instance \<Rightarrow> (('m, 'x) Instance \<times> string option) prog" where
  "LoadInitialState T mm =
     bind_prog (tm_LoadState T) (\<lambda>r. case r of
         Inr err \<Rightarrow> Done (mm, Some err)
       | Inl lastState \<Rightarrow>
           let mm' = mm\<lparr>mm_lastState := lastState\<rparr> in
           Done (if mm_lastHeight mm' = 0
                 then mm'\<lparr>mm_lastState := (mm_lastState mm')\<lparr>st_LastResultsHash := tm_EmptyHash T\<rparr>\<rparr>
                 else mm', None))"

definition safeRunBefore :: "('m, 'x) Instance \<Rightarrow> 'x tm_block \<Rightarrow> string option" where
  "safeRunBefore mm block = (case mm_runBefore mm of Some f \<Rightarrow> f block | None \<Rightarrow> None)"

text \<open>The guard looks at \<open>runBefore\<close>, not at \<open>runAfter\<close>; calling a nil function panics.\<close>

definition safeRunAfter :: "('m, 'x) Instance \<Rightarrow> 'x tm_block \<Rightarrow> 'x EventCollector \<Rightarrow> string option res" where
  "safeRunAfter mm block events =
     (if mm_runBefore mm \<noteq> None then
        (case mm_runAfter mm of Some f \<Rightarrow> Ok (f block events) | None \<Rightarrow> Panic nil_deref)
      else Ok None)"

definition Inject ::
  "('m, 'x, 'gen) tm_library \<Rightarrow> ('m, 'x) Instance \<Rightarrow> 'x tm_block \<Rightarrow> (('m, 'x) Instance \<times> string option) prog" where
  "Inject T mm block =
     (let blockID = \<lparr>bid_Hash = tm_Hash T block, bid_PartSetHeader = tm_PartSetHeader T block\<rparr>;
          currentState = (mm_lastState mm)\<lparr>st_AppHash := blk_AppHash block\<rparr>;
          mm1 = mm\<lparr>mm_evc := Some NewMantlemintEventCollector\<rparr>
      in case safeRunBefore mm1 block of
           Some runBeforeErr \<Rightarrow> Done (mm1, Some runBeforeErr)
         | None \<Rightarrow>
             bind_prog (tm_ApplyBlock T currentState blockID block) (\<lambda>(events, result).
               let evc = publish_all events NewMantlemintEventCollector;
                   mm2 = mm1\<lparr>mm_evc := Some evc\<rparr>
               in case result of
                    Inr err \<Rightarrow> Done (mm2, Some err)
                  | Inl (nextState, retainHeight) \<Rightarrow>
                      let mm3 = mm2\<lparr>mm_lastBlock := Some block, mm_lastState := nextState,
                                    mm_lastHeight := retainHeight\<rparr>
                      in case safeRunAfter mm3 block evc of
                           Ok runAfterErr \<Rightarrow> Done (mm3, runAfterErr)
                         | Err e \<Rightarrow> Abort e
                         | Panic p \<Rightarrow> Abort p))"

definition GetCurrentHeight :: "('m, 'x) Instance \<Rightarrow> int64" where
  "GetCurrentHeight mm =
     (if st_LastBlockHeight (mm_lastState mm) \<noteq> 0 then st_LastBlockHeight (mm_lastState mm)
      else st_InitialHeight (mm_lastState mm) - 1)"

definition GetCurrentBlock :: "('m, 'x) Instance \<Rightarrow> 'x tm_block option" where
  "GetCurrentBlock mm = mm_lastBlock mm"

definition GetCurrentState :: "('m, 'x) Instance \<Rightarrow> 'm tm_state" where
  "GetCurrentState mm = mm_lastState mm"

definition GetCurrentEventCollector :: "('m, 'x) Instance \<Rightarrow> 'x EventCollector option" where
  "GetCurrentEventCollector mm = mm_evc mm"

text \<open>The executor of the instance is the field \<open>tm_ApplyBlock\<close> of the library record.\<close>

definition SetBlockExecutor ::
  "('m, 'x, 'gen) tm_library \<Rightarrow>
   ('m tm_state \<Rightarrow> block_id \<Rightarrow> 'x tm_block \<Rightarrow> ('x tm_event list \<times> ('m tm_state \<times> int64 + string)) prog) \<Rightarrow>
   ('m, 'x, 'gen) tm_library" where
  "SetBlockExecutor T nextBlockExecutor = T\<lparr>tm_ApplyBlock := nextBlockExecutor\<rparr>"

section \<open>Properties\<close>

text \<open>
  C26. What \<open>Inject\<close> returns, on every database and for every executor, when no callbacks are
  installed: the executor gets the last state with the block's application hash; on an error the
  instance keeps its state and block, on success it takes the executor's; the event collector
  holds exactly this block's events.
\<close>

theorem Inject_result:
  assumes "mm_runBefore mm = None"
    and "run_prog D (tm_ApplyBlock T ((mm_lastState mm)\<lparr>st_AppHash := blk_AppHash block\<rparr>)
      \<lparr>bid_Hash = tm_Hash T block, bid_PartSetHeader = tm_PartSetHeader T block\<rparr> block) c =
      Returned (events, result) c'"
  shows "\<exists>mm'. run_prog D (Inject T mm block) c =
      Returned (mm', case result of Inl _ \<Rightarrow> None | Inr err \<Rightarrow> Some err) c' \<and>
    mm_evc mm' = Some (publish_all events NewMantlemintEventCollector) \<and>
    (case result of
       Inl (next, retain) \<Rightarrow> mm_lastState mm' = next \<and> mm_lastBlock mm' = Some block \<and> mm_lastHeight mm' = retain
     | Inr err \<Rightarrow> mm_lastState mm' = mm_lastState mm \<and> mm_lastBlock mm' = mm_lastBlock mm \<and>
         mm_lastHeight mm' = mm_lastHeight mm)"
  using assms
  by (auto simp: Inject_def Let_def safeRunBefore_def safeRunAfter_def run_bind_prog split: sum.split)

definition sample_tm_library :: "(unit, unit, unit) tm_library" where
  "sample_tm_library = \<lparr>tm_Hash = (\<lambda>b. [1]), tm_PartSetHeader = (\<lambda>b. [2]),
     tm_ApplyBlock = (\<lambda>st bid b. Call (CallSet [97] (st_AppHash st)) (\<lambda>r.
       Done ([EventNewBlock b \<lparr>br_Events = []\<rparr> \<lparr>br_Events = []\<rparr>],
         if blk_Txs b = [] then Inr ''no txs'' else Inl (st\<lparr>st_LastBlockHeight := blk_Height b\<rparr>, 0)))),
     tm_LoadState = Done (Inl \<lparr>st_AppHash = [], st_LastBlockHeight = 0, st_InitialHeight = 1,
       st_LastResultsHash = [], st_rest = ()\<rparr>),
     tm_MakeGenesisState = (\<lambda>g. Inl \<lparr>st_AppHash = [], st_LastBlockHeight = 0, st_InitialHeight = 1,
       st_LastResultsHash = [], st_rest = ()\<rparr>),
     tm_ReplayBlocks = (\<lambda>st g. Done None), tm_EmptyHash = [0]\<rparr>"

definition sample_instance :: "(unit, unit) Instance" where
  "sample_instance = \<lparr>mm_lastState = \<lparr>st_AppHash = [], st_LastBlockHeight = 4, st_InitialHeight = 1,
       st_LastResultsHash = [], st_rest = ()\<rparr>,
     mm_lastHeight = 4, mm_lastBlock = None, mm_evc = None, mm_runBefore = None, mm_runAfter = None\<rparr>"

definition block_at :: "int64 \<Rightarrow> bytes list \<Rightarrow> unit tm_block" where
  "block_at h txs = \<lparr>blk_Height = h, blk_AppHash = [9], blk_Time = 0, blk_Txs = txs, blk_rest = ()\<rparr>"

theorem Inject_result_witness:
  "\<exists>mm' c'. run_prog mem_db (Inject sample_tm_library sample_instance (block_at 5 [[1]])) (NewSafeBatchDB [], []) =
      Returned (mm', None) c' \<and> st_LastBlockHeight (mm_lastState mm') = 5"
proof -
  have before: "mm_runBefore sample_instance = None"
    by (simp add: sample_instance_def)
  obtain c' where "run_prog mem_db (tm_ApplyBlock sample_tm_library
      ((mm_lastState sample_instance)\<lparr>st_AppHash := blk_AppHash (block_at 5 [[1]])\<rparr>)
      \<lparr>bid_Hash = tm_Hash sample_tm_library (block_at 5 [[1]]),
       bid_PartSetHeader = tm_PartSetHeader sample_tm_library (block_at 5 [[1]])\<rparr> (block_at 5 [[1]]))
      (NewSafeBatchDB [], []) =
    Returned ([EventNewBlock (block_at 5 [[1]]) \<lparr>br_Events = []\<rparr> \<lparr>br_Events = []\<rparr>],
      Inl (((mm_lastState sample_instance)\<lparr>st_AppHash := [9]\<rparr>)\<lparr>st_LastBlockHeight := 5\<rparr>, 0)) c'"
    by (simp add: sample_tm_library_def block_at_def answer_def sb_Set_def NewSafeBatchDB_def mem_db_def mem_set_def)
  from Inject_result [OF before this] show ?thesis
    by auto
qed

text \<open>
  The callback after a block is called only if the callback before it is set: without the
  latter an installed after-callback is silently skipped, and with only the latter set every
  successful injection panics.
\<close>

theorem safeRunAfter_guard:
  "(mm_runBefore mm = None \<longrightarrow> safeRunAfter mm block evc = Ok None) \<and>
   (mm_runBefore mm \<noteq> None \<and> mm_runAfter mm = None \<longrightarrow> safeRunAfter mm block evc = Panic nil_deref)"
  by (auto simp: safeRunAfter_def)

theorem safeRunAfter_guard_witness:
  "safeRunAfter (sample_instance\<lparr>mm_runAfter := Some (\<lambda>b e. Some ''failed'')\<rparr>) (block_at 5 [])
     NewMantlemintEventCollector = Ok None \<and>
   safeRunAfter (sample_instance\<lparr>mm_runBefore := Some (\<lambda>b. None)\<rparr>) (block_at 5 [])
     NewMantlemintEventCollector = Panic nil_deref"
  using safeRunAfter_guard [of "sample_instance\<lparr>mm_runAfter := Some (\<lambda>b e. Some ''failed'')\<rparr>" "block_at 5 []"
      NewMantlemintEventCollector]
    safeRunAfter_guard [of "sample_instance\<lparr>mm_runBefore := Some (\<lambda>b. None)\<rparr>" "block_at 5 []"
      NewMantlemintEventCollector]
  by (simp add: sample_instance_def)

end
