(* ===== verification/Sync.thy ===== *)
theory Sync
  imports Mantlemint Index_Correct
begin

text \<open>
  The main loop of \<open>src/sync.go\<close>: for every block of the feed, open the database batch at the
  block's height, inject the block, run the indexers, flush, and keep the rollback batch of the
  block until the next one has been injected. A panic ends the process; \<open>Halted\<close> carries the
  state it leaves on disk.
\<close>

section \<open>Definitions\<close>

record ('s, 'b, 'm, 'x, 'i, 'g) sync =
  sy_node :: "('s hworld, 'b level_batch) SafeBatchDB"
  sy_mm :: "('m, 'x) Instance"
  sy_rollback :: "'b option"
  sy_index :: 'i
  sy_memory :: 'g
  sy_invalidated :: "int64 list"

datatype 'y outcome = Running 'y | Halted string 'y

text \<open>What the loop is given: the session, the driver, tendermint, and the indexing service.\<close>

record ('s, 'b, 'm, 'x, 'gen, 'i, 'ib, 'g) sync_env =
  se_session :: "('s, 'b) leveldb"
  se_driver :: driver
  se_tm :: "('m, 'x, 'gen) tm_library"
  se_index_db :: "('i, 'ib) tmdb"
  se_indexer :: "('x, 'g) Indexer"

definition on_hldb ::
  "(HeightLimitedDB \<Rightarrow> HeightLimitedDB) \<Rightarrow> ('s hworld, 'b) SafeBatchDB \<Rightarrow> ('s hworld, 'b) SafeBatchDB" where
  "on_hldb f w = w\<lparr>sb_store := (fst (sb_store w), f (snd (sb_store w)))\<rparr>"

text \<open>
  The start of \<open>main\<close>, from the creation of the instance on: genesis is written at the
  chain's initial height, its rollback batch is discarded, and the state is loaded back.
\<close>

definition sync_load ::
  "('s, 'b, 'm, 'x, 'gen, 'i, 'ib, 'g) sync_env \<Rightarrow> ('s, 'b, 'm, 'x, 'i, 'g) sync \<Rightarrow> ('s, 'b, 'm, 'x, 'i, 'g) sync outcome" where
  "sync_load E y =
     (case run_prog (node_db (se_session E) (se_driver E)) (LoadInitialState (se_tm E) (sy_mm y)) (sy_node y, []) of
        Crashed p c \<Rightarrow> Halted p (y\<lparr>sy_node := fst c\<rparr>)
      | Returned (mm, Some loadErr) c \<Rightarrow> Halted loadErr (y\<lparr>sy_node := fst c, sy_mm := mm\<rparr>)
      | Returned (mm, None) c \<Rightarrow>
          Running (y\<lparr>sy_node := on_hldb (\<lambda>hl. snd (ClearWriteHeight hl)) (fst c), sy_mm := mm\<rparr>))"

definition sync_genesis ::
  "('s, 'b, 'm, 'x, 'gen, 'i, 'ib, 'g) sync_env \<Rightarrow> ('s, 'b, 'm, 'x, 'i, 'g) sync \<Rightarrow> 'gen \<Rightarrow> int64 \<Rightarrow>
   ('s, 'b, 'm, 'x, 'i, 'g) sync outcome" where
  "sync_genesis E y genesisDoc initialHeight =
     (let D = node_db (se_session E) (se_driver E);
          w = sb_Open D (on_hldb (\<lambda>hl. SetWriteHeight hl initialHeight) (sy_node y))
      in case run_prog D (mm_Init (se_tm E) (sy_mm y) genesisDoc) (w, []) of
           Crashed p c \<Rightarrow> Halted p (y\<lparr>sy_node := fst c\<rparr>)
         | Returned (mm, Some initErr) c \<Rightarrow> Halted initErr (y\<lparr>sy_node := fst c, sy_mm := mm\<rparr>)
         | Returned (mm, None) c \<Rightarrow>
             let y1 = y\<lparr>sy_node := fst c, sy_mm := mm\<rparr> in
             (case sb_Flush D level_rollback (fst c) of
                Ok (rollback, Some flushErr, w) \<Rightarrow> Halted flushErr (y1\<lparr>sy_node := w\<rparr>)
              | Ok (None, None, w) \<Rightarrow> sync_load E (y1\<lparr>sy_node := w\<rparr>)
              | Ok (Some r, None, w) \<Rightarrow>
                  (case batch_Close (se_session E) r of
                     Panic p \<Rightarrow> Halted p (y1\<lparr>sy_node := w\<rparr>)
                   | _ \<Rightarrow> sync_load E (y1\<lparr>sy_node := w\<rparr>))
              | Err e \<Rightarrow> Halted e y1
              | Panic p \<Rightarrow> Halted p y1))"

text \<open>
  An injection failed: the rollback batch of the previous block, if there is one, is written to
  the session and closed, whatever these calls return, and the process panics.
\<close>

definition rollback_last ::
  "('s, 'b) leveldb \<Rightarrow> string \<Rightarrow> ('s, 'b, 'm, 'x, 'i, 'g) sync \<Rightarrow> ('s, 'b, 'm, 'x, 'i, 'g) sync outcome" where
  "rollback_last S err y =
     (case sy_rollback y of
        None \<Rightarrow> Halted err y
      | Some r \<Rightarrow>
          (case batch_WriteSync S (fst (sb_store (sy_node y))) r of
             Ok (s', r') \<Rightarrow> Halted err (y\<lparr>sy_node := (sy_node y)\<lparr>sb_store := (s', snd (sb_store (sy_node y)))\<rparr>\<rparr>)
           | Err e \<Rightarrow> Halted err y
           | Panic p \<Rightarrow> Halted p y))"

text \<open>The block was injected: run the indexers, flush, clear the write height, invalidate caches.\<close>

definition finish_block ::
  "('s, 'b, 'm, 'x, 'gen, 'i, 'ib, 'g) sync_env \<Rightarrow> 'x tm_block \<Rightarrow> block_id option \<Rightarrow>
   ('s, 'b, 'm, 'x, 'i, 'g) sync \<Rightarrow> ('s, 'b, 'm, 'x, 'i, 'g) sync outcome" where
  "finish_block E block blockID y =
     (case GetCurrentEventCollector (sy_mm y) of
        None \<Rightarrow> Halted nil_deref y
      | Some evc \<Rightarrow>
          (case Indexer_Run (se_index_db E) (se_indexer E) (sy_index y) block blockID evc (sy_memory y) of
             Crashed p i \<Rightarrow> Halted p (y\<lparr>sy_index := i\<rparr>)
           | Returned (g, Some indexerErr) i \<Rightarrow> Halted indexerErr (y\<lparr>sy_index := i, sy_memory := g\<rparr>)
           | Returned (g, None) i \<Rightarrow>
               let y1 = y\<lparr>sy_index := i, sy_memory := g\<rparr> in
               (case sb_Flush (node_db (se_session E) (se_driver E)) level_rollback (sy_node y1) of
                  Ok (rollback, Some flushErr, w) \<Rightarrow> Halted flushErr (y1\<lparr>sy_node := w\<rparr>)
                | Ok (rollback, None, w) \<Rightarrow>
                    Running (y1\<lparr>sy_node := on_hldb (\<lambda>hl. snd (ClearWriteHeight hl)) w, sy_rollback := rollback,
                      sy_invalidated := sy_invalidated y1 @ [blk_Height block]\<rparr>)
                | Err e \<Rightarrow> Halted e y1
                | Panic p \<Rightarrow> Halted p y1)))"

definition sync_step ::
  "('s, 'b, 'm, 'x, 'gen, 'i, 'ib, 'g) sync_env \<Rightarrow> ('s, 'b, 'm, 'x, 'i, 'g) sync \<Rightarrow>
   'x tm_block \<Rightarrow> block_id option \<Rightarrow> ('s, 'b, 'm, 'x, 'i, 'g) sync outcome" where
  "sync_step E y block blockID =
     (let D = node_db (se_session E) (se_driver E);
          w = sb_Open D (on_hldb (\<lambda>hl. SetWriteHeight hl (blk_Height block)) (sy_node y))
      in case run_prog D (Inject (se_tm E) (sy_mm y) block) (w, []) of
           Crashed p c \<Rightarrow> Halted p (y\<lparr>sy_node := fst c\<rparr>)
         | Returned (mm, Some injectErr) c \<Rightarrow>
             rollback_last (se_session E) injectErr (y\<lparr>sy_node := fst c, sy_mm := mm\<rparr>)
         | Returned (mm, None) c \<Rightarrow>
             let y1 = y\<lparr>sy_node := fst c, sy_mm := mm, sy_rollback := None\<rparr> in
             (case sy_rollback y of
                None \<Rightarrow> finish_block E block blockID y1
              | Some r \<Rightarrow>
                  (case batch_Close (se_session E) r of
                     Panic p \<Rightarrow> Halted p y1
                   | _ \<Rightarrow> finish_block E block blockID y1)))"

fun sync_run ::
  "('s, 'b, 'm, 'x, 'gen, 'i, 'ib, 'g) sync_env \<Rightarrow> ('s, 'b, 'm, 'x, 'i, 'g) sync \<Rightarrow>
   ('x tm_block \<times> block_id option) list \<Rightarrow> ('s, 'b, 'm, 'x, 'i, 'g) sync outcome" where
  "sync_run E y [] = Running y"
| "sync_run E y ((block, blockID) # feed) =
     (case sync_step E y block blockID of Running y' \<Rightarrow> sync_run E y' feed | Halted p y' \<Rightarrow> Halted p y')"

end
