(* ===== verification/Sync_Correct.thy ===== *)
theory Sync_Correct
  imports Sync
begin

text \<open>
  Correctness of the main loop on a healthy session: a block that goes through is applied as a
  whole at its height and leaves earlier heights alone; a block that does not go through leaves
  the disk as it was, or takes back the block before it; a whole feed of blocks keeps the
  invariant.
\<close>

section \<open>The stack as an interface\<close>

locale node_stack = level_session S contents pending
  for S :: "('s, 'b) leveldb"
    and contents :: "'s \<Rightarrow> bytes \<rightharpoonup> bytes"
    and pending :: "'b \<Rightarrow> batch_op list option" +
  fixes d :: driver and K :: "bytes set"
  assumes universe: "key_universe (drv_mode d) K"

sublocale node_stack \<subseteq> stack: height_rollback "driver_db S d" "driver_view contents d"
  "driver_ok contents d K" "driver_holds contents pending d K" K lb_RollbackBatch "batch_WriteSync S"
  by (rule driver_height_rollback [OF level_session_axioms universe])

interpretation mem_stack: node_stack mem_db mem_contents mem_pending sample_driver sample_keys
  by unfold_locales (rule sample_keys_universe)

text \<open>Between blocks: the store is well-formed with its newest block at \<open>t\<close>, reads are current.\<close>

definition idle ::
  "('s \<Rightarrow> bytes \<rightharpoonup> bytes) \<Rightarrow> driver \<Rightarrow> bytes set \<Rightarrow> nat \<Rightarrow> ('s, 'b, 'm, 'x, 'i, 'g) sync \<Rightarrow> bool" where
  "idle contents d K t y \<longleftrightarrow>
     driver_ok contents d K (fst (sb_store (sy_node y))) t \<and> hl_readHeight (snd (sb_store (sy_node y))) = 0"

definition disk ::
  "('s \<Rightarrow> bytes \<rightharpoonup> bytes) \<Rightarrow> driver \<Rightarrow> ('s, 'b, 'm, 'x, 'i, 'g) sync \<Rightarrow> int64 \<Rightarrow> bytes \<rightharpoonup> bytes" where
  "disk contents d y = driver_view contents d (fst (sb_store (sy_node y)))"

text \<open>A block the loop can write: above the newest one, a height the driver can handle.\<close>

definition next_height :: "nat \<Rightarrow> int64 \<Rightarrow> bool" where
  "next_height t h \<longleftrightarrow> t \<le> unat h \<and> valid_height h \<and> h \<noteq> 0"

text \<open>An executor that stays within the key universe.\<close>

definition executor_ok :: "bytes set \<Rightarrow> ('m, 'x, 'gen) tm_library \<Rightarrow> bool" where
  "executor_ok K T \<longleftrightarrow> (\<forall>st bid block. prog_ok K True (tm_ApplyBlock T st bid block))"

text \<open>Writing the kept rollback batch brings the disk to \<open>v\<close>.\<close>

definition undoes ::
  "('s, 'b) leveldb \<Rightarrow> ('s \<Rightarrow> bytes \<rightharpoonup> bytes) \<Rightarrow> driver \<Rightarrow> ('s, 'b, 'm, 'x, 'i, 'g) sync \<Rightarrow>
   (int64 \<Rightarrow> bytes \<rightharpoonup> bytes) \<Rightarrow> bool" where
  "undoes S contents d y v \<longleftrightarrow>
     (\<exists>r s' r'. sy_rollback y = Some r \<and> batch_WriteSync S (fst (sb_store (sy_node y))) r = Ok (s', r') \<and>
        driver_view contents d s' = v)"

definition keeps ::
  "('s, 'b) leveldb \<Rightarrow> ('s \<Rightarrow> bytes \<rightharpoonup> bytes) \<Rightarrow> driver \<Rightarrow> ('s, 'b, 'm, 'x, 'i, 'g) sync \<Rightarrow>
   (int64 \<Rightarrow> bytes \<rightharpoonup> bytes) \<Rightarrow> bool" where
  "keeps S contents d y v \<longleftrightarrow>
     (if sy_rollback y = None then v = disk contents d y else undoes S contents d y v)"

text \<open>The heights of a feed: every block is above the ones before.\<close>

fun feed_ok :: "nat \<Rightarrow> ('x tm_block \<times> block_id option) list \<Rightarrow> bool" where
  "feed_ok t [] = True"
| "feed_ok t ((block, bid) # feed) \<longleftrightarrow> next_height t (blk_Height block) \<and> feed_ok (unat (blk_Height block)) feed"

lemma Inject_ok:
  assumes "executor_ok K T"
  shows "prog_ok K True (Inject T mm block)"
  using assms unfolding Inject_def Let_def
  by (auto simp: executor_ok_def intro!: prog_ok_bind split: option.split sum.split res.split prod.split)

section \<open>One block\<close>

definition opened ::
  "('s, 'b, 'm, 'x, 'i, 'g) sync \<Rightarrow> int64 \<Rightarrow> ('s hworld, 'b level_batch) SafeBatchDB" where
  "opened y height = on_hldb (\<lambda>hl. SetWriteHeight hl height) (sy_node y)"

context node_stack
begin

lemma opened_writer:
  assumes "idle contents d K t y" and "next_height t height"
  shows "writer_inv (driver_ok contents d K) (sb_store (opened y height))"
    and "hl_writeHeight (snd (sb_store (opened y height))) = height"
    and "fst (sb_store (opened y height)) = fst (sb_store (sy_node y))"
    and "hld_view (driver_view contents d) (sb_store (opened y height)) = disk contents d y 0"
  using assms
  by (auto simp: idle_def next_height_def opened_def on_hldb_def SetWriteHeight_def writer_inv_def
      hld_view_def disk_def)

text \<open>The injection of a block, on the open batch.\<close>

lemma inject_cases:
  assumes "idle contents d K t y" and "next_height t (blk_Height block)" and "executor_ok K T"
  obtains
    (ok) mm err qs c n where
      "spec_prog (disk contents d y 0) (Inject T (sy_mm y) block) 0 = Ok ((mm, err), qs, n)"
      "run_prog (node_db S d) (Inject T (sy_mm y) block) (sb_Open (node_db S d) (opened y (blk_Height block)), []) =
        Returned (mm, err) c"
      "open_client (hld_holds (driver_holds contents pending d K)) (sb_store (opened y (blk_Height block))) c qs"
      "sb_store (fst c) = sb_store (opened y (blk_Height block))"
  | (panic) p c where
      "spec_prog (disk contents d y 0) (Inject T (sy_mm y) block) 0 = Panic p"
      "run_prog (node_db S d) (Inject T (sy_mm y) block) (sb_Open (node_db S d) (opened y (blk_Height block)), []) =
        Crashed p c"
      "sb_store (fst c) = sb_store (opened y (blk_Height block))"
  using opened_writer(1) [OF assms(1,2)] Inject_ok [OF assms(3), of "sy_mm y" block]
proof (cases rule: stack.node.run_open_cases)
  case (ok x qs c)
  then show ?thesis
    using that(1) stack.node.open_client_store [OF ok(3)] opened_writer(4) [OF assms(1,2)]
    by (cases x) (auto simp: node_db_def)
next
  case (panic e qs c)
  then show ?thesis
    using that(2) stack.node.open_client_store [OF panic(3)] opened_writer(4) [OF assms(1,2)]
    by (auto simp: node_db_def)
qed

text \<open>The flush of what a client wrote at a height.\<close>

lemma flush_at:
  assumes "idle contents d K t y" and "next_height t height"
    and "open_client (hld_holds (driver_holds contents pending d K)) (sb_store (opened y height)) c qs"
  shows "\<exists>b w s. sb_Flush (node_db S d) level_rollback (fst c) = Ok (Some (lb_RollbackBatch b), None, w) \<and>
    sb_store w = (s, snd (sb_store (opened y height))) \<and>
    driver_ok contents d K s (unat height) \<and>
    driver_view contents d s = (\<lambda>h. if h \<noteq> 0 \<and> unat h < unat height then disk contents d y h
      else apply_ops qs (disk contents d y h)) \<and>
    (\<exists>s' r'. batch_WriteSync S s (lb_RollbackBatch b) = Ok (s', r') \<and> driver_view contents d s' = disk contents d y)"
proof -
  note w0 = opened_writer [OF assms(1,2)]
  let ?s0 = "sb_store (opened y height)"
  obtain b b' w where b: "hld_holds (driver_holds contents pending d K) ?s0 b qs"
    and wr: "batch_WriteSync (hld_db (driver_db S d)) ?s0 b = Ok (sb_store w, b')"
    and fl: "sb_Flush (hld_db (driver_db S d)) level_rollback (fst c) = Ok (level_rollback b, None, w)"
    using stack.node.Flush_applies [OF w0(1) assms(3), of level_rollback] by blast
  obtain s hl where s: "sb_store w = (s, hl)" by (cases "sb_store w")
  have wr': "batch_WriteSync (hld_db (driver_db S d)) (fst ?s0, snd ?s0) b = Ok ((s, hl), b')"
    using wr s by simp
  note view = stack.round_view [OF _ _ wr', of qs, unfolded prod.collapse, OF w0(1) b]
  have hl: "hl = snd ?s0" and ok: "driver_ok contents d K s (unat height)"
    using view(2) w0(2) by simp_all
  moreover have "driver_view contents d s = (\<lambda>h. if h \<noteq> 0 \<and> unat h < unat height
      then disk contents d y h else apply_ops qs (disk contents d y h))"
    using view(1) w0(2,3) by (auto simp: disk_def)
  moreover have "\<exists>s' r'. batch_WriteSync S s (lb_RollbackBatch b) = Ok (s', r') \<and>
      driver_view contents d s' = disk contents d y"
  proof -
    have "ob_WriteSync (driver_db S d) (fst ?s0) b = Ok (s, b')"
      using wr s by (auto simp: hld_db_def map_ok_eq_Ok)
    moreover have "driver_holds contents pending d K (fst ?s0) (hl_writeHeight (snd ?s0)) b qs"
      using b by (simp add: hld_holds_def)
    moreover have "driver_ok contents d K (fst ?s0) t"
      using assms(1) w0(3) by (simp add: idle_def)
    ultimately show ?thesis
      using stack.undo_restores [of "fst ?s0" t] w0(3) by (fastforce simp: disk_def)
  qed
  ultimately show ?thesis
    using fl s by (auto simp: node_db_def level_rollback_def)
qed

text \<open>The loop passes a block on only if the injection and the indexers succeeded.\<close>

lemma finish_running:
  assumes "finish_block E block bid y1 = Running y'"
  shows "\<exists>r w. sb_Flush (node_db (se_session E) (se_driver E)) level_rollback (sy_node y1) = Ok (r, None, w) \<and>
    sy_node y' = on_hldb (\<lambda>hl. snd (ClearWriteHeight hl)) w \<and> sy_rollback y' = r \<and> sy_mm y' = sy_mm y1 \<and>
    sy_invalidated y' = sy_invalidated y1 @ [blk_Height block]"
  using assms
  by (auto simp: finish_block_def Let_def split: option.splits run.splits prod.splits res.splits)

lemma finish_halted:
  assumes "finish_block E block bid y1 = Halted p y'"
    and "sb_Flush (node_db (se_session E) (se_driver E)) level_rollback (sy_node y1) = Ok (r, None, w)"
  shows "sy_node y' = sy_node y1"
  using assms
  by (auto simp: finish_block_def Let_def split: option.splits run.splits prod.splits res.splits)

text \<open>A step that goes through passed the injection and closed what it kept of the block before.\<close>

lemma step_injected:
  assumes "run_prog (node_db (se_session E) (se_driver E)) (Inject (se_tm E) (sy_mm y) block)
      (sb_Open (node_db (se_session E) (se_driver E)) (opened y (blk_Height block)), []) = Returned (mm, err) c"
    and "sync_step E y block bid = Running y'"
  shows "err = None \<and> finish_block E block bid (y\<lparr>sy_node := fst c, sy_mm := mm, sy_rollback := None\<rparr>) = Running y'"
  using assms
  by (cases err; cases "sy_rollback y")
    (simp_all add: sync_step_def Let_def opened_def rollback_last_def split: res.splits prod.splits)

lemma step_running:
  assumes "idle contents d K t y" and "next_height t (blk_Height block)" and "executor_ok K (se_tm E)"
    and "se_session E = S" and "se_driver E = d" and "sync_step E y block bid = Running y'"
  shows "\<exists>mm qs n. spec_prog (disk contents d y 0) (Inject (se_tm E) (sy_mm y) block) 0 = Ok ((mm, None), qs, n) \<and>
    sy_mm y' = mm \<and> idle contents d K (unat (blk_Height block)) y' \<and>
    disk contents d y' = (\<lambda>h. if h \<noteq> 0 \<and> unat h < unat (blk_Height block) then disk contents d y h
      else apply_ops qs (disk contents d y h)) \<and>
    undoes S contents d y' (disk contents d y) \<and> hl_writeHeight (snd (sb_store (sy_node y'))) = 0"
  using assms(1-3)
proof (cases rule: inject_cases)
  case (ok mm err qs c n)
  let ?y1 = "y\<lparr>sy_node := fst c, sy_mm := mm, sy_rollback := None\<rparr>"
  have err: "err = None" and fin: "finish_block E block bid ?y1 = Running y'"
    using step_injected [OF _ assms(6), of mm err c] ok(2) assms(4,5) by simp_all
  obtain b w s where fl: "sb_Flush (node_db S d) level_rollback (fst c) = Ok (Some (lb_RollbackBatch b), None, w)"
    and w: "sb_store w = (s, snd (sb_store (opened y (blk_Height block))))"
    and s: "driver_ok contents d K s (unat (blk_Height block))"
      "driver_view contents d s = (\<lambda>h. if h \<noteq> 0 \<and> unat h < unat (blk_Height block) then disk contents d y h
        else apply_ops qs (disk contents d y h))"
    and undo: "\<exists>s' r'. batch_WriteSync S s (lb_RollbackBatch b) = Ok (s', r') \<and> driver_view contents d s' = disk contents d y"
    using flush_at [OF assms(1,2) ok(3)] by blast
  have y': "sy_node y' = on_hldb (\<lambda>hl. snd (ClearWriteHeight hl)) w" "sy_rollback y' = Some (lb_RollbackBatch b)"
    "sy_mm y' = mm"
    using finish_running [OF fin] fl assms(4,5) by simp_all
  have hl: "snd (sb_store (sy_node y')) = snd (ClearWriteHeight (snd (sb_store (opened y (blk_Height block)))))"
    and st: "fst (sb_store (sy_node y')) = s"
    using w by (simp_all add: y' on_hldb_def)
  have "hl_readHeight (snd (sb_store (sy_node y'))) = 0" "hl_writeHeight (snd (sb_store (sy_node y'))) = 0"
    using assms(1) by (simp_all add: hl on_hldb_def ClearWriteHeight_def InvalidHeight_def opened_def SetWriteHeight_def idle_def)
  moreover have "disk contents d y' = driver_view contents d s"
    by (simp add: disk_def st)
  moreover have "undoes S contents d y' (disk contents d y)"
    using undo by (simp add: undoes_def st y'(2))
  ultimately show ?thesis
    using ok(1) err s y'(3) by (intro exI [of _ mm] exI [of _ qs] exI [of _ n]) (simp add: idle_def st)
next
  case (panic p c)
  then show ?thesis
    using assms(4-6) by (simp add: sync_step_def Let_def opened_def)
qed

lemma step_stopped:
  assumes "run_prog (node_db (se_session E) (se_driver E)) (Inject (se_tm E) (sy_mm y) block)
      (sb_Open (node_db (se_session E) (se_driver E)) (opened y (blk_Height block)), []) = Returned (mm, None) c"
    and "sync_step E y block bid = Halted p y'"
  shows "y' = y\<lparr>sy_node := fst c, sy_mm := mm, sy_rollback := None\<rparr> \<or>
    finish_block E block bid (y\<lparr>sy_node := fst c, sy_mm := mm, sy_rollback := None\<rparr>) = Halted p y'"
  using assms
  by (cases "sy_rollback y") (simp_all add: sync_step_def Let_def opened_def split: res.splits)

lemma step_failed:
  assumes "run_prog (node_db (se_session E) (se_driver E)) (Inject (se_tm E) (sy_mm y) block)
      (sb_Open (node_db (se_session E) (se_driver E)) (opened y (blk_Height block)), []) = Returned (mm, Some e) c"
    and "sync_step E y block bid = Halted p y'" and "keeps (se_session E) contents d y v"
    and "fst (sb_store (fst c)) = fst (sb_store (sy_node y))"
  shows "disk contents d y' = v"
proof (cases "sy_rollback y")
  case None
  then show ?thesis
    using assms by (auto simp: sync_step_def Let_def opened_def rollback_last_def keeps_def disk_def)
next
  case (Some r)
  then obtain s' r' where "batch_WriteSync (se_session E) (fst (sb_store (sy_node y))) r = Ok (s', r')"
    and v: "driver_view contents d s' = v"
    using assms(3) by (auto simp: keeps_def undoes_def)
  with Some have "fst (sb_store (sy_node y')) = s'"
    using assms(1,2,4) by (simp add: sync_step_def Let_def opened_def rollback_last_def) auto
  with v show ?thesis
    by (simp add: disk_def)
qed

lemma step_halted:
  assumes "idle contents d K t y" and "next_height t (blk_Height block)" and "executor_ok K (se_tm E)"
    and "se_session E = S" and "se_driver E = d" and "sync_step E y block bid = Halted p y'"
    and "keeps S contents d y v"
  shows "disk contents d y' =
    (case spec_prog (disk contents d y 0) (Inject (se_tm E) (sy_mm y) block) 0 of
       Ok ((mm, Some err), qs, n) \<Rightarrow> v | _ \<Rightarrow> disk contents d y)"
  using assms(1-3)
proof (cases rule: inject_cases)
  case (ok mm err qs c n)
  have same: "fst (sb_store (fst c)) = fst (sb_store (sy_node y))"
    using ok(4) opened_writer(3) [OF assms(1,2)] by simp
  show ?thesis
  proof (cases err)
    case None
    obtain r w where "sb_Flush (node_db S d) level_rollback (fst c) = Ok (r, None, w)"
      using flush_at [OF assms(1,2) ok(3)] by blast
    then have "sy_node y' = fst c"
      using step_stopped [of E y block mm c bid p y'] finish_halted [of E block bid _ p y'] ok(2) None assms(4-6)
      by auto
    with same None ok(1) show ?thesis
      by (simp add: disk_def)
  next
    case (Some e)
    then show ?thesis
      using step_failed [of E y block mm e c bid p y' v] assms(4-7) ok(1,2) same
      by simp
  qed
next
  case (panic q c)
  then show ?thesis
    using assms(4-6) opened_writer(3) [OF assms(1,2)]
    by (auto simp: sync_step_def Let_def opened_def disk_def)
qed

section \<open>A feed of blocks\<close>

text \<open>A run that stops leaves the disk as some prefix of the feed left it, or undoes what was kept.\<close>

lemma run_halted:
  assumes "executor_ok K (se_tm E)" and "se_session E = S" and "se_driver E = d"
  shows "idle contents d K t y \<Longrightarrow> feed_ok t feed \<Longrightarrow> keeps S contents d y v \<Longrightarrow> sync_run E y feed = Halted p y' \<Longrightarrow>
    disk contents d y' = v \<or>
    (\<exists>n y1. n < length feed \<and> sync_run E y (take n feed) = Running y1 \<and> disk contents d y' = disk contents d y1)"
proof (induction feed arbitrary: t y v)
  case Nil
  then show ?case by simp
next
  case (Cons x feed)
  obtain block bid where x: "x = (block, bid)" by (cases x)
  have next_h: "next_height t (blk_Height block)" and feed: "feed_ok (unat (blk_Height block)) feed"
    using Cons.prems(2) x by simp_all
  show ?case
  proof (cases "sync_step E y block bid")
    case (Running y1)
    then have y1: "idle contents d K (unat (blk_Height block)) y1" "keeps S contents d y1 (disk contents d y)"
      using step_running [OF Cons.prems(1) next_h assms Running] by (auto simp: keeps_def undoes_def)
    have "sync_run E y1 feed = Halted p y'"
      using Cons.prems(4) Running by (simp add: x)
    from Cons.IH [OF y1(1) feed y1(2) this] show ?thesis
    proof
      assume "disk contents d y' = disk contents d y"
      then show ?thesis by (intro disjI2 exI [of _ 0]) simp
    next
      assume "\<exists>n y2. n < length feed \<and> sync_run E y1 (take n feed) = Running y2 \<and> disk contents d y' = disk contents d y2"
      then obtain n y2 where "n < length feed" "sync_run E y1 (take n feed) = Running y2"
        "disk contents d y' = disk contents d y2"
        by blast
      then show ?thesis
        using Running x by (intro disjI2 exI [of _ "Suc n"]) simp
    qed
  next
    case (Halted q y1)
    then have "y1 = y'"
      using Cons.prems(4) x by simp
    moreover have "disk contents d y1 = v \<or> disk contents d y1 = disk contents d y"
      using step_halted [OF Cons.prems(1) next_h assms Halted Cons.prems(3)]
      by (auto split: res.splits prod.splits option.splits)
    ultimately show ?thesis
      by (auto intro: exI [of _ 0])
  qed
qed

text \<open>With nothing to take back, the database is that of a whole number of blocks.\<close>

lemma run_whole_blocks:
  assumes "executor_ok K (se_tm E)" and "se_session E = S" and "se_driver E = d"
    and "idle contents d K t y" and "sy_rollback y = None" and "feed_ok t feed" and "sync_run E y feed = Halted p y'"
  shows "\<exists>n y1. n < length feed \<and> sync_run E y (take n feed) = Running y1 \<and> disk contents d y' = disk contents d y1"
proof -
  have "keeps S contents d y (disk contents d y)"
    using assms(5) by (simp add: keeps_def)
  from run_halted [OF assms(1-4,6) this assms(7)] show ?thesis
  proof
    assume "disk contents d y' = disk contents d y"
    moreover have "feed \<noteq> []"
      using assms(7) by auto
    ultimately show ?thesis
      by (intro exI [of _ 0] exI [of _ y]) simp
  qed
qed

lemma run_running:
  assumes "executor_ok K (se_tm E)" and "se_session E = S" and "se_driver E = d"
  shows "idle contents d K t y \<Longrightarrow> feed_ok t feed \<Longrightarrow> sync_run E y feed = Running y' \<Longrightarrow>
    idle contents d K (foldl (\<lambda>t x. unat (blk_Height (fst x))) t feed) y' \<and>
    (\<forall>h. h \<noteq> 0 \<longrightarrow> (\<forall>x\<in>set feed. unat h < unat (blk_Height (fst x))) \<longrightarrow> disk contents d y' h = disk contents d y h)"
proof (induction feed arbitrary: t y)
  case Nil
  then show ?case by simp
next
  case (Cons x feed)
  obtain block bid where x: "x = (block, bid)" by (cases x)
  have next_h: "next_height t (blk_Height block)" and feed: "feed_ok (unat (blk_Height block)) feed"
    using Cons.prems(2) x by simp_all
  obtain y1 where y1: "sync_step E y block bid = Running y1" "sync_run E y1 feed = Running y'"
    using Cons.prems(3) x by (auto split: outcome.splits)
  from step_running [OF Cons.prems(1) next_h assms y1(1)]
  have "idle contents d K (unat (blk_Height block)) y1"
    and "\<And>h. h \<noteq> 0 \<Longrightarrow> unat h < unat (blk_Height block) \<Longrightarrow> disk contents d y1 h = disk contents d y h"
    by auto
  with Cons.IH [OF _ feed y1(2)] show ?case
    by (simp add: x)
qed

end

section \<open>Sample data\<close>

text \<open>A node on empty in-memory databases, with the block indexer only.\<close>

definition sample_env ::
  "(mem_store, mem_batch, unit, unit, unit, mem_store, mem_batch SnappyBatch, unit) sync_env" where
  "sample_env = \<lparr>se_session = mem_db, se_driver = sample_driver, se_tm = sample_tm_library,
     se_index_db = snappy_db sample_codec mem_db sample_snappy,
     se_indexer = RegisterIndexerService \<lparr>ix_indexerTags = [], ix_indexers = []\<rparr> ''block'' (IndexBlock (\<lambda>r. Ok [66]))\<rparr>"

definition sample_sync :: "(mem_store, mem_batch, unit, unit, mem_store, unit) sync" where
  "sample_sync = \<lparr>sy_node = NewSafeBatchDB ([], ApplyHeightLimitedDB True), sy_mm = sample_instance,
     sy_rollback = None, sy_index = [], sy_memory = (), sy_invalidated = []\<rparr>"

definition sample_feed :: "(unit tm_block \<times> block_id option) list" where
  "sample_feed = [(block_at 5 [[1]], sample_block_id), (block_at 6 [], sample_block_id)]"

primrec outcome_running :: "'y outcome \<Rightarrow> bool" where
  "outcome_running (Running y) = True"
| "outcome_running (Halted p y) = False"

lemma outcome_running_iff: "outcome_running r \<longleftrightarrow> (\<exists>y. r = Running y)"
  by (cases r) simp_all

lemma sample_idle: "idle mem_contents sample_driver sample_keys 0 sample_sync"
  using driver_ok_empty
  by (simp add: idle_def sample_sync_def NewSafeBatchDB_def ApplyHeightLimitedDB_def)

lemma sample_executor: "executor_ok sample_keys (se_tm sample_env)"
  by (simp add: executor_ok_def sample_env_def sample_tm_library_def sample_keys_def)

lemma sample_heights: "next_height 0 (blk_Height (block_at 5 txs))" "feed_ok 0 sample_feed"
  by (simp_all add: next_height_def block_at_def valid_height_def sample_feed_def)

lemma sample_first_block: "\<exists>y'. sync_step sample_env sample_sync (block_at 5 [[1]]) sample_block_id = Running y'"
proof -
  have "outcome_running (sync_step sample_env sample_sync (block_at 5 [[1]]) sample_block_id)"
    by code_simp
  then show ?thesis
    by (cases "sync_step sample_env sample_sync (block_at 5 [[1]]) sample_block_id") auto
qed

lemma sample_second_block: "\<exists>p y'. sync_run sample_env sample_sync sample_feed = Halted p y'"
proof -
  have "\<not> outcome_running (sync_run sample_env sample_sync sample_feed)"
    by code_simp
  then show ?thesis
    by (cases "sync_run sample_env sample_sync sample_feed") auto
qed

lemma sample_parts:
  "level_session (se_session sample_env) mem_contents mem_pending"
  "key_universe (drv_mode (se_driver sample_env)) sample_keys"
  "idle mem_contents (se_driver sample_env) sample_keys 0 sample_sync" "sy_rollback sample_sync = None"
  "se_driver sample_env = sample_driver" "se_session sample_env = mem_db"
  using mem.level_session_axioms sample_keys_universe sample_idle
  by (simp_all add: sample_env_def sample_sync_def)

lemma node_stack_intro:
  "level_session S contents pending \<Longrightarrow> key_universe (drv_mode d) K \<Longrightarrow> node_stack S contents pending d K"
  by (simp add: node_stack_def node_stack_axioms_def)

section \<open>Properties\<close>

text \<open>
  C2. A block the loop passes on is applied as a whole: the tendermint state and the database
  are those of the injection run against the state before the block, every height below the block
  reads as before, the store is ready for the next block with the write height cleared, and the
  kept rollback batch undoes exactly this block.
\<close>

theorem sync_block_applied:
  assumes "level_session (se_session E) contents pending" and "key_universe (drv_mode (se_driver E)) K"
    and "idle contents (se_driver E) K t y" and "next_height t (blk_Height block)" and "executor_ok K (se_tm E)"
    and "sync_step E y block bid = Running y'"
  shows "\<exists>mm qs n. spec_prog (disk contents (se_driver E) y 0) (Inject (se_tm E) (sy_mm y) block) 0 = Ok ((mm, None), qs, n) \<and>
    sy_mm y' = mm \<and> idle contents (se_driver E) K (unat (blk_Height block)) y' \<and>
    disk contents (se_driver E) y' = (\<lambda>h. if h \<noteq> 0 \<and> unat h < unat (blk_Height block)
      then disk contents (se_driver E) y h else apply_ops qs (disk contents (se_driver E) y h)) \<and>
    undoes (se_session E) contents (se_driver E) y' (disk contents (se_driver E) y) \<and>
    hl_writeHeight (snd (sb_store (sy_node y'))) = 0"
  using node_stack.step_running [OF node_stack_intro [OF assms(1,2)] assms(3-5) refl refl assms(6)] .

lemma sample_inject:
  "spec_prog m (Inject (se_tm sample_env) (sy_mm sample_sync) (block_at 5 [[1]])) 0 = Ok ((mm, None), qs, n) \<Longrightarrow>
    qs = [OpSet [97] [9]]"
  by (simp add: Inject_def sample_env_def sample_tm_library_def sample_sync_def sample_instance_def block_at_def
      safeRunBefore_def safeRunAfter_def Let_def)

theorem sync_block_applied_witness:
  "\<exists>y'. sync_step sample_env sample_sync (block_at 5 [[1]]) sample_block_id = Running y' \<and>
    disk mem_contents sample_driver y' 4 = disk mem_contents sample_driver sample_sync 4 \<and>
    disk mem_contents sample_driver y' 5 [97] = Some [9]"
proof -
  obtain y' where y': "sync_step sample_env sample_sync (block_at 5 [[1]]) sample_block_id = Running y'"
    using sample_first_block by blast
  have h: "blk_Height (block_at 5 [[1]]) = 5" by (simp add: block_at_def)
  from sync_block_applied [OF sample_parts(1-3) sample_heights(1) sample_executor y'] sample_inject
  obtain qs where "qs = [OpSet [97] [9]]" and "disk mem_contents sample_driver y' =
      (\<lambda>h. if h \<noteq> 0 \<and> unat h < unat (5 :: int64) then disk mem_contents sample_driver sample_sync h
        else apply_ops qs (disk mem_contents sample_driver sample_sync h))"
    unfolding h sample_parts(5) by blast
  with y' show ?thesis by (auto simp: apply_op_def)
qed

text \<open>
  C1. Crash consistency: whenever the loop stops, on an injection error, an indexer error or a
  panic anywhere, the database is exactly what a whole number of blocks of the feed, counted
  from the start, makes of it. No block is ever half written.
\<close>

theorem sync_crash_consistent:
  assumes "level_session (se_session E) contents pending" and "key_universe (drv_mode (se_driver E)) K"
    and "idle contents (se_driver E) K t y" and "sy_rollback y = None"
    and "executor_ok K (se_tm E)" and "feed_ok t feed" and "sync_run E y feed = Halted p y'"
  shows "\<exists>n y1. n < length feed \<and> sync_run E y (take n feed) = Running y1 \<and>
    disk contents (se_driver E) y' = disk contents (se_driver E) y1"
  using node_stack.run_whole_blocks [OF node_stack_intro [OF assms(1,2)] assms(5) refl refl assms(3,4,6,7)] .

theorem sync_crash_consistent_witness:
  "\<exists>p y' n y1. sync_run sample_env sample_sync sample_feed = Halted p y' \<and> n < length sample_feed \<and>
    sync_run sample_env sample_sync (take n sample_feed) = Running y1 \<and>
    disk mem_contents sample_driver y' = disk mem_contents sample_driver y1"
proof -
  obtain p y' where h: "sync_run sample_env sample_sync sample_feed = Halted p y'"
    using sample_second_block by blast
  from sync_crash_consistent [OF sample_parts(1-4) sample_executor sample_heights(2) h] h
  show ?thesis
    unfolding sample_parts(5) by blast
qed

text \<open>
  C14. A block whose injection fails takes the block before it back: the database is as it was
  before that one, at every height.
\<close>

theorem sync_failed_injection:
  assumes "level_session (se_session E) contents pending" and "key_universe (drv_mode (se_driver E)) K"
    and "idle contents (se_driver E) K t y" and "feed_ok t [(block, bid), (block', bid')]"
    and "executor_ok K (se_tm E)"
    and "sync_step E y block bid = Running y1" and "sync_step E y1 block' bid' = Halted p y'"
    and "spec_prog (disk contents (se_driver E) y1 0) (Inject (se_tm E) (sy_mm y1) block') 0 = Ok ((mm, Some err), qs, n)"
  shows "disk contents (se_driver E) y' = disk contents (se_driver E) y"
proof -
  note ns = node_stack_intro [OF assms(1,2)]
  have next_h: "next_height t (blk_Height block)" "next_height (unat (blk_Height block)) (blk_Height block')"
    using assms(4) by simp_all
  from node_stack.step_running [OF ns assms(3) next_h(1) assms(5) refl refl assms(6)]
  have "idle contents (se_driver E) K (unat (blk_Height block)) y1"
    and "keeps (se_session E) contents (se_driver E) y1 (disk contents (se_driver E) y)"
    by (auto simp: keeps_def undoes_def)
  from node_stack.step_halted [OF ns this(1) next_h(2) assms(5) refl refl assms(7) this(2)] assms(8)
  show ?thesis by simp
qed

lemma sample_inject_fails:
  "\<exists>mm qs n. spec_prog m (Inject (se_tm sample_env) mm0 (block_at 6 [])) 0 = Ok ((mm, Some ''no txs''), qs, n)"
  if "mm_runBefore mm0 = None"
  using that by (simp add: Inject_def sample_env_def sample_tm_library_def block_at_def safeRunBefore_def Let_def)

lemma sample_inject_callbacks:
  "spec_prog m (Inject (se_tm sample_env) (sy_mm sample_sync) (block_at 5 [[1]])) 0 = Ok ((mm, None), qs, n) \<Longrightarrow>
    mm_runBefore mm = None"
  by (auto simp: Inject_def sample_env_def sample_tm_library_def sample_sync_def sample_instance_def block_at_def
      safeRunBefore_def safeRunAfter_def Let_def)

theorem sync_failed_injection_witness:
  "\<exists>p y'. sync_run sample_env sample_sync sample_feed = Halted p y' \<and>
    disk mem_contents sample_driver y' = disk mem_contents sample_driver sample_sync"
proof -
  obtain y1 where y1: "sync_step sample_env sample_sync (block_at 5 [[1]]) sample_block_id = Running y1"
    using sample_first_block by blast
  obtain p y' where h: "sync_run sample_env sample_sync sample_feed = Halted p y'"
    using sample_second_block by blast
  then have y': "sync_step sample_env y1 (block_at 6 []) sample_block_id = Halted p y'"
    using y1 by (auto simp: sample_feed_def split: outcome.splits)
  from node_stack.step_running [OF node_stack_intro [OF sample_parts(1,2)] sample_parts(3) sample_heights(1)
      sample_executor refl refl y1]
  have "mm_runBefore (sy_mm y1) = None"
    using sample_inject_callbacks by blast
  then obtain mm qs n where "spec_prog (disk mem_contents (se_driver sample_env) y1 0)
      (Inject (se_tm sample_env) (sy_mm y1) (block_at 6 [])) 0 = Ok ((mm, Some ''no txs''), qs, n)"
    using sample_inject_fails by blast
  from sync_failed_injection [OF sample_parts(1-3) sample_heights(2) [unfolded sample_feed_def] sample_executor y1 y' this]
  show ?thesis
    using h unfolding sample_parts(5) by blast
qed

text \<open>
  C22. Over a whole feed history is never rewritten: what a height below the remaining blocks
  reads stays the same, and the store stays ready for the next block.
\<close>

theorem sync_history_kept:
  assumes "level_session (se_session E) contents pending" and "key_universe (drv_mode (se_driver E)) K"
    and "idle contents (se_driver E) K t y" and "executor_ok K (se_tm E)" and "feed_ok t feed"
    and "sync_run E y feed = Running y'" and "h \<noteq> 0" and "\<forall>x\<in>set feed. unat h < unat (blk_Height (fst x))"
  shows "disk contents (se_driver E) y' h = disk contents (se_driver E) y h \<and>
    idle contents (se_driver E) K (foldl (\<lambda>t x. unat (blk_Height (fst x))) t feed) y'"
  using node_stack.run_running [OF node_stack_intro [OF assms(1,2)] assms(4) refl refl assms(3,5,6)] assms(7,8)
  by blast

theorem sync_history_kept_witness:
  "\<exists>y'. sync_run sample_env sample_sync (take 1 sample_feed) = Running y' \<and>
    disk mem_contents sample_driver y' 4 = disk mem_contents sample_driver sample_sync 4"
proof -
  obtain y' where "sync_step sample_env sample_sync (block_at 5 [[1]]) sample_block_id = Running y'"
    using sample_first_block by blast
  then have r: "sync_run sample_env sample_sync (take 1 sample_feed) = Running y'"
    by (simp add: sample_feed_def)
  have "feed_ok 0 (take 1 sample_feed)"
    using sample_heights(2) by (simp add: sample_feed_def)
  from sync_history_kept [OF sample_parts(1-3) sample_executor this r, of 4] r
  show ?thesis
    by (auto simp: sample_feed_def block_at_def sample_parts(5))
qed

end
