(* ===== verification/Block_Feed.thy ===== *)
theory Block_Feed
  imports Tm_Types
begin

text \<open>
  \<open>src/block_feed\<close>: blocks from the RPC endpoints and from the websocket, joined into one
  channel. The goroutines are state machines that meet on unbuffered channels; \<open>feed_act\<close> lets
  one of them, or a pair that communicates, make a step. What the network answers is the
  environment: it is fixed by the endpoint, the number of the connection and the number of the
  message, and arbitrary otherwise.
\<close>

section \<open>Data (\<open>types.go\<close>, \<open>helpers.go\<close>)\<close>

record 'x BlockResult =
  bres_BlockID :: "block_id option"
  bres_Block :: "'x tm_block option"

text \<open>The request sent on a new websocket (\<open>websocket.go\<close>).\<close>

record handshake =
  hs_JSONRPC :: string
  hs_Method :: string
  hs_ID :: int
  hs_Query :: string

text \<open>
  Network and JSON library. \<open>net_Get\<close> is an HTTP request with the reading of its body;
  \<open>net_Dial ep c\<close> tells whether dialling an endpoint succeeded the \<open>c\<close>-th time, \<open>net_WriteJSON c req\<close>
  and \<open>net_First c\<close> whether sending the request and reading the first response on that connection
  did, with an error if not; \<open>net_Read c n\<close> is the \<open>n\<close>-th message of that connection, or
  \<^const>\<open>None\<close> for a read error. The parsers find the value the code's anonymous struct names,
  which is nil when the message lacks it; \<open>net_error_code\<close> is 0 when there is none.
\<close>

record 'x network =
  net_Get :: "string \<Rightarrow> bytes res"
  net_Dial :: "string \<Rightarrow> nat \<Rightarrow> unit res"
  net_WriteJSON :: "nat \<Rightarrow> handshake \<Rightarrow> unit res"
  net_First :: "nat \<Rightarrow> unit res"
  net_Read :: "nat \<Rightarrow> nat \<Rightarrow> bytes option"
  net_error_code :: "bytes \<Rightarrow> int res"
  net_ws_value :: "bytes \<Rightarrow> 'x BlockResult option res"
  net_rpc_result :: "bytes \<Rightarrow> 'x BlockResult option res"
  net_txs_results :: "bytes \<Rightarrow> abci_deliver_tx list res"

definition extractBlockFromWSResponse :: "'x network \<Rightarrow> bytes \<Rightarrow> 'x BlockResult option res" where
  "extractBlockFromWSResponse N message = net_ws_value N message"

definition ExtractBlockFromRPCResponse :: "'x network \<Rightarrow> bytes \<Rightarrow> 'x BlockResult option res" where
  "ExtractBlockFromRPCResponse N message = net_rpc_result N message"

definition ExtractBlockResultFromRPCResponse :: "'x network \<Rightarrow> bytes \<Rightarrow> abci_deliver_tx list res" where
  "ExtractBlockResultFromRPCResponse N message = net_txs_results N message"

definition index_panic :: string where
  "index_panic = ''index out of range''"

section \<open>RPC (\<open>rpc.go\<close>)\<close>

text \<open>
  A goroutine running \<open>SyncFromUntil\<close>: about to test the loop condition, blocked sending a
  block, blocked sending the final nil, or done. All of them send on the same channel.
\<close>

datatype 'x rpc_proc =
    RpcLoop int64 int64 nat
  | RpcGive "'x BlockResult option" int64 int64 nat
  | RpcGiveDone
  | RpcEnd

text \<open>\<open>log.Fatalf\<close> ends the process, like a panic.\<close>

definition rpc_url :: "string \<Rightarrow> int64 \<Rightarrow> string" where
  "rpc_url endpoint i = endpoint @ ''/block?height='' @ Sprintf_d (sint i)"

fun SyncFromUntil :: "'x network \<Rightarrow> string list \<Rightarrow> 'x rpc_proc \<Rightarrow> 'x rpc_proc res option" where
  "SyncFromUntil N rpcEndpoints (RpcLoop i to rpcIndex) = Some
     (if sint i \<le> sint to then
        if rpcIndex < length rpcEndpoints then
          (case net_Get N (rpc_url (rpcEndpoints ! rpcIndex) i) of
             Ok resBytes \<Rightarrow>
               (case ExtractBlockFromRPCResponse N resBytes of
                  Ok block \<Rightarrow> Ok (RpcGive block i to rpcIndex)
                | Err e \<Rightarrow> Panic ''block parse failed''
                | Panic p \<Rightarrow> Panic p)
           | Err e \<Rightarrow> Panic ''block request failed''
           | Panic p \<Rightarrow> Panic p)
        else Panic index_panic
      else Ok RpcGiveDone)"
| "SyncFromUntil N rpcEndpoints (RpcGive block i to rpcIndex) = None"
| "SyncFromUntil N rpcEndpoints RpcGiveDone = None"
| "SyncFromUntil N rpcEndpoints RpcEnd = None"

text \<open>What a receiver gets from the channel, and how the sender goes on.\<close>

fun rpc_send :: "'x rpc_proc \<Rightarrow> ('x BlockResult option \<times> 'x rpc_proc) option" where
  "rpc_send (RpcGive block i to rpcIndex) = Some (block, RpcLoop (i + 1) to rpcIndex)"
| "rpc_send RpcGiveDone = Some (None, RpcEnd)"
| "rpc_send (RpcLoop i to rpcIndex) = None"
| "rpc_send RpcEnd = None"

section \<open>Websocket (\<open>websocket.go\<close>)\<close>

datatype 'x ws_pc = WsReading | WsGive "'x BlockResult option" | WsGiveDone | WsClosed

text \<open>\<open>Subscribe\<close> up to the start of the reader; the first response is read and dropped.\<close>

definition new_handshake :: handshake where
  "new_handshake = \<lparr>hs_JSONRPC = ''2.0'', hs_Method = ''subscribe'', hs_ID = 0, hs_Query = ''tm.event = '' @ [CHR 0x27] @ ''NewBlock'' @ [CHR 0x27]\<rparr>"

definition handleInitialHandhake :: "'x network \<Rightarrow> nat \<Rightarrow> unit res" where
  "handleInitialHandhake N c = net_First N c"

definition ws_Subscribe :: "'x network \<Rightarrow> string list \<Rightarrow> nat \<Rightarrow> nat \<Rightarrow> unit res" where
  "ws_Subscribe N wsEndpoints rpcIndex c =
     (if length wsEndpoints \<le> rpcIndex then Panic index_panic
      else
        bind_res (net_Dial N (wsEndpoints ! rpcIndex) c) (\<lambda>_.
        bind_res (net_WriteJSON N c new_handshake) (\<lambda>_. handleInitialHandhake N c)))"

text \<open>A goroutine running \<open>receiveBlockEvents\<close> on its own connection and channel.\<close>

record 'x ws_proc =
  wp_conn :: nat
  wp_read :: nat
  wp_closed :: bool
  wp_pc :: "'x ws_pc"

definition new_ws :: "nat \<Rightarrow> 'x ws_proc" where
  "new_ws c = \<lparr>wp_conn = c, wp_read = 0, wp_closed = False, wp_pc = WsReading\<rparr>"

definition receiveBlockEvents :: "'x network \<Rightarrow> 'x ws_proc \<Rightarrow> 'x ws_proc res option" where
  "receiveBlockEvents N w =
     (case wp_pc w of
        WsReading \<Rightarrow> Some
          (case (if wp_closed w then None else net_Read N (wp_conn w) (wp_read w)) of
             None \<Rightarrow> Ok (w\<lparr>wp_closed := True, wp_pc := WsGiveDone\<rparr>)
           | Some message \<Rightarrow>
               (case net_error_code N message of
                  Ok code \<Rightarrow>
                    (case extractBlockFromWSResponse N message of
                       Ok block \<Rightarrow> Ok (w\<lparr>wp_read := wp_read w + 1, wp_closed := wp_closed w \<or> code \<noteq> 0,
                         wp_pc := WsGive block\<rparr>)
                     | Err e \<Rightarrow> Panic e
                     | Panic p \<Rightarrow> Panic p)
                | Err e \<Rightarrow> Panic e
                | Panic p \<Rightarrow> Panic p))
      | _ \<Rightarrow> None)"

text \<open>After the final nil the channel is closed: every later receive gives nil.\<close>

definition ws_send :: "'x ws_proc \<Rightarrow> ('x BlockResult option \<times> 'x ws_proc) option" where
  "ws_send w =
     (case wp_pc w of
        WsReading \<Rightarrow> None
      | WsGive block \<Rightarrow> Some (block, w\<lparr>wp_pc := WsReading\<rparr>)
      | WsGiveDone \<Rightarrow> Some (None, w\<lparr>wp_pc := WsClosed\<rparr>)
      | WsClosed \<Rightarrow> Some (None, w))"

section \<open>The aggregate (\<open>aggregate.go\<close>)\<close>

record AggregateSubscription =
  ag_wsEndpoints :: "string list"
  ag_rpcEndpoints :: "string list"
  ag_lastKnownBlock :: int64
  ag_lastKnownEndpointIdx :: nat
  ag_wsEndpointsLength :: nat
  ag_isSynced :: bool

definition NewAggregateBlockFeed :: "int64 \<Rightarrow> string list \<Rightarrow> string list \<Rightarrow> AggregateSubscription" where
  "NewAggregateBlockFeed currentBlock rpcEndpoints wsEndpoints =
     \<lparr>ag_wsEndpoints = wsEndpoints, ag_rpcEndpoints = rpcEndpoints, ag_lastKnownBlock = currentBlock,
      ag_lastKnownEndpointIdx = 0, ag_wsEndpointsLength = length wsEndpoints, ag_isSynced = False\<rparr>"

definition setSyncState :: "AggregateSubscription \<Rightarrow> bool \<Rightarrow> AggregateSubscription" where
  "setSyncState ags state = ags\<lparr>ag_isSynced := state\<rparr>"

definition IsSynced :: "AggregateSubscription \<Rightarrow> bool" where
  "IsSynced ags = ag_isSynced ags"

definition nextWSEndpoint :: "AggregateSubscription \<Rightarrow> (nat \<times> AggregateSubscription) res" where
  "nextWSEndpoint ags =
     (if ag_wsEndpointsLength ags = 0 then Panic ''integer divide by zero''
      else let i = (ag_lastKnownEndpointIdx ags + 1) mod ag_wsEndpointsLength ags
           in Ok (i, ags\<lparr>ag_lastKnownEndpointIdx := i\<rparr>))"

text \<open>
  Where the subscription is: in \<open>Subscribe\<close> (dialling, before the first and the second receive),
  in its goroutine (receiving from RPC, sending what came from there, receiving from the
  websocket, sending what came from there), before a reconnection, or returned from \<open>Subscribe\<close>
  without a goroutine. The flag of \<open>SubDial\<close> tells the first subscription from a reconnection.
\<close>

datatype 'x agg_pc =
    SubDial bool nat
  | SubFirst nat
  | SubSecond nat
  | AggRpc
  | AggEmitRpc "'x BlockResult"
  | AggWs
  | AggEmitWs "'x BlockResult"
  | AggReconnect
  | AggIdle

record 'x feed =
  fd_ags :: AggregateSubscription
  fd_pc :: "'x agg_pc"
  fd_rpcs :: "'x rpc_proc list"
  fd_wss :: "'x ws_proc list"
  fd_conns :: nat
  fd_out :: "'x BlockResult list"
  fd_dead :: "string option"

text \<open>The state when \<open>main\<close> calls \<open>Subscribe(0)\<close>.\<close>

definition feed_init :: "AggregateSubscription \<Rightarrow> 'x feed" where
  "feed_init ags = \<lparr>fd_ags = ags, fd_pc = SubDial True 0, fd_rpcs = [], fd_wss = [], fd_conns = 0,
     fd_out = [], fd_dead = None\<rparr>"

definition feed_panic :: "'x feed \<Rightarrow> string \<Rightarrow> 'x feed" where
  "feed_panic s p = s\<lparr>fd_dead := Some p\<rparr>"

text \<open>
  \<open>Subscribe\<close> up to the first receive: an error of the first subscription ends \<open>main\<close>, later ones
  lead to another reconnection.
\<close>

definition subscribe_dial :: "'x network \<Rightarrow> bool \<Rightarrow> nat \<Rightarrow> 'x feed \<Rightarrow> 'x feed" where
  "subscribe_dial N first rpcIndex s =
     (let c = fd_conns s; s1 = s\<lparr>fd_conns := c + 1\<rparr> in
      case ws_Subscribe N (ag_wsEndpoints (fd_ags s)) rpcIndex c of
        Ok _ \<Rightarrow> s1\<lparr>fd_ags := setSyncState (fd_ags s) False, fd_wss := fd_wss s @ [new_ws c], fd_pc := SubFirst rpcIndex\<rparr>
      | Err e \<Rightarrow> if first then feed_panic s1 e else s1\<lparr>fd_pc := AggReconnect\<rparr>
      | Panic p \<Rightarrow> feed_panic s1 p)"

text \<open>The block the second receive gave decides between syncing over RPC and doing nothing at all.\<close>

definition subscribe_decide :: "nat \<Rightarrow> 'x BlockResult option \<Rightarrow> 'x feed \<Rightarrow> 'x feed" where
  "subscribe_decide rpcIndex firstBlock s =
     (case firstBlock of
        None \<Rightarrow> feed_panic s ''nil dereference''
      | Some r \<Rightarrow>
          (case bres_Block r of
             None \<Rightarrow> feed_panic s ''nil dereference''
           | Some block \<Rightarrow>
               if blk_Height block \<noteq> ag_lastKnownBlock (fd_ags s) + 1 then
                 s\<lparr>fd_rpcs := fd_rpcs s @ [RpcLoop (ag_lastKnownBlock (fd_ags s) + 1) (blk_Height block) rpcIndex],
                   fd_pc := AggRpc\<rparr>
               else s\<lparr>fd_pc := AggIdle\<rparr>))"

text \<open>A nil from RPC switches to the websocket.\<close>

definition agg_from_rpc :: "'x BlockResult option \<Rightarrow> 'x feed \<Rightarrow> 'x feed" where
  "agg_from_rpc r s = s\<lparr>fd_pc := (case r of Some b \<Rightarrow> AggEmitRpc b | None \<Rightarrow> AggWs)\<rparr>"

text \<open>\<open>Close\<close> closes the current websocket; its result, always an error, is dropped.\<close>

definition agg_Close :: "'x feed \<Rightarrow> string option \<times> 'x feed" where
  "agg_Close s = (Some ''error during aggregate subscription close'',
     s\<lparr>fd_wss := (case fd_wss s of [] \<Rightarrow> [] | _ \<Rightarrow> (fd_wss s)[length (fd_wss s) - 1 := (last (fd_wss s))\<lparr>wp_closed := True\<rparr>])\<rparr>)"

definition agg_from_ws :: "'x BlockResult option \<Rightarrow> 'x feed \<Rightarrow> 'x feed" where
  "agg_from_ws r s =
     (case r of
        None \<Rightarrow> (snd (agg_Close (s\<lparr>fd_ags := setSyncState (fd_ags s) False\<rparr>)))\<lparr>fd_pc := AggReconnect\<rparr>
      | Some b \<Rightarrow> s\<lparr>fd_ags := setSyncState (fd_ags s) True, fd_pc := AggEmitWs b\<rparr>)"

text \<open>\<open>main\<close> takes a block; the goroutine records its height and goes on with \<open>pc\<close>.\<close>

definition agg_emit :: "'x BlockResult \<Rightarrow> 'x agg_pc \<Rightarrow> 'x feed \<Rightarrow> 'x feed" where
  "agg_emit r pc s =
     (let s1 = s\<lparr>fd_out := fd_out s @ [r]\<rparr> in
      case bres_Block r of
        None \<Rightarrow> feed_panic s1 ''nil dereference''
      | Some block \<Rightarrow> s1\<lparr>fd_ags := (fd_ags s)\<lparr>ag_lastKnownBlock := blk_Height block\<rparr>, fd_pc := pc\<rparr>)"

definition agg_reconnect :: "'x feed \<Rightarrow> 'x feed" where
  "agg_reconnect s =
     (case nextWSEndpoint (fd_ags s) of
        Ok (i, ags) \<Rightarrow> s\<lparr>fd_ags := ags, fd_pc := SubDial False i\<rparr>
      | Err e \<Rightarrow> s
      | Panic p \<Rightarrow> feed_panic s p)"

section \<open>Steps\<close>

text \<open>
  Who moves: an RPC goroutine, a websocket goroutine, the subscription alone (dialling,
  reconnecting, or handing a block to \<open>main\<close>), or the subscription together with an RPC
  goroutine, or with the current websocket goroutine.
\<close>

datatype feed_action = ActRpc nat | ActWs nat | ActAgg | MeetRpc nat | MeetWs

definition local_step ::
  "('p \<Rightarrow> 'p res option) \<Rightarrow> 'p list \<Rightarrow> nat \<Rightarrow> ('p list \<Rightarrow> 'x feed) \<Rightarrow> 'x feed \<Rightarrow> 'x feed option" where
  "local_step step ps j put s =
     (if j < length ps then
        (case step (ps ! j) of
           Some (Ok p') \<Rightarrow> Some (put (ps[j := p']))
         | Some (Err e) \<Rightarrow> Some (feed_panic s e)
         | Some (Panic e) \<Rightarrow> Some (feed_panic s e)
         | None \<Rightarrow> None)
      else None)"

definition agg_step :: "'x network \<Rightarrow> 'x feed \<Rightarrow> 'x feed option" where
  "agg_step N s =
     (case fd_pc s of
        SubDial first i \<Rightarrow> Some (subscribe_dial N first i s)
      | AggReconnect \<Rightarrow> Some (agg_reconnect s)
      | AggEmitRpc r \<Rightarrow> Some (agg_emit r AggRpc s)
      | AggEmitWs r \<Rightarrow> Some (agg_emit r AggWs s)
      | _ \<Rightarrow> None)"

definition meet_rpc :: "nat \<Rightarrow> 'x feed \<Rightarrow> 'x feed option" where
  "meet_rpc j s =
     (if fd_pc s = AggRpc \<and> j < length (fd_rpcs s) then
        (case rpc_send (fd_rpcs s ! j) of
           Some (r, p') \<Rightarrow> Some (agg_from_rpc r (s\<lparr>fd_rpcs := (fd_rpcs s)[j := p']\<rparr>))
         | None \<Rightarrow> None)
      else None)"

definition meet_ws :: "'x feed \<Rightarrow> 'x feed option" where
  "meet_ws s =
     (if fd_wss s = [] then None
      else case ws_send (last (fd_wss s)) of
          None \<Rightarrow> None
        | Some (r, w') \<Rightarrow>
            let s1 = s\<lparr>fd_wss := (fd_wss s)[length (fd_wss s) - 1 := w']\<rparr> in
            (case fd_pc s of
               SubFirst i \<Rightarrow> Some (s1\<lparr>fd_pc := SubSecond i\<rparr>)
             | SubSecond i \<Rightarrow> Some (subscribe_decide i r s1)
             | AggWs \<Rightarrow> Some (agg_from_ws r s1)
             | _ \<Rightarrow> None))"

fun feed_act :: "'x network \<Rightarrow> feed_action \<Rightarrow> 'x feed \<Rightarrow> 'x feed option" where
  "feed_act N a s =
     (if fd_dead s \<noteq> None then None
      else case a of
          ActRpc j \<Rightarrow> local_step (SyncFromUntil N (ag_rpcEndpoints (fd_ags s))) (fd_rpcs s) j
            (\<lambda>ps. s\<lparr>fd_rpcs := ps\<rparr>) s
        | ActWs j \<Rightarrow> local_step (receiveBlockEvents N) (fd_wss s) j (\<lambda>ps. s\<lparr>fd_wss := ps\<rparr>) s
        | ActAgg \<Rightarrow> agg_step N s
        | MeetRpc j \<Rightarrow> meet_rpc j s
        | MeetWs \<Rightarrow> meet_ws s)"

inductive feed_reach :: "'x network \<Rightarrow> 'x feed \<Rightarrow> 'x feed \<Rightarrow> bool" for N s0 where
  start: "feed_reach N s0 s0"
| step: "feed_reach N s0 s \<Longrightarrow> feed_act N a s = Some s' \<Longrightarrow> feed_reach N s0 s'"

fun feed_run :: "'x network \<Rightarrow> feed_action list \<Rightarrow> 'x feed \<Rightarrow> 'x feed option" where
  "feed_run N [] s = Some s"
| "feed_run N (a # as) s = (case feed_act N a s of None \<Rightarrow> None | Some s' \<Rightarrow> feed_run N as s')"

declare feed_act.simps [simp del]

lemma feed_run_reach: "feed_run N as s = Some s' \<Longrightarrow> feed_reach N s0 s \<Longrightarrow> feed_reach N s0 s'"
  by (induction as arbitrary: s) (auto split: option.splits intro: feed_reach.step)

end
