(* ===== verification/Block_Feed_Correct.thy ===== *)
theory Block_Feed_Correct
  imports Block_Feed
begin

text \<open>
  Correctness of the block feed. \<open>honest_network\<close> is what the feed relies on: RPC answers with
  the block that was asked for, a websocket connection delivers consecutive blocks, and a new
  connection is not behind the blocks already seen. Then \<open>main\<close> gets every block once and in
  order, over any number of reconnections and in every interleaving.
\<close>

section \<open>The network as an interface\<close>

locale honest_network =
  fixes N :: "'x network" and chain :: "nat \<Rightarrow> 'x tm_block" and start :: "nat \<Rightarrow> nat"
    and eps :: "string list" and n0 :: nat
  assumes chain_height: "n < 2 ^ 63 \<Longrightarrow> blk_Height (chain n) = of_nat n"
    and rpc_honest: "ep \<in> set eps \<Longrightarrow> n < 2 ^ 63 \<Longrightarrow> net_Get N (rpc_url ep (of_nat n)) = Ok body \<Longrightarrow>
      net_rpc_result N body = Ok v \<Longrightarrow> \<exists>r. v = Some r \<and> bres_Block r = Some (chain n)"
    and ws_bound: "net_Read N c j = Some m \<Longrightarrow> start c + j < 2 ^ 63 - 1"
    and ws_honest: "net_Read N c j = Some m \<Longrightarrow> net_ws_value N m = Ok v \<Longrightarrow>
      \<exists>r. v = Some r \<and> bres_Block r = Some (chain (start c + j))"
    and ws_forward: "c < c' \<Longrightarrow> net_Read N c j = Some m \<Longrightarrow> start c + j \<le> start c'"
    and not_behind: "n0 \<le> start c"

text \<open>The index of the next message the reader will hand over.\<close>

definition deliv :: "'x ws_proc \<Rightarrow> nat" where
  "deliv w = (case wp_pc w of WsGive v \<Rightarrow> wp_read w - 1 | _ \<Rightarrow> wp_read w)"

definition ws_ok :: "'x network \<Rightarrow> (nat \<Rightarrow> 'x tm_block) \<Rightarrow> (nat \<Rightarrow> nat) \<Rightarrow> 'x ws_proc \<Rightarrow> bool" where
  "ws_ok N chain start w \<longleftrightarrow>
     (\<forall>j < wp_read w. net_Read N (wp_conn w) j \<noteq> None) \<and>
     (\<forall>v. wp_pc w = WsGive v \<longrightarrow> 0 < wp_read w \<and>
        (\<exists>r. v = Some r \<and> bres_Block r = Some (chain (start (wp_conn w) + wp_read w - 1))))"

text \<open>An RPC goroutine that has handed over the blocks up to \<open>m\<close> and stops after \<open>h\<close>.\<close>

fun rpc_ok :: "(nat \<Rightarrow> 'x tm_block) \<Rightarrow> nat \<Rightarrow> nat \<Rightarrow> 'x rpc_proc \<Rightarrow> bool" where
  "rpc_ok chain m h (RpcLoop i to k) \<longleftrightarrow> i = of_nat (m + 1) \<and> to = of_nat h \<and> m \<le> h"
| "rpc_ok chain m h (RpcGive v i to k) \<longleftrightarrow> i = of_nat (m + 1) \<and> to = of_nat h \<and> m + 1 \<le> h \<and>
     (\<exists>r. v = Some r \<and> bres_Block r = Some (chain (m + 1)))"
| "rpc_ok chain m h RpcGiveDone \<longleftrightarrow> m = h"
| "rpc_ok chain m h RpcEnd \<longleftrightarrow> False"

definition rpcs_done :: "'x feed \<Rightarrow> bool" where
  "rpcs_done s \<longleftrightarrow> set (fd_rpcs s) \<subseteq> {RpcEnd}"

definition rpcs_busy :: "(nat \<Rightarrow> 'x tm_block) \<Rightarrow> nat \<Rightarrow> nat \<Rightarrow> 'x feed \<Rightarrow> bool" where
  "rpcs_busy chain m h s \<longleftrightarrow> (\<exists>ps p. fd_rpcs s = ps @ [p] \<and> set ps \<subseteq> {RpcEnd} \<and> rpc_ok chain m h p)"

text \<open>The place of the subscription, with \<open>l\<close> the last block handed to \<open>main\<close>.\<close>

definition pc_ok :: "(nat \<Rightarrow> 'x tm_block) \<Rightarrow> (nat \<Rightarrow> nat) \<Rightarrow> nat \<Rightarrow> 'x feed \<Rightarrow> bool" where
  "pc_ok chain start l s \<longleftrightarrow>
     (let w = last (fd_wss s); c = wp_conn w in
      case fd_pc s of
        SubDial first i \<Rightarrow> rpcs_done s \<and> (\<forall>c' \<ge> fd_conns s. l \<le> start c')
      | AggReconnect \<Rightarrow> rpcs_done s \<and> (\<forall>c' \<ge> fd_conns s. l \<le> start c')
      | SubFirst i \<Rightarrow> rpcs_done s \<and> fd_wss s \<noteq> [] \<and> l \<le> start c \<and> deliv w = 0
      | SubSecond i \<Rightarrow> rpcs_done s \<and> fd_wss s \<noteq> [] \<and> l \<le> start c \<and> (deliv w = 1 \<or> wp_pc w = WsClosed)
      | AggRpc \<Rightarrow> rpcs_busy chain l (start c + 1) s \<and> fd_wss s \<noteq> [] \<and> deliv w = 2
      | AggEmitRpc r \<Rightarrow> rpcs_busy chain (l + 1) (start c + 1) s \<and> fd_wss s \<noteq> [] \<and> deliv w = 2 \<and>
          bres_Block r = Some (chain (l + 1)) \<and> l \<le> start c
      | AggWs \<Rightarrow> rpcs_done s \<and> fd_wss s \<noteq> [] \<and> l + 1 = start c + deliv w \<and> 0 < deliv w
      | AggEmitWs r \<Rightarrow> rpcs_done s \<and> fd_wss s \<noteq> [] \<and> l + 2 = start c + deliv w \<and> 1 < deliv w \<and>
          bres_Block r = Some (chain (l + 1))
      | AggIdle \<Rightarrow> rpcs_done s)"

definition feed_inv ::
  "'x network \<Rightarrow> (nat \<Rightarrow> 'x tm_block) \<Rightarrow> (nat \<Rightarrow> nat) \<Rightarrow> string list \<Rightarrow> nat \<Rightarrow> 'x feed \<Rightarrow> bool" where
  "feed_inv N chain start eps n0 s \<longleftrightarrow>
     map bres_Block (fd_out s) = map (\<lambda>i. Some (chain (n0 + 1 + i))) [0..<length (fd_out s)] \<and>
     (fd_dead s = None \<longrightarrow>
        ag_rpcEndpoints (fd_ags s) = eps \<and>
        ag_lastKnownBlock (fd_ags s) = of_nat (n0 + length (fd_out s)) \<and>
        (\<forall>w \<in> set (fd_wss s). ws_ok N chain start w \<and> wp_conn w < fd_conns s) \<and>
        pc_ok chain start (n0 + length (fd_out s)) s)"

lemma feed_inv_panic [simp]: "feed_inv N chain start eps n0 s \<Longrightarrow> feed_inv N chain start eps n0 (feed_panic s p)"
  by (simp add: feed_inv_def feed_panic_def)

section \<open>Every step keeps the invariant\<close>

lemma sint_of_nat_small: "n < 2 ^ 63 \<Longrightarrow> sint (of_nat n :: int64) = int n"
  by (simp add: signed_of_nat signed_take_bit_int_eq_self)

lemma word_of_nat_small: "m < 2 ^ 63 \<Longrightarrow> n < 2 ^ 63 \<Longrightarrow> (of_nat m :: int64) = of_nat n \<longleftrightarrow> m = n"
  by (metis of_nat_eq_iff sint_of_nat_small)

text \<open>The reader, as a whole list of goroutines of which one moves.\<close>

lemma set_update_last: "xs \<noteq> [] \<Longrightarrow> xs[length xs - 1 := x] = butlast xs @ [x]"
  by (metis append_butlast_last_id length_butlast list_update_length)

definition moved ::
  "'x feed \<Rightarrow> 'x agg_pc \<Rightarrow> 'x rpc_proc list \<Rightarrow> AggregateSubscription \<Rightarrow> 'x ws_proc \<Rightarrow> 'x feed" where
  "moved s pc rs ags w = s\<lparr>fd_pc := pc, fd_rpcs := rs, fd_ags := ags, fd_wss := butlast (fd_wss s) @ [w]\<rparr>"

lemma moved_simps [simp]:
  "fd_pc (moved s pc rs ags w) = pc" "fd_rpcs (moved s pc rs ags w) = rs" "fd_conns (moved s pc rs ags w) = fd_conns s"
  "fd_wss (moved s pc rs ags w) = butlast (fd_wss s) @ [w]" "fd_out (moved s pc rs ags w) = fd_out s"
  by (simp_all add: moved_def)

lemma agg_Close_snoc:
  "fd_wss s = ws @ [w] \<Longrightarrow> snd (agg_Close s) = s\<lparr>fd_wss := ws @ [w\<lparr>wp_closed := True\<rparr>]\<rparr>"
  by (cases ws) (simp_all add: agg_Close_def)

context honest_network
begin

abbreviation inv where
  "inv \<equiv> feed_inv N chain start eps n0"

lemma reader_step:
  assumes "receiveBlockEvents N w = Some (Ok w')" and "ws_ok N chain start w"
  shows "ws_ok N chain start w' \<and> wp_conn w' = wp_conn w \<and> deliv w' = deliv w \<and> wp_pc w = WsReading \<and> wp_pc w' \<noteq> WsClosed"
  using assms
  by (auto simp: receiveBlockEvents_def ws_ok_def deliv_def extractBlockFromWSResponse_def less_Suc_eq
      split: ws_pc.splits option.splits res.splits if_splits dest: ws_honest)

lemma reader_send:
  assumes "ws_send w = Some (r, w')" and "ws_ok N chain start w"
  shows "ws_ok N chain start w'" "wp_conn w' = wp_conn w"
    "(\<exists>b m. r = Some b \<and> bres_Block b = Some (chain (start (wp_conn w) + deliv w)) \<and> deliv w' = deliv w + 1 \<and>
       net_Read N (wp_conn w) (deliv w) = Some m) \<or>
     r = None \<and> deliv w' = deliv w \<and> wp_pc w' = WsClosed"
  using assms
  by (auto simp: ws_send_def ws_ok_def deliv_def split: ws_pc.splits)

lemma pc_ok_wss:
  assumes "pc_ok chain start l s" and "ws' \<noteq> []" and "wp_conn (last ws') = wp_conn (last (fd_wss s))"
    and "deliv (last ws') = deliv (last (fd_wss s))"
    and "wp_pc (last (fd_wss s)) = WsClosed \<Longrightarrow> wp_pc (last ws') = WsClosed"
  shows "pc_ok chain start l (s\<lparr>fd_wss := ws'\<rparr>)"
  using assms
  by (auto simp: pc_ok_def Let_def rpcs_done_def rpcs_busy_def split: agg_pc.splits)

lemma inv_ActWs:
  assumes "inv s" and "fd_dead s = None"
    and "local_step (receiveBlockEvents N) (fd_wss s) j (\<lambda>ps. s\<lparr>fd_wss := ps\<rparr>) s = Some s'"
  shows "inv s'"
proof (cases "receiveBlockEvents N (fd_wss s ! j)")
  case None
  then show ?thesis
    using assms(3) by (simp add: local_step_def split: if_splits)
next
  case (Some r)
  show ?thesis
  proof (cases r)
    case (Ok w')
    have j: "j < length (fd_wss s)" and s': "s' = s\<lparr>fd_wss := (fd_wss s)[j := w']\<rparr>"
      using assms(3) Some Ok by (auto simp: local_step_def split: if_splits)
    have "ws_ok N chain start (fd_wss s ! j)"
      using assms(1,2) j by (simp add: feed_inv_def)
    note w' = reader_step [OF Some [unfolded Ok] this]
    have ok: "pc_ok chain start (n0 + length (fd_out s)) (s\<lparr>fd_wss := (fd_wss s)[j := w']\<rparr>)"
    proof (rule pc_ok_wss)
      have ne: "fd_wss s \<noteq> []" using j by auto
      have last: "last ((fd_wss s)[j := w']) = (if j = length (fd_wss s) - 1 then w' else last (fd_wss s))"
        using last_list_update [OF ne] .
      show "wp_conn (last ((fd_wss s)[j := w'])) = wp_conn (last (fd_wss s))"
        and "deliv (last ((fd_wss s)[j := w'])) = deliv (last (fd_wss s))"
        and "wp_pc (last (fd_wss s)) = WsClosed \<Longrightarrow> wp_pc (last ((fd_wss s)[j := w'])) = WsClosed"
        using w' unfolding last by (auto simp: last_conv_nth [OF ne])
    qed (use assms(1,2) j in \<open>auto simp: feed_inv_def\<close>)
    have "wp_conn w' < fd_conns s"
      using assms(1,2) w' j by (simp add: feed_inv_def)
    then show ?thesis
      using assms(1,2) w' ok s' by (auto simp: feed_inv_def dest: set_update_subset_insert [THEN subsetD])
  next
    case (Err e)
    then show ?thesis
      using assms Some by (auto simp: local_step_def split: if_splits)
  next
    case (Panic e)
    then show ?thesis
      using assms Some by (auto simp: local_step_def split: if_splits)
  qed
qed

text \<open>The RPC goroutine.\<close>

lemma fetch_step:
  assumes "SyncFromUntil N eps p = Some (Ok p')" and "rpc_ok chain m h p" and "h < 2 ^ 63 - 1"
  shows "rpc_ok chain m h p'"
proof -
  obtain i to k where p: "p = RpcLoop i to k"
    using assms(1) by (cases p) auto
  with assms(2) have i: "i = of_nat (m + 1)" "to = of_nat h" "m \<le> h" by simp_all
  then have le: "sint i \<le> sint to \<longleftrightarrow> m + 1 \<le> h"
    using assms(3) sint_of_nat_small [of "m + 1"] sint_of_nat_small [of h] by auto
  show ?thesis
  proof (cases "sint i \<le> sint to")
    case True
    with p assms(1) obtain body v where "k < length eps" "net_Get N (rpc_url (eps ! k) i) = Ok body"
      "net_rpc_result N body = Ok v" "p' = RpcGive v i to k"
      by (auto simp: ExtractBlockFromRPCResponse_def split: if_splits res.splits)
    with rpc_honest [of "eps ! k" "m + 1" body v] i le True assms(3) show ?thesis
      by simp
  next
    case False
    with p assms(1) le i show ?thesis by auto
  qed
qed

lemma pc_ok_rpcs:
  assumes "pc_ok chain start l s" and "rpcs_done s \<Longrightarrow> set ps' \<subseteq> {RpcEnd}"
    and "\<And>m. rpcs_busy chain m (start (wp_conn (last (fd_wss s))) + 1) s \<Longrightarrow> deliv (last (fd_wss s)) = 2 \<Longrightarrow>
      rpcs_busy chain m (start (wp_conn (last (fd_wss s))) + 1) (s\<lparr>fd_rpcs := ps'\<rparr>)"
  shows "pc_ok chain start l (s\<lparr>fd_rpcs := ps'\<rparr>)"
  using assms
  by (auto simp: pc_ok_def Let_def rpcs_done_def split: agg_pc.splits)

lemma deliv_bound:
  assumes "ws_ok N chain start w" and "deliv w = Suc k"
  shows "start (wp_conn w) + k < 2 ^ 63 - 1" "\<exists>m. net_Read N (wp_conn w) k = Some m"
proof -
  have "k < wp_read w"
    using assms(2) by (auto simp: deliv_def split: ws_pc.splits)
  then show "\<exists>m. net_Read N (wp_conn w) k = Some m"
    using assms(1) by (auto simp: ws_ok_def)
  then show "start (wp_conn w) + k < 2 ^ 63 - 1"
    using ws_bound by blast
qed

lemma inv_ActRpc:
  assumes "inv s" and "fd_dead s = None"
    and "local_step (SyncFromUntil N (ag_rpcEndpoints (fd_ags s))) (fd_rpcs s) j (\<lambda>ps. s\<lparr>fd_rpcs := ps\<rparr>) s = Some s'"
  shows "inv s'"
proof (cases "\<exists>p. s' = feed_panic s p")
  case True
  with assms(1) show ?thesis by auto
next
  case False
  with assms(3) obtain p' where j: "j < length (fd_rpcs s)" and s': "s' = s\<lparr>fd_rpcs := (fd_rpcs s)[j := p']\<rparr>"
    and p': "SyncFromUntil N (ag_rpcEndpoints (fd_ags s)) (fd_rpcs s ! j) = Some (Ok p')"
    by (auto simp: local_step_def split: if_splits option.splits res.splits)
  have eps: "ag_rpcEndpoints (fd_ags s) = eps"
    using assms(1,2) by (simp add: feed_inv_def)
  have not_end: "fd_rpcs s ! j \<noteq> RpcEnd"
    using p' by auto
  have "pc_ok chain start (n0 + length (fd_out s)) (s\<lparr>fd_rpcs := (fd_rpcs s)[j := p']\<rparr>)"
  proof (rule pc_ok_rpcs)
    show "pc_ok chain start (n0 + length (fd_out s)) s"
      using assms(1,2) by (simp add: feed_inv_def)
    show "set ((fd_rpcs s)[j := p']) \<subseteq> {RpcEnd}" if "rpcs_done s"
      using that j not_end by (force simp: rpcs_done_def)
    fix m
    let ?h = "start (wp_conn (last (fd_wss s))) + 1"
    assume "rpcs_busy chain m ?h s" and two: "deliv (last (fd_wss s)) = 2"
    then obtain ps p where ps: "fd_rpcs s = ps @ [p]" "set ps \<subseteq> {RpcEnd}" "rpc_ok chain m ?h p"
      by (auto simp: rpcs_busy_def)
    then have last: "j = length ps"
      using j not_end by (force simp: nth_append less_Suc_eq split: if_splits)
    have "fd_wss s \<noteq> []"
      using assms(1,2) ps(1,3) by (auto simp: feed_inv_def pc_ok_def rpcs_done_def Let_def split: agg_pc.splits)
    then have "ws_ok N chain start (last (fd_wss s))"
      using assms(1,2) by (simp add: feed_inv_def)
    then have "?h < 2 ^ 63 - 1"
      using deliv_bound [of "last (fd_wss s)" 1] two by simp
    then have "rpc_ok chain m ?h p'"
      using fetch_step [of p p' m ?h] p' ps last eps by simp
    then show "rpcs_busy chain m ?h (s\<lparr>fd_rpcs := (fd_rpcs s)[j := p']\<rparr>)"
      using ps last by (auto simp: rpcs_busy_def)
  qed
  with assms(1,2) s' show ?thesis
    by (simp add: feed_inv_def)
qed

text \<open>The subscription alone.\<close>

lemma inv_dial:
  assumes "inv s" and "fd_dead s = None" and "fd_pc s = SubDial first i"
  shows "inv (subscribe_dial N first i s)"
proof -
  have "ws_ok N chain start (new_ws c :: 'x ws_proc)" "deliv (new_ws c :: 'x ws_proc) = 0" for c
    by (simp_all add: ws_ok_def new_ws_def deliv_def)
  moreover have "wp_conn (new_ws c :: 'x ws_proc) = c" for c
    by (simp add: new_ws_def)
  ultimately show ?thesis
    using assms
    by (auto simp: subscribe_dial_def feed_inv_def feed_panic_def pc_ok_def rpcs_done_def Let_def setSyncState_def
        split: res.split intro: less_SucI)
qed

lemma inv_reconnect:
  assumes "inv s" and "fd_dead s = None" and "fd_pc s = AggReconnect"
  shows "inv (agg_reconnect s)"
  using assms
  by (auto simp: agg_reconnect_def nextWSEndpoint_def feed_inv_def feed_panic_def pc_ok_def rpcs_done_def Let_def)

text \<open>Handing the block after the last one to \<open>main\<close>.\<close>

lemma inv_emit:
  assumes "inv s" and "bres_Block r = Some (chain (n0 + length (fd_out s) + 1))"
    and "n0 + length (fd_out s) + 1 < 2 ^ 63" and "fd_dead s = None"
    and "\<And>ags out. pc_ok chain start (n0 + length (fd_out s) + 1) (s\<lparr>fd_out := out, fd_ags := ags, fd_pc := pc\<rparr>)"
  shows "inv (agg_emit r pc s)"
  using assms chain_height [OF assms(3)]
  by (auto simp: agg_emit_def feed_inv_def Let_def)

lemma last_ws_ok: "inv s \<Longrightarrow> fd_dead s = None \<Longrightarrow> fd_wss s \<noteq> [] \<Longrightarrow> ws_ok N chain start (last (fd_wss s))"
  by (simp add: feed_inv_def)

lemma inv_agg_step:
  assumes "inv s" and "fd_dead s = None" and "agg_step N s = Some s'"
  shows "inv s'"
proof (cases "fd_pc s")
  case (SubDial first i)
  with assms inv_dial show ?thesis by (auto simp: agg_step_def)
next
  case AggReconnect
  with assms inv_reconnect show ?thesis by (auto simp: agg_step_def)
next
  case (AggEmitRpc r)
  let ?w = "last (fd_wss s)"
  have pc: "rpcs_busy chain (n0 + length (fd_out s) + 1) (start (wp_conn ?w) + 1) s" "fd_wss s \<noteq> []" "deliv ?w = 2"
    "bres_Block r = Some (chain (n0 + length (fd_out s) + 1))" "n0 + length (fd_out s) \<le> start (wp_conn ?w)"
    using assms(1,2) AggEmitRpc by (auto simp: feed_inv_def pc_ok_def Let_def)
  then have "n0 + length (fd_out s) + 1 < 2 ^ 63"
    using deliv_bound(1) [OF last_ws_ok [OF assms(1,2) pc(2)], of 1] by simp
  then have "inv (agg_emit r AggRpc s)"
    using pc assms by (intro inv_emit) (auto simp: pc_ok_def rpcs_busy_def Let_def)
  with assms(3) AggEmitRpc show ?thesis by (simp add: agg_step_def)
next
  case (AggEmitWs r)
  let ?w = "last (fd_wss s)"
  have pc: "rpcs_done s" "fd_wss s \<noteq> []" "n0 + length (fd_out s) + 2 = start (wp_conn ?w) + deliv ?w" "1 < deliv ?w"
    "bres_Block r = Some (chain (n0 + length (fd_out s) + 1))"
    using assms(1,2) AggEmitWs by (auto simp: feed_inv_def pc_ok_def Let_def)
  then have "n0 + length (fd_out s) + 1 < 2 ^ 63"
    using deliv_bound(1) [OF last_ws_ok [OF assms(1,2) pc(2)], of "deliv ?w - 1"] by simp
  then have "inv (agg_emit r AggWs s)"
    using pc assms by (intro inv_emit) (auto simp: pc_ok_def rpcs_done_def Let_def)
  with assms(3) AggEmitWs show ?thesis by (simp add: agg_step_def)
qed (use assms in \<open>simp_all add: agg_step_def\<close>)

text \<open>Receiving from RPC.\<close>

lemma inv_meet_rpc:
  assumes "inv s" and "fd_dead s = None" and "meet_rpc j s = Some s'"
  shows "inv s'"
proof -
  let ?w = "last (fd_wss s)" and ?l = "n0 + length (fd_out s)"
  obtain r p' where pc: "fd_pc s = AggRpc" "j < length (fd_rpcs s)" "rpc_send (fd_rpcs s ! j) = Some (r, p')"
    and s': "s' = agg_from_rpc r (s\<lparr>fd_rpcs := (fd_rpcs s)[j := p']\<rparr>)"
    using assms(3) by (auto simp: meet_rpc_def split: if_splits option.splits prod.splits)
  then have busy: "rpcs_busy chain ?l (start (wp_conn ?w) + 1) s" and ws: "fd_wss s \<noteq> []" "deliv ?w = 2"
    using assms(1,2) by (auto simp: feed_inv_def pc_ok_def Let_def)
  then obtain ps p where ps: "fd_rpcs s = ps @ [p]" "set ps \<subseteq> {RpcEnd}" "rpc_ok chain ?l (start (wp_conn ?w) + 1) p"
    by (auto simp: rpcs_busy_def)
  moreover have "fd_rpcs s ! j \<noteq> RpcEnd"
    using pc(3) by auto
  ultimately have j: "j = length ps"
    using pc(2) by (force simp: nth_append less_Suc_eq split: if_splits)
  have send: "rpc_send p = Some (r, p')" and upd: "s' = agg_from_rpc r (s\<lparr>fd_rpcs := ps @ [p']\<rparr>)"
    using pc(3) j ps(1) s' by simp_all
  have "pc_ok chain start ?l (agg_from_rpc r (s\<lparr>fd_rpcs := ps @ [p']\<rparr>))"
    using send ps(2,3) ws
    by (cases p) (auto simp: agg_from_rpc_def pc_ok_def Let_def rpcs_busy_def rpcs_done_def)
  then have "pc_ok chain start ?l s'"
    by (simp only: upd)
  with assms(1,2) s' show ?thesis
    by (simp add: feed_inv_def agg_from_rpc_def split: option.splits)
qed

text \<open>Receiving from the websocket.\<close>

lemma inv_moved:
  assumes "inv s" and "fd_dead s = None" and "fd_wss s \<noteq> []"
    and "ws_ok N chain start w" and "wp_conn w = wp_conn (last (fd_wss s))"
    and "ag_lastKnownBlock ags = ag_lastKnownBlock (fd_ags s)" and "ag_rpcEndpoints ags = ag_rpcEndpoints (fd_ags s)"
    and "pc_ok chain start (n0 + length (fd_out s)) (moved s pc rs ags w)"
  shows "inv (moved s pc rs ags w)"
proof -
  have "wp_conn w < fd_conns s"
    using assms(1-3,5) by (simp add: feed_inv_def)
  then show ?thesis
    using assms by (auto simp: feed_inv_def moved_def dest: in_set_butlastD)
qed

text \<open>The second receive of \<open>Subscribe\<close>.\<close>

lemma inv_decide:
  assumes "inv s" and "fd_dead s = None" and "fd_wss s \<noteq> []" and pc: "fd_pc s = SubSecond i"
    and send: "ws_send (last (fd_wss s)) = Some (r, w')"
  shows "inv (subscribe_decide i r (s\<lparr>fd_wss := butlast (fd_wss s) @ [w']\<rparr>))"
proof (cases r)
  case None
  with assms(1) show ?thesis
    by (simp add: subscribe_decide_def feed_inv_def feed_panic_def)
next
  case (Some b)
  let ?w = "last (fd_wss s)" and ?l = "n0 + length (fd_out s)" and ?c = "wp_conn (last (fd_wss s))"
  note w' = reader_send [OF send last_ws_ok [OF assms(1-3)]]
  have at: "rpcs_done s" "?l \<le> start ?c" "deliv ?w = 1 \<or> wp_pc ?w = WsClosed"
    and last: "ag_lastKnownBlock (fd_ags s) = of_nat ?l"
    using assms(1,2) pc by (auto simp: feed_inv_def pc_ok_def Let_def)
  then obtain m where b: "bres_Block b = Some (chain (start ?c + 1))" "deliv w' = 2" "net_Read N ?c 1 = Some m"
    using w'(3) Some send by (auto simp: ws_send_def)
  have bound: "start ?c + 1 < 2 ^ 63 - 1"
    using ws_bound [OF b(3)] .
  let ?rs = "if start ?c = ?l then fd_rpcs s else fd_rpcs s @ [RpcLoop (of_nat (?l + 1)) (of_nat (start ?c + 1)) i]"
  let ?pc = "if start ?c = ?l then AggIdle else AggRpc"
  have "(of_nat (start ?c + 1) :: int64) = of_nat (?l + 1) \<longleftrightarrow> start ?c + 1 = ?l + 1"
    using bound at(2) by (intro word_of_nat_small) auto
  then have "subscribe_decide i r (s\<lparr>fd_wss := butlast (fd_wss s) @ [w']\<rparr>) = moved s ?pc ?rs (fd_ags s) w'"
    using Some b(1) chain_height [of "start ?c + 1"] bound last
    by (auto simp: subscribe_decide_def moved_def)
  moreover have "pc_ok chain start ?l (moved s ?pc ?rs (fd_ags s) w')"
    using at b(2) w'(2) by (auto simp: pc_ok_def Let_def rpcs_done_def rpcs_busy_def)
  ultimately show ?thesis
    using inv_moved [OF assms(1-3) w'(1,2)] by simp
qed

text \<open>A receive of the goroutine.\<close>

lemma inv_from_ws:
  assumes "inv s" and "fd_dead s = None" and "fd_wss s \<noteq> []" and pc: "fd_pc s = AggWs"
    and send: "ws_send (last (fd_wss s)) = Some (r, w')"
  shows "inv (agg_from_ws r (s\<lparr>fd_wss := butlast (fd_wss s) @ [w']\<rparr>))"
proof -
  let ?w = "last (fd_wss s)" and ?l = "n0 + length (fd_out s)" and ?c = "wp_conn (last (fd_wss s))"
  note w_ok = last_ws_ok [OF assms(1-3)]
  note w' = reader_send [OF send w_ok]
  have at: "rpcs_done s" "?l + 1 = start ?c + deliv ?w" "0 < deliv ?w" and conn: "?c < fd_conns s"
    using assms(1-3) pc by (auto simp: feed_inv_def pc_ok_def Let_def)
  show ?thesis
  proof (cases r)
    case None
    obtain m where m: "net_Read N ?c (deliv ?w - 1) = Some m"
      using deliv_bound(2) [OF w_ok, of "deliv ?w - 1"] at(3) by auto
    let ?w'' = "w'\<lparr>wp_closed := True\<rparr>" and ?ags = "setSyncState (fd_ags s) False"
    have "agg_from_ws r (s\<lparr>fd_wss := butlast (fd_wss s) @ [w']\<rparr>) = moved s AggReconnect (fd_rpcs s) ?ags ?w''"
      using None by (simp add: agg_from_ws_def agg_Close_snoc moved_def)
    moreover have "?l \<le> start c'" if "fd_conns s \<le> c'" for c'
      using ws_forward [OF _ m, of c'] conn that at(2,3) by auto
    then have "pc_ok chain start ?l (moved s AggReconnect (fd_rpcs s) ?ags ?w'')"
      using at(1) by (auto simp: pc_ok_def Let_def rpcs_done_def)
    moreover have "ws_ok N chain start ?w''" "wp_conn ?w'' = ?c"
      using w'(1,2) by (simp_all add: ws_ok_def)
    ultimately show ?thesis
      using inv_moved [OF assms(1-3)] by (simp add: setSyncState_def)
  next
    case (Some b)
    then have b: "bres_Block b = Some (chain (?l + 1))" "deliv w' = deliv ?w + 1"
      using w'(3) at(2) by auto
    let ?ags = "setSyncState (fd_ags s) True"
    have "agg_from_ws r (s\<lparr>fd_wss := butlast (fd_wss s) @ [w']\<rparr>) = moved s (AggEmitWs b) (fd_rpcs s) ?ags w'"
      using Some by (auto simp: agg_from_ws_def moved_def)
    moreover have "pc_ok chain start ?l (moved s (AggEmitWs b) (fd_rpcs s) ?ags w')"
      using at b w'(2) by (auto simp: pc_ok_def Let_def rpcs_done_def)
    ultimately show ?thesis
      using inv_moved [OF assms(1-3) w'(1,2)] by (simp add: setSyncState_def)
  qed
qed

lemma inv_meet_ws:
  assumes "inv s" and "fd_dead s = None" and "meet_ws s = Some s'"
  shows "inv s'"
proof -
  obtain r w' where ne: "fd_wss s \<noteq> []" and send: "ws_send (last (fd_wss s)) = Some (r, w')"
    using assms(3) by (auto simp: meet_ws_def split: if_splits option.splits prod.splits)
  note w' = reader_send [OF send last_ws_ok [OF assms(1,2) ne]]
  have s': "(case fd_pc s of SubFirst i \<Rightarrow> Some (s\<lparr>fd_wss := butlast (fd_wss s) @ [w'], fd_pc := SubSecond i\<rparr>)
      | SubSecond i \<Rightarrow> Some (subscribe_decide i r (s\<lparr>fd_wss := butlast (fd_wss s) @ [w']\<rparr>))
      | AggWs \<Rightarrow> Some (agg_from_ws r (s\<lparr>fd_wss := butlast (fd_wss s) @ [w']\<rparr>)) | _ \<Rightarrow> None) = Some s'"
    using assms(3) ne send by (simp add: meet_ws_def Let_def set_update_last [simplified])
  show ?thesis
  proof (cases "fd_pc s")
    case (SubFirst i)
    then have "pc_ok chain start (n0 + length (fd_out s)) (moved s (SubSecond i) (fd_rpcs s) (fd_ags s) w')"
      using assms(1,2) w' by (auto simp: feed_inv_def pc_ok_def Let_def rpcs_done_def)
    moreover have "s' = moved s (SubSecond i) (fd_rpcs s) (fd_ags s) w'"
      using SubFirst s' by (auto simp: moved_def)
    ultimately show ?thesis
      using inv_moved [OF assms(1,2) ne w'(1,2)] by simp
  next
    case (SubSecond i)
    with s' inv_decide [OF assms(1,2) ne _ send] show ?thesis by simp
  next
    case AggWs
    with s' inv_from_ws [OF assms(1,2) ne _ send] show ?thesis by simp
  qed (use s' in auto)
qed

lemma inv_act:
  assumes "inv s" and "feed_act N a s = Some s'"
  shows "inv s'"
proof -
  have alive: "fd_dead s = None"
    using assms(2) by (auto simp: feed_act.simps split: if_splits)
  show ?thesis
  proof (cases a)
    case (ActRpc j)
    with assms(2) alive show ?thesis
      by (intro inv_ActRpc [OF assms(1) alive, of j]) (simp add: feed_act.simps)
  next
    case (ActWs j)
    with assms(2) alive show ?thesis
      by (intro inv_ActWs [OF assms(1) alive, of j]) (simp add: feed_act.simps)
  next
    case ActAgg
    with assms(2) alive show ?thesis
      by (intro inv_agg_step [OF assms(1) alive]) (simp add: feed_act.simps)
  next
    case (MeetRpc j)
    with assms(2) alive show ?thesis
      by (intro inv_meet_rpc [OF assms(1) alive, of j]) (simp add: feed_act.simps)
  next
    case MeetWs
    with assms(2) alive show ?thesis
      by (intro inv_meet_ws [OF assms(1) alive]) (simp add: feed_act.simps)
  qed
qed

lemma inv_init: "inv (feed_init (NewAggregateBlockFeed (of_nat n0) eps wss))"
  using not_behind
  by (simp add: feed_inv_def feed_init_def NewAggregateBlockFeed_def pc_ok_def rpcs_done_def)

lemma inv_reach: "feed_reach N (feed_init (NewAggregateBlockFeed (of_nat n0) eps wss)) s \<Longrightarrow> inv s"
  by (induction rule: feed_reach.induct) (auto intro: inv_init inv_act)

end

section \<open>Sample network\<close>

definition sample_chain :: "nat \<Rightarrow> unit tm_block" where
  "sample_chain n = \<lparr>blk_Height = of_nat n, blk_AppHash = [], blk_Time = 0, blk_Txs = [], blk_rest = ()\<rparr>"

text \<open>One connection with the blocks 7 to 10; the body of an RPC response is its URL.\<close>

definition sample_net :: "unit network" where
  "sample_net =
     \<lparr>net_Get = (\<lambda>url. Ok (bytes_of url)), net_Dial = (\<lambda>ep c. if c = 0 then Ok () else Err ''refused''),
      net_WriteJSON = (\<lambda>c req. Ok ()), net_First = (\<lambda>c. Ok ()),
      net_Read = (\<lambda>c j. if c = 0 \<and> j < 4 then Some [of_nat j] else None),
      net_error_code = (\<lambda>m. Ok 0),
      net_ws_value = (\<lambda>m. Ok (Some \<lparr>bres_BlockID = None, bres_Block = Some (sample_chain (7 + unat (hd m)))\<rparr>)),
      net_rpc_result = (\<lambda>body. map_ok (\<lambda>i. Some \<lparr>bres_BlockID = None, bres_Block = Some (sample_chain (nat i))\<rparr>)
        (Atoi (drop 15 (string_of body)))),
      net_txs_results = (\<lambda>m. Ok [])\<rparr>"

definition sample_schedule :: "feed_action list" where
  "sample_schedule = [ActAgg, ActWs 0, MeetWs, ActWs 0, MeetWs] @
     concat (replicate 3 [ActRpc 0, MeetRpc 0, ActAgg]) @ [ActRpc 0, MeetRpc 0] @
     concat (replicate 2 [ActWs 0, MeetWs, ActAgg])"

definition sample_feed_start :: "unit feed" where
  "sample_feed_start = feed_init (NewAggregateBlockFeed 5 [''a''] [''w''])"

definition feed_heights :: "'x feed \<Rightarrow> int64 option list" where
  "feed_heights s = map (\<lambda>r. map_option blk_Height (bres_Block r)) (fd_out s)"

interpretation sample_network: honest_network sample_net sample_chain "\<lambda>c. if c = 0 then 7 else 20" "[''a'']" 5
proof
  fix ep :: string and n :: nat and body v
  assume "ep \<in> set [''a'']" and n: "n < 2 ^ 63"
    and body: "net_Get sample_net (rpc_url ep (of_nat n)) = Ok body" and v: "net_rpc_result sample_net body = Ok v"
  then have "string_of body = ''a/block?height='' @ Sprintf_d (int n)"
    by (auto simp: sample_net_def rpc_url_def sint_of_nat_small)
  then have "Atoi (drop 15 (string_of body)) = Ok (int n)"
    using n by (simp add: Atoi_Sprintf_d)
  with v show "\<exists>r. v = Some r \<and> bres_Block r = Some (sample_chain n)"
    by (auto simp: sample_net_def)
next
  fix c j m v
  assume "net_Read sample_net c j = Some m" and "net_ws_value sample_net m = Ok v"
  then show "\<exists>r. v = Some r \<and> bres_Block r = Some (sample_chain ((if c = 0 then 7 else 20) + j))"
    by (auto simp: sample_net_def unat_of_nat split: if_splits)
qed (auto simp: sample_chain_def sample_net_def split: if_splits)

lemma sample_feed_run: "\<exists>s. feed_run sample_net sample_schedule sample_feed_start = Some s \<and>
    feed_heights s = [Some 6, Some 7, Some 8, Some 9, Some 10]"
proof -
  have "map_option feed_heights (feed_run sample_net sample_schedule sample_feed_start) =
      Some [Some 6, Some 7, Some 8, Some 9, Some 10]"
    by code_simp
  then show ?thesis by blast
qed

section \<open>Properties\<close>

text \<open>
  C8. On a network that answers as documented, \<open>main\<close> receives exactly the blocks that follow
  the last known one, each once and in order, in every interleaving of the goroutines and over
  any number of reconnections.
\<close>

theorem feed_in_order:
  assumes "honest_network N chain start eps n0"
    and "feed_reach N (feed_init (NewAggregateBlockFeed (of_nat n0) eps wss)) s"
  shows "map bres_Block (fd_out s) = map (\<lambda>i. Some (chain (n0 + 1 + i))) [0..<length (fd_out s)]"
  using honest_network.inv_reach [OF assms] by (simp add: feed_inv_def)

theorem feed_in_order_witness:
  "\<exists>s. feed_run sample_net sample_schedule sample_feed_start = Some s \<and>
    map bres_Block (fd_out s) = map (\<lambda>i. Some (sample_chain (6 + i))) [0..<5]"
proof -
  obtain s where s: "feed_run sample_net sample_schedule sample_feed_start = Some s"
    and h: "feed_heights s = [Some 6, Some 7, Some 8, Some 9, Some 10]"
    using sample_feed_run by blast
  have "length (fd_out s) = 5"
    using arg_cong [OF h, of length] by (simp add: feed_heights_def)
  moreover have "feed_reach sample_net (feed_init (NewAggregateBlockFeed (of_nat 5) [''a''] [''w''])) s"
    using feed_run_reach [OF s feed_reach.start] by (simp add: sample_feed_start_def)
  ultimately show ?thesis
    using s feed_in_order [OF sample_network.honest_network_axioms, of "[''w'']" s] by auto
qed

lemma idle_forever:
  "feed_reach N s s' \<Longrightarrow> fd_pc s = AggIdle \<Longrightarrow> fd_pc s' = AggIdle \<and> fd_out s' = fd_out s"
proof (induction rule: feed_reach.induct)
  case (step s' a s'')
  then show ?case
    by (cases a) (auto simp: feed_act.simps local_step_def agg_step_def meet_rpc_def meet_ws_def feed_panic_def
        Let_def split: if_splits option.splits res.splits prod.splits)
qed simp

text \<open>
  C35. A subscription whose second websocket block is the next block stops for good: \<open>Subscribe\<close>
  starts no goroutine then, so no block is handed over any more, in any continuation.
\<close>

theorem feed_stalls:
  assumes "fd_pc s = SubSecond i" and "fd_wss s \<noteq> []" and "ws_send (last (fd_wss s)) = Some (Some r, w')"
    and "bres_Block r = Some block" and "blk_Height block = ag_lastKnownBlock (fd_ags s) + 1"
    and "meet_ws s = Some s1" and "feed_reach N s1 s2"
  shows "fd_out s2 = fd_out s"
proof -
  have "fd_pc s1 = AggIdle" and "fd_out s1 = fd_out s"
    using assms(1-6) by (auto simp: meet_ws_def subscribe_decide_def Let_def)
  with idle_forever [OF assms(7)] show ?thesis by simp
qed

definition sample_stalling :: "unit feed" where
  "sample_stalling = \<lparr>fd_ags = NewAggregateBlockFeed 7 [''a''] [''w''], fd_pc = SubSecond 0, fd_rpcs = [],
     fd_wss = [(new_ws 0)\<lparr>wp_read := 2, wp_pc := WsGive (Some \<lparr>bres_BlockID = None, bres_Block = Some (sample_chain 8)\<rparr>)\<rparr>],
     fd_conns = 1, fd_out = [], fd_dead = None\<rparr>"

theorem feed_stalls_witness:
  "\<exists>s1 s2. meet_ws sample_stalling = Some s1 \<and> feed_run sample_net [ActWs 0, ActWs 0] s1 = None \<and>
    feed_run sample_net [ActWs 0] s1 = Some s2 \<and> fd_out s2 = []"
proof -
  have "map_option (\<lambda>s. fd_dead s) (meet_ws sample_stalling) = Some None"
    by code_simp
  then obtain s1 where s1: "meet_ws sample_stalling = Some s1" by blast
  have "map_option (\<lambda>s1. map_option (\<lambda>s. ()) (feed_run sample_net [ActWs 0] s1)) (meet_ws sample_stalling) = Some (Some ())"
    and none: "map_option (\<lambda>s1. map_option (\<lambda>s. ()) (feed_run sample_net [ActWs 0, ActWs 0] s1)) (meet_ws sample_stalling) = Some None"
    by code_simp+
  then obtain s2 where s2: "feed_run sample_net [ActWs 0] s1 = Some s2"
    using s1 by auto
  have "fd_out s2 = fd_out sample_stalling"
    by (rule feed_stalls [where block = "sample_chain 8" and r = "\<lparr>bres_BlockID = None, bres_Block = Some (sample_chain 8)\<rparr>", OF _ _ _ _ _ s1 feed_run_reach [OF s2 feed_reach.start]])
      (simp_all add: sample_stalling_def ws_send_def new_ws_def sample_chain_def NewAggregateBlockFeed_def)
  with s1 s2 none show ?thesis
    by (auto simp: sample_stalling_def)
qed

definition broken_net :: "unit network" where
  "broken_net = sample_net\<lparr>net_rpc_result := (\<lambda>body.
     if Atoi (drop 15 (string_of body)) = Ok 7 then Ok None else net_rpc_result sample_net body)\<rparr>"

text \<open>
  An RPC response without a result, such as an error response, is taken for the end of the
  synchronisation: with one such response at height 7 the feed goes on with block 9 after block 6.
\<close>

theorem feed_skips_blocks:
  "map_option feed_heights (feed_run broken_net ([ActAgg, ActWs 0, MeetWs, ActWs 0, MeetWs, ActRpc 0, MeetRpc 0,
      ActAgg, ActRpc 0, MeetRpc 0, ActWs 0, MeetWs, ActAgg]) sample_feed_start) = Some [Some 6, Some 9]"
  by code_simp

end
