(* ===== verification/Rpc_Cache.thy ===== *)
theory Rpc_Cache
  imports Tm_Types
begin

text \<open>
  \<open>src/rpc/cache.go\<close>: the response cache of the REST server. Requests for one URI share the
  run of the handler: the first one starts a flight, the others wait on its channel. Requests
  and the goroutines that feed the waiting ones are state machines; \<open>cache_act\<close> makes one step of
  one of them. The LRU list (\<open>github.com/hashicorp/golang-lru\<close>) is a parameter.
\<close>

section \<open>The LRU list as an interface\<close>

record ResponseCache =
  rsp_status :: nat
  rsp_body :: bytes

record 'l lru =
  lru_New :: "int \<Rightarrow> 'l res"
  lru_Add :: "'l \<Rightarrow> string \<Rightarrow> ResponseCache \<Rightarrow> bool \<times> 'l"
  lru_Get :: "'l \<Rightarrow> string \<Rightarrow> ResponseCache option \<times> 'l"
  lru_Len :: "'l \<Rightarrow> nat"
  lru_Purge :: "'l \<Rightarrow> 'l"

text \<open>
  What its documentation promises, for an abstraction \<open>entries\<close>: a lookup changes no entry, an
  added entry is there and every other one is kept or evicted, purging removes all of them.
\<close>

locale lru_cache =
  fixes L :: "'l lru" and entries :: "'l \<Rightarrow> string \<rightharpoonup> ResponseCache"
  assumes lru_New_empty: "lru_New L n = Ok l \<Longrightarrow> entries l = Map.empty"
    and lru_Get_entries: "fst (lru_Get L l k) = entries l k" "entries (snd (lru_Get L l k)) = entries l"
    and lru_Add_same: "entries (snd (lru_Add L l k v)) k = Some v"
    and lru_Add_other: "k' \<noteq> k \<Longrightarrow> entries (snd (lru_Add L l k v)) k' \<in> {entries l k', None}"
    and lru_Purge_empty: "entries (lru_Purge L l) = Map.empty"

section \<open>The backend\<close>

type_synonym uri = string

text \<open>
  A flight: the run of the handler for a URI with the goroutine that feeds its subscribers. The
  goroutine waits for the request's context, reads the number of subscribers, sends, closes the
  channel and unregisters. \<open>fl_cache\<close> is the variable \<open>cache\<close> it shares with the request.
\<close>

datatype feeder_pc = FWait | FCount | FSend nat ResponseCache | FClose | FDelete | FEnd

record flight =
  fl_uri :: uri
  fl_cache :: "ResponseCache option"
  fl_closed :: bool
  fl_pc :: feeder_pc

text \<open>The channels of \<open>resultChan\<close> are the indices of the flights.\<close>

record 'l CacheBackend =
  cb_lru :: 'l
  cb_evictionCount :: uint64
  cb_cacheServeCount :: uint64
  cb_serveCount :: uint64
  cb_cacheType :: string
  cb_resultChan :: "uri \<rightharpoonup> nat"
  cb_subscribeCount :: "uri \<rightharpoonup> nat"

definition NewCacheBackend :: "'l lru \<Rightarrow> int \<Rightarrow> string \<Rightarrow> 'l CacheBackend res" where
  "NewCacheBackend L cacheSize cacheType =
     (case lru_New L cacheSize of
        Ok cache \<Rightarrow> Ok \<lparr>cb_lru = cache, cb_evictionCount = 0, cb_cacheServeCount = 0, cb_serveCount = 0,
          cb_cacheType = cacheType, cb_resultChan = Map.empty, cb_subscribeCount = Map.empty\<rparr>
      | Err e \<Rightarrow> Panic e
      | Panic p \<Rightarrow> Panic p)"

definition cb_Set :: "'l lru \<Rightarrow> 'l CacheBackend \<Rightarrow> uri \<Rightarrow> ResponseCache \<Rightarrow> ResponseCache \<times> 'l CacheBackend" where
  "cb_Set L cb cacheKey response =
     (let (evicted, l) = lru_Add L (cb_lru cb) cacheKey response;
          cb1 = cb\<lparr>cb_lru := l\<rparr>
      in (response, if evicted then cb1\<lparr>cb_evictionCount := cb_evictionCount cb1 + 1\<rparr> else cb1))"

definition cb_Get :: "'l lru \<Rightarrow> 'l CacheBackend \<Rightarrow> uri \<Rightarrow> ResponseCache option \<times> 'l CacheBackend" where
  "cb_Get L cb cacheKey = (let (cached, l) = lru_Get L (cb_lru cb) cacheKey in (cached, cb\<lparr>cb_lru := l\<rparr>))"

definition cb_Purge :: "'l lru \<Rightarrow> 'l CacheBackend \<Rightarrow> 'l CacheBackend" where
  "cb_Purge L cb = cb\<lparr>cb_lru := lru_Purge L (cb_lru cb), cb_evictionCount := 0, cb_cacheServeCount := 0,
     cb_serveCount := 0\<rparr>"

section \<open>\<open>HandleCachedHTTP\<close> as a state machine\<close>

definition unavailable :: ResponseCache where
  "unavailable = \<lparr>rsp_status = 503, rsp_body = bytes_of ''Service Unavailable''\<rparr>"

text \<open>
  A request: before counting it, before the lookup, with a hit to be written, after a miss,
  in the handler of its flight, with the handler's response to be stored, with it stored and to
  be written, waiting on another flight, answered.
\<close>

datatype req_pc =
    ReqStart
  | ReqLook
  | ReqHit ResponseCache
  | ReqMiss
  | ReqServing nat
  | ReqRecorded nat ResponseCache
  | ReqStored ResponseCache
  | ReqWaiting nat
  | ReqDone ResponseCache

record request =
  rq_uri :: uri
  rq_pc :: req_pc

record 'l server =
  sv_cb :: "'l CacheBackend"
  sv_flights :: "flight list"
  sv_reqs :: "request list"

text \<open>
  Who moves: a new request arrives, a request goes on by itself, the handler of a request
  returns a response, the context of a flight ends (the request was answered or its client went
  away), the feeding goroutine goes on, it hands the response to a waiting request, or the
  cache is purged.
\<close>

datatype cache_action =
    Arrive uri
  | ActReq nat
  | Respond nat ResponseCache
  | CtxDone nat
  | ActFeed nat
  | Hand nat nat
  | PurgeCache

definition set_req :: "nat \<Rightarrow> req_pc \<Rightarrow> 'l server \<Rightarrow> 'l server" where
  "set_req i pc s = s\<lparr>sv_reqs := (sv_reqs s)[i := (sv_reqs s ! i)\<lparr>rq_pc := pc\<rparr>]\<rparr>"

definition upd_flight :: "nat \<Rightarrow> (flight \<Rightarrow> flight) \<Rightarrow> 'l server \<Rightarrow> 'l server" where
  "upd_flight f g s = s\<lparr>sv_flights := (sv_flights s)[f := g (sv_flights s ! f)]\<rparr>"

text \<open>After a miss, under the lock: start a flight or subscribe to the one in transit.\<close>

definition join_flight :: "nat \<Rightarrow> uri \<Rightarrow> 'l server \<Rightarrow> 'l server" where
  "join_flight i u s =
     (let cb = sv_cb s in
      case cb_resultChan cb u of
        None \<Rightarrow>
          let f = length (sv_flights s) in
          set_req i (ReqServing f) (s\<lparr>
            sv_cb := cb\<lparr>cb_resultChan := (cb_resultChan cb)(u \<mapsto> f), cb_subscribeCount := (cb_subscribeCount cb)(u \<mapsto> 0)\<rparr>,
            sv_flights := sv_flights s @ [\<lparr>fl_uri = u, fl_cache = None, fl_closed = False, fl_pc = FWait\<rparr>]\<rparr>)
      | Some f \<Rightarrow>
          set_req i (ReqWaiting f) (s\<lparr>sv_cb := cb\<lparr>cb_subscribeCount :=
            (cb_subscribeCount cb)(u \<mapsto> (case cb_subscribeCount cb u of Some n \<Rightarrow> n | None \<Rightarrow> 0) + 1)\<rparr>\<rparr>))"

definition HandleCachedHTTP :: "'l lru \<Rightarrow> nat \<Rightarrow> 'l server \<Rightarrow> 'l server option" where
  "HandleCachedHTTP L i s =
     (if i < length (sv_reqs s) then
        let u = rq_uri (sv_reqs s ! i); cb = sv_cb s in
        case rq_pc (sv_reqs s ! i) of
          ReqStart \<Rightarrow> Some (set_req i ReqLook (s\<lparr>sv_cb := cb\<lparr>cb_serveCount := cb_serveCount cb + 1\<rparr>\<rparr>))
        | ReqLook \<Rightarrow>
            (let (cached, cb') = cb_Get L cb u in
             Some (set_req i (case cached of Some c \<Rightarrow> ReqHit c | None \<Rightarrow> ReqMiss) (s\<lparr>sv_cb := cb'\<rparr>)))
        | ReqHit c \<Rightarrow> Some (set_req i (ReqDone c) (s\<lparr>sv_cb := cb\<lparr>cb_cacheServeCount := cb_cacheServeCount cb + 1\<rparr>\<rparr>))
        | ReqMiss \<Rightarrow> Some (join_flight i u s)
        | ReqServing f \<Rightarrow> None
        | ReqRecorded f r \<Rightarrow>
            (let (c, cb') = cb_Set L cb u r in
             Some (upd_flight f (\<lambda>fl. fl\<lparr>fl_cache := Some c\<rparr>) (set_req i (ReqStored r) (s\<lparr>sv_cb := cb'\<rparr>))))
        | ReqStored r \<Rightarrow> Some (set_req i (ReqDone r) s)
        | ReqWaiting f \<Rightarrow>
            if fl_closed (sv_flights s ! f) then Some (set_req i (ReqDone unavailable) s) else None
        | ReqDone r \<Rightarrow> None
      else None)"

definition feed_subscribers :: "nat \<Rightarrow> 'l server \<Rightarrow> 'l server option" where
  "feed_subscribers f s =
     (if f < length (sv_flights s) then
        let fl = sv_flights s ! f; cb = sv_cb s in
        case fl_pc fl of
          FWait \<Rightarrow> None
        | FCount \<Rightarrow>
            let subscribeCount = (case cb_subscribeCount cb (fl_uri fl) of Some n \<Rightarrow> n | None \<Rightarrow> 0) in
            Some (upd_flight f (\<lambda>fl. fl\<lparr>fl_pc := (case fl_cache fl of Some c \<Rightarrow> FSend subscribeCount c | None \<Rightarrow> FClose)\<rparr>) s)
        | FSend n c \<Rightarrow> if n = 0 then Some (upd_flight f (\<lambda>fl. fl\<lparr>fl_pc := FClose\<rparr>) s) else None
        | FClose \<Rightarrow> Some (upd_flight f (\<lambda>fl. fl\<lparr>fl_closed := True, fl_pc := FDelete\<rparr>) s)
        | FDelete \<Rightarrow> Some (upd_flight f (\<lambda>fl. fl\<lparr>fl_pc := FEnd\<rparr>) (s\<lparr>sv_cb := cb\<lparr>
            cb_subscribeCount := (cb_subscribeCount cb)(fl_uri fl := None),
            cb_resultChan := (cb_resultChan cb)(fl_uri fl := None)\<rparr>\<rparr>))
        | FEnd \<Rightarrow> None
      else None)"

text \<open>One send \<open>c <- cache\<close> meeting the receive of a waiting request.\<close>

definition hand_over :: "nat \<Rightarrow> nat \<Rightarrow> 'l server \<Rightarrow> 'l server option" where
  "hand_over f i s =
     (if f < length (sv_flights s) \<and> i < length (sv_reqs s) \<and> rq_pc (sv_reqs s ! i) = ReqWaiting f then
        (case fl_pc (sv_flights s ! f) of
           FSend (Suc n) c \<Rightarrow> Some (upd_flight f (\<lambda>fl. fl\<lparr>fl_pc := FSend n c\<rparr>) (set_req i (ReqDone c) s))
         | _ \<Rightarrow> None)
      else None)"

fun cache_act :: "'l lru \<Rightarrow> cache_action \<Rightarrow> 'l server \<Rightarrow> 'l server option" where
  "cache_act L (Arrive u) s = Some (s\<lparr>sv_reqs := sv_reqs s @ [\<lparr>rq_uri = u, rq_pc = ReqStart\<rparr>]\<rparr>)"
| "cache_act L (ActReq i) s = HandleCachedHTTP L i s"
| "cache_act L (Respond i r) s =
     (if i < length (sv_reqs s) then
        (case rq_pc (sv_reqs s ! i) of ReqServing f \<Rightarrow> Some (set_req i (ReqRecorded f r) s) | _ \<Rightarrow> None)
      else None)"
| "cache_act L (CtxDone f) s =
     (if f < length (sv_flights s) \<and> fl_pc (sv_flights s ! f) = FWait
      then Some (upd_flight f (\<lambda>fl. fl\<lparr>fl_pc := FCount\<rparr>) s) else None)"
| "cache_act L (ActFeed f) s = feed_subscribers f s"
| "cache_act L (Hand f i) s = hand_over f i s"
| "cache_act L PurgeCache s = Some (s\<lparr>sv_cb := cb_Purge L (sv_cb s)\<rparr>)"

fun cache_run :: "'l lru \<Rightarrow> cache_action list \<Rightarrow> 'l server \<Rightarrow> 'l server option" where
  "cache_run L [] s = Some s"
| "cache_run L (a # as) s = (case cache_act L a s of None \<Rightarrow> None | Some s' \<Rightarrow> cache_run L as s')"

definition server_init :: "'l CacheBackend \<Rightarrow> 'l server" where
  "server_init cb = \<lparr>sv_cb = cb, sv_flights = [], sv_reqs = []\<rparr>"

text \<open>The handler's responses along a list of actions, with the URIs they answer.\<close>

fun responses :: "'l lru \<Rightarrow> cache_action list \<Rightarrow> 'l server \<Rightarrow> (uri \<times> ResponseCache) list" where
  "responses L [] s = []"
| "responses L (a # as) s =
     (case a of Respond i r \<Rightarrow> [(rq_uri (sv_reqs s ! i), r)] | _ \<Rightarrow> []) @
     (case cache_act L a s of None \<Rightarrow> [] | Some s' \<Rightarrow> responses L as s')"

section \<open>Middleware (\<open>register.go\<close>)\<close>

datatype cache_choice = NoCache | Archival | Latest

text \<open>Which cache answers; \<open>heightQuery\<close> is the query parameter \<open>height\<close>, empty when missing.\<close>

definition choose_cache :: "string \<Rightarrow> string \<Rightarrow> cache_choice" where
  "choose_cache path heightQuery =
     (if path = ''/health'' then NoCache
      else case Atoi heightQuery of Ok height \<Rightarrow> if 0 < height then Archival else Latest | _ \<Rightarrow> Latest)"

definition health_route :: "bool \<Rightarrow> http_response" where
  "health_route isSynced =
     (if isSynced then \<lparr>hr_Status = 200, hr_Body = bytes_of ''OK''\<rparr> else \<lparr>hr_Status = 503, hr_Body = bytes_of ''NOK''\<rparr>)"

text \<open>The invalidator: on every height only the latest cache is purged.\<close>

definition invalidate_caches :: "'l lru \<Rightarrow> 'l CacheBackend \<times> 'l CacheBackend \<Rightarrow> 'l CacheBackend \<times> 'l CacheBackend" where
  "invalidate_caches L = (\<lambda>(cache, archivalCache). (cb_Purge L cache, archivalCache))"

end
