(* ===== verification/Rpc_Cache_Correct.thy ===== *)
theory Rpc_Cache_Correct
  imports Rpc_Cache
begin

text \<open>
  Correctness of the response cache in every interleaving: a client gets a response the handler
  gave for the same URI or the 503 of an abandoned flight, a URI has at most one registered
  flight, and a waiting request is never left behind.
\<close>

section \<open>A list as LRU cache\<close>

type_synonym lru_list = "nat \<times> (string \<times> ResponseCache) list"

definition list_lru :: "lru_list lru" where
  "list_lru =
     \<lparr>lru_New = (\<lambda>n. if n \<le> 0 then Err ''must provide a positive size'' else Ok (nat n - 1, [])),
      lru_Add = (\<lambda>(c, xs) k v. let ys = (k, v) # filter (\<lambda>x. fst x \<noteq> k) xs
        in (Suc c < length ys, (c, take (Suc c) ys))),
      lru_Get = (\<lambda>(c, xs) k. case map_of xs k of None \<Rightarrow> (None, (c, xs))
        | Some v \<Rightarrow> (Some v, (c, (k, v) # filter (\<lambda>x. fst x \<noteq> k) xs))),
      lru_Len = (\<lambda>(c, xs). length xs),
      lru_Purge = (\<lambda>(c, xs). (c, []))\<rparr>"

definition list_entries :: "lru_list \<Rightarrow> string \<rightharpoonup> ResponseCache" where
  "list_entries l = map_of (snd l)"

lemma map_of_take: "map_of (take n xs) k \<in> {map_of xs k, None}"
  by (induction xs arbitrary: n) (auto simp: take_Cons' )

lemma map_of_filter_neq: "map_of (filter (\<lambda>x. fst x \<noteq> k) xs) k' = (if k' = k then None else map_of xs k')"
  by (induction xs) auto

interpretation list_cache: lru_cache list_lru list_entries
proof
  fix k k' :: string and l :: lru_list and v
  show "k' \<noteq> k \<Longrightarrow> list_entries (snd (lru_Add list_lru l k v)) k' \<in> {list_entries l k', None}"
    using map_of_take [of "fst l" "filter (\<lambda>x. fst x \<noteq> k) (snd l)" k']
    by (auto simp: list_lru_def list_entries_def map_of_filter_neq case_prod_beta Let_def)
qed (auto simp: list_lru_def list_entries_def map_of_filter_neq case_prod_beta Let_def fun_eq_iff
    split: option.splits if_splits)

section \<open>Invariant\<close>

definition flight_ok :: "(uri \<times> ResponseCache) set \<Rightarrow> flight \<Rightarrow> bool" where
  "flight_ok R fl \<longleftrightarrow>
     (\<forall>c. fl_cache fl = Some c \<longrightarrow> (fl_uri fl, c) \<in> R) \<and>
     (\<forall>n c. fl_pc fl = FSend n c \<longrightarrow> (fl_uri fl, c) \<in> R) \<and>
     (fl_closed fl \<longleftrightarrow> fl_pc fl = FDelete \<or> fl_pc fl = FEnd)"

definition on_flight :: "flight list \<Rightarrow> nat \<Rightarrow> uri \<Rightarrow> bool" where
  "on_flight fls f u \<longleftrightarrow> f < length fls \<and> fl_uri (fls ! f) = u"

definition req_ok :: "(uri \<times> ResponseCache) set \<Rightarrow> flight list \<Rightarrow> request \<Rightarrow> bool" where
  "req_ok R fls r \<longleftrightarrow>
     (case rq_pc r of
        ReqHit c \<Rightarrow> (rq_uri r, c) \<in> R
      | ReqServing f \<Rightarrow> on_flight fls f (rq_uri r)
      | ReqRecorded f c \<Rightarrow> on_flight fls f (rq_uri r) \<and> (rq_uri r, c) \<in> R
      | ReqStored c \<Rightarrow> (rq_uri r, c) \<in> R
      | ReqWaiting f \<Rightarrow> on_flight fls f (rq_uri r)
      | ReqDone c \<Rightarrow> c = unavailable \<or> (rq_uri r, c) \<in> R
      | _ \<Rightarrow> True)"

text \<open>Registered are exactly the flights that have not ended.\<close>

definition chans_ok :: "(uri \<rightharpoonup> nat) \<Rightarrow> flight list \<Rightarrow> bool" where
  "chans_ok m fls \<longleftrightarrow> (\<forall>u f. m u = Some f \<longleftrightarrow> on_flight fls f u \<and> fl_pc (fls ! f) \<noteq> FEnd)"

definition cache_inv :: "('l \<Rightarrow> string \<rightharpoonup> ResponseCache) \<Rightarrow> (uri \<times> ResponseCache) set \<Rightarrow> 'l server \<Rightarrow> bool" where
  "cache_inv entries R s \<longleftrightarrow>
     (\<forall>k v. entries (cb_lru (sv_cb s)) k = Some v \<longrightarrow> (k, v) \<in> R) \<and>
     chans_ok (cb_resultChan (sv_cb s)) (sv_flights s) \<and>
     (\<forall>fl \<in> set (sv_flights s). flight_ok R fl) \<and>
     (\<forall>r \<in> set (sv_reqs s). req_ok R (sv_flights s) r)"

lemma cache_invI:
  assumes "\<And>k v. entries (cb_lru (sv_cb s)) k = Some v \<Longrightarrow> (k, v) \<in> R"
    and "chans_ok (cb_resultChan (sv_cb s)) (sv_flights s)"
    and "\<And>fl. fl \<in> set (sv_flights s) \<Longrightarrow> flight_ok R fl"
    and "\<And>r. r \<in> set (sv_reqs s) \<Longrightarrow> req_ok R (sv_flights s) r"
  shows "cache_inv entries R s"
  using assms by (auto simp: cache_inv_def)

lemma cache_invD:
  assumes "cache_inv entries R s"
  shows "entries (cb_lru (sv_cb s)) k = Some v \<Longrightarrow> (k, v) \<in> R"
    and "chans_ok (cb_resultChan (sv_cb s)) (sv_flights s)"
    and "f < length (sv_flights s) \<Longrightarrow> flight_ok R (sv_flights s ! f)"
    and "i < length (sv_reqs s) \<Longrightarrow> req_ok R (sv_flights s) (sv_reqs s ! i)"
  using assms by (auto simp: cache_inv_def)

text \<open>More responses keep everything.\<close>

lemma cache_inv_mono: "cache_inv entries R s \<Longrightarrow> R \<subseteq> R' \<Longrightarrow> cache_inv entries R' s"
  unfolding cache_inv_def flight_ok_def req_ok_def by (fastforce split: req_pc.splits)

text \<open>A request moves to a place that is right for it.\<close>

lemma cache_inv_set_req:
  assumes "cache_inv entries R s" and "i < length (sv_reqs s)"
    and "req_ok R (sv_flights s) ((sv_reqs s ! i)\<lparr>rq_pc := pc\<rparr>)"
  shows "cache_inv entries R (set_req i pc s)"
  using assms by (auto simp: cache_inv_def set_req_def dest: set_update_subset_insert [THEN subsetD])

text \<open>A change of a flight that keeps its URI, and ends it only when it is unregistered.\<close>

lemma on_flight_update:
  "fl_uri fl = fl_uri (fls ! f) \<Longrightarrow> on_flight (fls[f := fl]) g u \<longleftrightarrow> on_flight fls g u"
  by (cases "f = g") (auto simp: on_flight_def)

lemma req_ok_update: "fl_uri fl = fl_uri (fls ! f) \<Longrightarrow> req_ok R (fls[f := fl]) r \<longleftrightarrow> req_ok R fls r"
  by (auto simp: req_ok_def on_flight_update split: req_pc.split)

lemma chans_ok_update:
  assumes "fl_uri fl = fl_uri (fls ! f)" and "fl_pc fl = FEnd \<longleftrightarrow> fl_pc (fls ! f) = FEnd"
  shows "chans_ok m (fls[f := fl]) \<longleftrightarrow> chans_ok m fls"
proof -
  have "fl_pc (fls[f := fl] ! g) = FEnd \<longleftrightarrow> fl_pc (fls ! g) = FEnd" if "g < length fls" for g
    using assms(2) that by (cases "f = g") auto
  then show ?thesis
    by (auto simp: chans_ok_def on_flight_update [OF assms(1)]) (auto simp: on_flight_def)
qed

lemma cache_inv_upd_flight:
  assumes "cache_inv entries R s" and "f < length (sv_flights s)"
    and "fl_uri (g (sv_flights s ! f)) = fl_uri (sv_flights s ! f)" and "flight_ok R (g (sv_flights s ! f))"
    and "fl_pc (g (sv_flights s ! f)) = FEnd \<longleftrightarrow> fl_pc (sv_flights s ! f) = FEnd"
  shows "cache_inv entries R (upd_flight f g s)"
  using assms
  by (auto simp: cache_inv_def upd_flight_def chans_ok_update req_ok_update
      dest: set_update_subset_insert [THEN subsetD])

text \<open>The request tells its flight the response, whatever the flight is doing.\<close>

lemma inv_cache_flight:
  assumes "cache_inv entries R s" and "f < length (sv_flights s)" and "(fl_uri (sv_flights s ! f), c) \<in> R"
  shows "cache_inv entries R (upd_flight f (\<lambda>fl. fl\<lparr>fl_cache := Some c\<rparr>) s)"
  using assms cache_invD(3) [OF assms(1,2)] by (intro cache_inv_upd_flight) (auto simp: flight_ok_def)

section \<open>Waiting requests\<close>

text \<open>A schedule of the flight and the request alone that answers request \<open>i\<close>.\<close>

definition can_finish :: "'l lru \<Rightarrow> nat \<Rightarrow> nat \<Rightarrow> 'l server \<Rightarrow> bool" where
  "can_finish L f i s \<longleftrightarrow> (\<exists>as s' c. set as \<subseteq> {CtxDone f, ActFeed f, Hand f i, ActReq i} \<and>
     cache_run L as s = Some s' \<and> rq_pc (sv_reqs s' ! i) = ReqDone c)"

lemma can_finish_step:
  assumes "cache_act L a s = Some s1" and "can_finish L f i s1" and "a \<in> {CtxDone f, ActFeed f, Hand f i, ActReq i}"
  shows "can_finish L f i s"
proof -
  obtain as s' c where "set as \<subseteq> {CtxDone f, ActFeed f, Hand f i, ActReq i}" "cache_run L as s1 = Some s'"
    "rq_pc (sv_reqs s' ! i) = ReqDone c"
    using assms(2) by (auto simp: can_finish_def)
  with assms(1,3) show ?thesis
    unfolding can_finish_def by (intro exI [of _ "a # as"] exI [of _ s'] exI [of _ c]) auto
qed

lemma can_finish_done: "rq_pc (sv_reqs s ! i) = ReqDone c \<Longrightarrow> can_finish L f i s"
  unfolding can_finish_def by (intro exI [of _ "[]"] exI [of _ s] exI [of _ c]) simp

definition waits :: "nat \<Rightarrow> nat \<Rightarrow> 'l server \<Rightarrow> bool" where
  "waits f i s \<longleftrightarrow> i < length (sv_reqs s) \<and> rq_pc (sv_reqs s ! i) = ReqWaiting f \<and> f < length (sv_flights s)"

lemma waits_upd [simp]: "waits f i (upd_flight g h s) \<longleftrightarrow> waits f i s"
  by (simp add: waits_def upd_flight_def)

lemma flight_upd [simp]: "f < length (sv_flights s) \<Longrightarrow> sv_flights (upd_flight f h s) ! f = h (sv_flights s ! f)"
  by (simp add: upd_flight_def)

lemma finish_closed: "waits f i s \<Longrightarrow> fl_closed (sv_flights s ! f) \<Longrightarrow> can_finish L f i s"
  by (rule can_finish_step [of L "ActReq i"])
    (auto simp: waits_def HandleCachedHTTP_def set_req_def intro: can_finish_done)

lemma finish_FClose: "waits f i s \<Longrightarrow> fl_pc (sv_flights s ! f) = FClose \<Longrightarrow> can_finish L f i s"
  by (rule can_finish_step [of L "ActFeed f"])
    (auto simp: feed_subscribers_def waits_def intro!: finish_closed [unfolded waits_def] simp: upd_flight_def)

lemma finish_FSend: "waits f i s \<Longrightarrow> fl_pc (sv_flights s ! f) = FSend n c \<Longrightarrow> can_finish L f i s"
proof (cases n)
  case 0
  assume w: "waits f i s" and pc: "fl_pc (sv_flights s ! f) = FSend n c"
  then have f: "f < length (sv_flights s)" by (simp add: waits_def)
  let ?s = "upd_flight f (\<lambda>fl. fl\<lparr>fl_pc := FClose\<rparr>) s"
  have "cache_act L (ActFeed f) s = Some ?s"
    using pc 0 f by (simp add: feed_subscribers_def)
  moreover have "can_finish L f i ?s"
    using w f by (intro finish_FClose) simp_all
  ultimately show ?thesis
    by (rule can_finish_step) simp
next
  case (Suc m)
  assume w: "waits f i s" and pc: "fl_pc (sv_flights s ! f) = FSend n c"
  let ?s = "upd_flight f (\<lambda>fl. fl\<lparr>fl_pc := FSend m c\<rparr>) (set_req i (ReqDone c) s)"
  have "cache_act L (Hand f i) s = Some ?s"
    using w pc Suc by (simp add: hand_over_def waits_def)
  moreover have "can_finish L f i ?s"
    using w by (intro can_finish_done [of _ _ c]) (simp add: waits_def set_req_def upd_flight_def)
  ultimately show ?thesis
    by (rule can_finish_step) simp
qed

lemma finish_FCount: "waits f i s \<Longrightarrow> fl_pc (sv_flights s ! f) = FCount \<Longrightarrow> can_finish L f i s"
proof -
  assume w: "waits f i s" and pc: "fl_pc (sv_flights s ! f) = FCount"
  then have f: "f < length (sv_flights s)" by (simp add: waits_def)
  let ?n = "case cb_subscribeCount (sv_cb s) (fl_uri (sv_flights s ! f)) of Some n \<Rightarrow> n | None \<Rightarrow> 0"
  let ?s = "upd_flight f (\<lambda>fl. fl\<lparr>fl_pc := (case fl_cache fl of Some c \<Rightarrow> FSend ?n c | None \<Rightarrow> FClose)\<rparr>) s"
  have "cache_act L (ActFeed f) s = Some ?s"
    using pc f by (simp add: feed_subscribers_def Let_def)
  moreover have "can_finish L f i ?s"
    using w f finish_FClose [of f i ?s L] finish_FSend [of f i ?s ?n _ L]
    by (cases "fl_cache (sv_flights s ! f)") simp_all
  ultimately show ?thesis
    by (rule can_finish_step) simp
qed

lemma finish_FWait: "waits f i s \<Longrightarrow> fl_pc (sv_flights s ! f) = FWait \<Longrightarrow> can_finish L f i s"
proof -
  assume w: "waits f i s" and pc: "fl_pc (sv_flights s ! f) = FWait"
  then have f: "f < length (sv_flights s)" by (simp add: waits_def)
  let ?s = "upd_flight f (\<lambda>fl. fl\<lparr>fl_pc := FCount\<rparr>) s"
  have "cache_act L (CtxDone f) s = Some ?s"
    using pc f by simp
  moreover have "can_finish L f i ?s"
    using w f by (intro finish_FCount) simp_all
  ultimately show ?thesis
    by (rule can_finish_step) simp
qed

lemmas finish_intros = finish_FWait finish_FCount finish_FSend finish_FClose finish_closed

lemma waiting_can_finish:
  assumes "cache_inv entries R s" and "i < length (sv_reqs s)" and "rq_pc (sv_reqs s ! i) = ReqWaiting f"
  shows "can_finish L f i s"
proof -
  have w: "waits f i s"
    using cache_invD(4) [OF assms(1,2)] assms(2,3) by (simp add: req_ok_def on_flight_def waits_def)
  then have "flight_ok R (sv_flights s ! f)"
    using cache_invD(3) [OF assms(1)] by (simp add: waits_def)
  with w finish_intros [OF w] show ?thesis
    by (cases "fl_pc (sv_flights s ! f)") (auto simp: flight_ok_def)
qed

section \<open>Every step keeps the invariant\<close>

context lru_cache
begin

lemma inv_lookup:
  assumes "cache_inv entries R s" and "i < length (sv_reqs s)"
    and "cb_Get L (sv_cb s) (rq_uri (sv_reqs s ! i)) = (cached, cb')"
  shows "cache_inv entries R (set_req i (case cached of Some c \<Rightarrow> ReqHit c | None \<Rightarrow> ReqMiss) (s\<lparr>sv_cb := cb'\<rparr>))"
proof (rule cache_inv_set_req)
  let ?u = "rq_uri (sv_reqs s ! i)"
  have cb': "cb' = (sv_cb s)\<lparr>cb_lru := snd (lru_Get L (cb_lru (sv_cb s)) ?u)\<rparr>" and "cached = entries (cb_lru (sv_cb s)) ?u"
    using assms(3) lru_Get_entries(1) [of "cb_lru (sv_cb s)" ?u] by (auto simp: cb_Get_def case_prod_beta)
  then show "req_ok R (sv_flights (s\<lparr>sv_cb := cb'\<rparr>)) ((sv_reqs (s\<lparr>sv_cb := cb'\<rparr>) ! i)\<lparr>rq_pc :=
      (case cached of Some c \<Rightarrow> ReqHit c | None \<Rightarrow> ReqMiss)\<rparr>)"
    using cache_invD(1) [OF assms(1), of ?u] by (auto simp: req_ok_def split: option.split)
  show "cache_inv entries R (s\<lparr>sv_cb := cb'\<rparr>)"
    using assms(1) cb' by (simp add: cache_inv_def lru_Get_entries)
qed (use assms(2) in simp)

lemma inv_store:
  assumes "cache_inv entries R s" and "cb_Set L (sv_cb s) u r = (c, cb')" and "(u, r) \<in> R"
  shows "cache_inv entries R (s\<lparr>sv_cb := cb'\<rparr>)" and "c = r"
proof -
  have "cb_lru cb' = snd (lru_Add L (cb_lru (sv_cb s)) u r)" and "cb_resultChan cb' = cb_resultChan (sv_cb s)"
    and c: "c = r"
    using assms(2) by (auto simp: cb_Set_def case_prod_beta Let_def split: if_splits)
  moreover have "entries (snd (lru_Add L (cb_lru (sv_cb s)) u r)) k = Some v \<Longrightarrow> (k, v) \<in> R" for k v
    using lru_Add_other [of k u "cb_lru (sv_cb s)" r] lru_Add_same [of "cb_lru (sv_cb s)" u r]
      cache_invD(1) [OF assms(1)] assms(3) by (cases "k = u") auto
  ultimately show "cache_inv entries R (s\<lparr>sv_cb := cb'\<rparr>)"
    using assms(1) by (simp add: cache_inv_def)
  show "c = r" by (rule c)
qed

lemma inv_join:
  assumes "cache_inv entries R s" and "i < length (sv_reqs s)"
  shows "cache_inv entries R (join_flight i (rq_uri (sv_reqs s ! i)) s)"
proof (cases "cb_resultChan (sv_cb s) (rq_uri (sv_reqs s ! i))")
  case None
  let ?u = "rq_uri (sv_reqs s ! i)" and ?cb = "sv_cb s"
  let ?s = "s\<lparr>sv_cb := ?cb\<lparr>cb_resultChan := (cb_resultChan ?cb)(?u \<mapsto> length (sv_flights s)),
      cb_subscribeCount := (cb_subscribeCount ?cb)(?u \<mapsto> 0)\<rparr>,
    sv_flights := sv_flights s @ [\<lparr>fl_uri = ?u, fl_cache = None, fl_closed = False, fl_pc = FWait\<rparr>]\<rparr>"
  have more: "req_ok R (sv_flights s) r \<Longrightarrow> req_ok R (sv_flights s @ [fl]) r" for r fl
    by (auto simp: req_ok_def on_flight_def nth_append split: req_pc.splits)
  have free: "fl_pc (sv_flights s ! f) = FEnd" if "on_flight (sv_flights s) f ?u" for f
    using cache_invD(2) [OF assms(1), unfolded chans_ok_def] None that by (metis option.distinct(1))
  then have "chans_ok (cb_resultChan (sv_cb ?s)) (sv_flights ?s)"
    using cache_invD(2) [OF assms(1)] by (auto simp: chans_ok_def on_flight_def nth_append less_Suc_eq)
  then have "cache_inv entries R ?s"
    using assms(1) more by (auto simp: cache_inv_def flight_ok_def)
  then have "cache_inv entries R (set_req i (ReqServing (length (sv_flights s))) ?s)"
    using assms(2) by (intro cache_inv_set_req) (auto simp: req_ok_def on_flight_def)
  with None show ?thesis
    by (simp add: join_flight_def Let_def)
next
  case (Some f)
  let ?u = "rq_uri (sv_reqs s ! i)"
  have "on_flight (sv_flights s) f ?u"
    using cache_invD(2) [OF assms(1)] Some by (auto simp: chans_ok_def)
  moreover have "cache_inv entries R (s\<lparr>sv_cb := (sv_cb s)\<lparr>cb_subscribeCount := m\<rparr>\<rparr>)" for m
    using assms(1) by (simp add: cache_inv_def)
  ultimately show ?thesis
    using Some assms(2) by (auto simp: join_flight_def Let_def req_ok_def intro!: cache_inv_set_req)
qed

lemma inv_HandleCachedHTTP:
  assumes "cache_inv entries R s" and "HandleCachedHTTP L i s = Some s'"
  shows "cache_inv entries R s'"
proof -
  let ?q = "sv_reqs s ! i"
  have i: "i < length (sv_reqs s)"
    using assms(2) by (auto simp: HandleCachedHTTP_def split: if_splits)
  note q = cache_invD(4) [OF assms(1) i]
  have count: "cache_inv entries R (s\<lparr>sv_cb := (sv_cb s)\<lparr>cb_serveCount := n\<rparr>\<rparr>)"
    "cache_inv entries R (s\<lparr>sv_cb := (sv_cb s)\<lparr>cb_cacheServeCount := n\<rparr>\<rparr>)" for n
    using assms(1) by (simp_all add: cache_inv_def)
  show ?thesis
  proof (cases "rq_pc ?q")
    case ReqLook
    then show ?thesis
      using assms(2) i inv_lookup [OF assms(1) i] by (auto simp: HandleCachedHTTP_def split: prod.splits)
  next
    case ReqMiss
    then show ?thesis
      using assms(2) i inv_join [OF assms(1) i] by (auto simp: HandleCachedHTTP_def)
  next
    case (ReqRecorded f r)
    obtain c cb' where set: "cb_Set L (sv_cb s) (rq_uri ?q) r = (c, cb')" by fastforce
    have on: "on_flight (sv_flights s) f (rq_uri ?q)" and R: "(rq_uri ?q, r) \<in> R"
      using q ReqRecorded by (auto simp: req_ok_def)
    note st = inv_store [OF assms(1) set R]
    have "cache_inv entries R (set_req i (ReqStored r) (s\<lparr>sv_cb := cb'\<rparr>))"
      using st(1) i R by (intro cache_inv_set_req) (auto simp: req_ok_def)
    moreover have "s' = upd_flight f (\<lambda>fl. fl\<lparr>fl_cache := Some c\<rparr>) (set_req i (ReqStored r) (s\<lparr>sv_cb := cb'\<rparr>))"
      using assms(2) i ReqRecorded set by (simp add: HandleCachedHTTP_def)
    ultimately show ?thesis
      using on R st(2) by (auto simp: on_flight_def set_req_def intro!: inv_cache_flight)
  next
    case (ReqWaiting f)
    then show ?thesis
      using assms i by (auto simp: HandleCachedHTTP_def req_ok_def split: if_splits intro!: cache_inv_set_req)
  qed (use assms i q count in \<open>auto simp: HandleCachedHTTP_def Let_def req_ok_def intro!: cache_inv_set_req\<close>)
qed

lemma inv_feed:
  assumes "cache_inv entries R s" and "feed_subscribers f s = Some s'"
  shows "cache_inv entries R s'"
proof -
  let ?fl = "sv_flights s ! f"
  have f: "f < length (sv_flights s)"
    using assms(2) by (auto simp: feed_subscribers_def split: if_splits)
  note fl = cache_invD(3) [OF assms(1) f]
  show ?thesis
  proof (cases "fl_pc ?fl")
    case FDelete
    let ?cb = "(sv_cb s)\<lparr>cb_subscribeCount := (cb_subscribeCount (sv_cb s))(fl_uri ?fl := None),
        cb_resultChan := (cb_resultChan (sv_cb s))(fl_uri ?fl := None)\<rparr>"
    have s': "s' = upd_flight f (\<lambda>fl. fl\<lparr>fl_pc := FEnd\<rparr>) (s\<lparr>sv_cb := ?cb\<rparr>)"
      using assms(2) f FDelete by (simp add: feed_subscribers_def Let_def)
    have mine: "g = f" if "on_flight (sv_flights s) g (fl_uri ?fl)" "fl_pc (sv_flights s ! g) \<noteq> FEnd" for g
    proof -
      have "cb_resultChan (sv_cb s) (fl_uri ?fl) = Some g" and "cb_resultChan (sv_cb s) (fl_uri ?fl) = Some f"
        using cache_invD(2) [OF assms(1)] that f FDelete by (auto simp: chans_ok_def on_flight_def)
      then show ?thesis by simp
    qed
    have "chans_ok (cb_resultChan ?cb) ((sv_flights s)[f := ?fl\<lparr>fl_pc := FEnd\<rparr>])"
      using cache_invD(2) [OF assms(1)] mine f
      by (auto simp: chans_ok_def on_flight_update) (auto simp: on_flight_def nth_list_update split: if_splits)
    moreover have "flight_ok R (?fl\<lparr>fl_pc := FEnd\<rparr>)"
      using fl FDelete by (auto simp: flight_ok_def)
    ultimately show ?thesis
      using assms(1) s'
      by (auto simp: cache_inv_def upd_flight_def req_ok_update dest: set_update_subset_insert [THEN subsetD])
  qed (use assms f fl in \<open>auto simp: feed_subscribers_def flight_ok_def split: if_splits option.splits
      intro!: cache_inv_upd_flight\<close>)
qed

lemma inv_hand:
  assumes "cache_inv entries R s" and "hand_over f i s = Some s'"
  shows "cache_inv entries R s'"
proof -
  obtain n c where f: "f < length (sv_flights s)" "i < length (sv_reqs s)" "rq_pc (sv_reqs s ! i) = ReqWaiting f"
    and pc: "fl_pc (sv_flights s ! f) = FSend (Suc n) c"
    and s': "s' = upd_flight f (\<lambda>fl. fl\<lparr>fl_pc := FSend n c\<rparr>) (set_req i (ReqDone c) s)"
    using assms(2) by (auto simp: hand_over_def split: if_splits feeder_pc.splits nat.splits)
  have uri: "(rq_uri (sv_reqs s ! i), c) \<in> R"
    using cache_invD(3) [OF assms(1) f(1)] cache_invD(4) [OF assms(1) f(2)] f(3) pc
    by (auto simp: flight_ok_def req_ok_def on_flight_def)
  then have "cache_inv entries R (set_req i (ReqDone c) s)"
    using assms(1) f(2) by (intro cache_inv_set_req) (auto simp: req_ok_def)
  then show ?thesis
    using cache_invD(3) [OF assms(1) f(1)] f pc unfolding s'
    by (intro cache_inv_upd_flight) (auto simp: set_req_def flight_ok_def)
qed

lemma inv_act:
  assumes "cache_inv entries R s" and "cache_act L a s = Some s'"
  shows "cache_inv entries (R \<union> set (case a of Respond i r \<Rightarrow> [(rq_uri (sv_reqs s ! i), r)] | _ \<Rightarrow> [])) s'"
proof (cases a)
  case (Arrive u)
  moreover have "req_ok R (sv_flights s) \<lparr>rq_uri = u, rq_pc = ReqStart\<rparr>"
    by (simp add: req_ok_def)
  ultimately show ?thesis
    using assms by (auto simp: cache_inv_def)
next
  case (Respond i r)
  let ?R = "R \<union> {(rq_uri (sv_reqs s ! i), r)}"
  obtain f where f: "i < length (sv_reqs s)" "rq_pc (sv_reqs s ! i) = ReqServing f" "s' = set_req i (ReqRecorded f r) s"
    using assms(2) Respond by (auto split: if_splits req_pc.splits)
  have "cache_inv entries ?R s"
    using cache_inv_mono [OF assms(1)] by blast
  then have "cache_inv entries ?R s'"
    using f cache_invD(4) [OF assms(1) f(1)] unfolding f(3) by (intro cache_inv_set_req) (auto simp: req_ok_def)
  with Respond show ?thesis by simp
next
  case (CtxDone f)
  with assms cache_invD(3) [OF assms(1), of f] show ?thesis
    by (auto simp: flight_ok_def split: if_splits intro!: cache_inv_upd_flight)
next
  case PurgeCache
  with assms show ?thesis by (auto simp: cache_inv_def cb_Purge_def lru_Purge_empty)
next
  case (ActReq i)
  with assms inv_HandleCachedHTTP [OF assms(1), of i s'] show ?thesis by simp
next
  case (ActFeed f)
  with assms inv_feed [OF assms(1), of f s'] show ?thesis by simp
next
  case (Hand f i)
  with assms inv_hand [OF assms(1), of f i s'] show ?thesis by simp
qed

lemma inv_run:
  "cache_inv entries R s \<Longrightarrow> cache_run L as s = Some s' \<Longrightarrow> cache_inv entries (R \<union> set (responses L as s)) s'"
proof (induction as arbitrary: s R)
  case (Cons a as)
  then obtain s1 where s1: "cache_act L a s = Some s1" "cache_run L as s1 = Some s'"
    by (auto split: option.splits)
  from Cons.IH [OF inv_act [OF Cons.prems(1) s1(1)] s1(2)] s1(1) show ?case
    by (simp add: Un_assoc)
qed simp

lemma inv_init: "entries (cb_lru cb) = Map.empty \<Longrightarrow> cb_resultChan cb = Map.empty \<Longrightarrow> cache_inv entries {} (server_init cb)"
  by (simp add: cache_inv_def server_init_def chans_ok_def on_flight_def)

end

section \<open>Sample data\<close>

definition sample_cb :: "lru_list CacheBackend" where
  "sample_cb = \<lparr>cb_lru = (1, []), cb_evictionCount = 0, cb_cacheServeCount = 0, cb_serveCount = 0,
     cb_cacheType = ''latest'', cb_resultChan = Map.empty, cb_subscribeCount = Map.empty\<rparr>"

definition sample_rsp :: "byte \<Rightarrow> ResponseCache" where
  "sample_rsp b = \<lparr>rsp_status = 200, rsp_body = [b]\<rparr>"

text \<open>Two requests for one URI: the first runs the handler, the second waits for it.\<close>

definition sample_requests :: "cache_action list" where
  "sample_requests = [Arrive ''/a'', ActReq 0, ActReq 0, ActReq 0, Arrive ''/a'', ActReq 1, ActReq 1, ActReq 1]"

lemma sample_cb_new: "NewCacheBackend list_lru 2 ''latest'' = Ok sample_cb"
  by (simp add: NewCacheBackend_def list_lru_def sample_cb_def)

lemma new_backend_empty:
  assumes "lru_cache L entries" and "NewCacheBackend L n cacheType = Ok cb"
  shows "cache_inv entries {} (server_init cb)"
  using assms lru_cache.lru_New_empty [OF assms(1)]
  by (intro lru_cache.inv_init [OF assms(1)]) (auto simp: NewCacheBackend_def split: res.splits)

definition req_pcs :: "'l server \<Rightarrow> req_pc list" where
  "req_pcs s = map rq_pc (sv_reqs s)"

lemma req_pcs_nth: "i < length (req_pcs s) \<Longrightarrow> i < length (sv_reqs s) \<and> rq_pc (sv_reqs s ! i) = req_pcs s ! i"
  by (simp add: req_pcs_def)

lemma sample_waiting: "\<exists>s. cache_run list_lru sample_requests (server_init sample_cb) = Some s \<and>
    req_pcs s = [ReqServing 0, ReqWaiting 0]"
proof -
  have "map_option req_pcs (cache_run list_lru sample_requests (server_init sample_cb)) = Some [ReqServing 0, ReqWaiting 0]"
    by code_simp
  then show ?thesis by blast
qed

lemma sample_answered: "\<exists>s. cache_run list_lru (sample_requests @ [Respond 0 (sample_rsp 7), ActReq 0, CtxDone 0,
      ActFeed 0, Hand 0 1]) (server_init sample_cb) = Some s \<and> req_pcs s ! 1 = ReqDone (sample_rsp 7) \<and> length (req_pcs s) = 2"
proof -
  have "map_option (\<lambda>s. (req_pcs s ! 1, length (req_pcs s))) (cache_run list_lru (sample_requests @ [Respond 0 (sample_rsp 7), ActReq 0, CtxDone 0,
      ActFeed 0, Hand 0 1]) (server_init sample_cb)) = Some (ReqDone (sample_rsp 7), 2)"
    by code_simp
  then show ?thesis by auto
qed

section \<open>Properties\<close>

text \<open>
  C10. In every interleaving of requests, handlers, disconnections and purges, what a client
  receives is a response the handler gave to a request for the same URI, or the 503 of a flight
  whose request was abandoned.
\<close>

theorem cached_responses_are_genuine:
  assumes "lru_cache L entries" and "NewCacheBackend L n cacheType = Ok cb"
    and "cache_run L as (server_init cb) = Some s"
    and "i < length (sv_reqs s)" and "rq_pc (sv_reqs s ! i) = ReqDone c"
  shows "c = unavailable \<or> (rq_uri (sv_reqs s ! i), c) \<in> set (responses L as (server_init cb))"
  using cache_invD(4) [OF lru_cache.inv_run [OF assms(1) new_backend_empty [OF assms(1,2)] assms(3)] assms(4)] assms(5)
  by (simp add: req_ok_def)

theorem cached_responses_are_genuine_witness:
  "\<exists>s. cache_run list_lru (sample_requests @ [Respond 0 (sample_rsp 7), ActReq 0, CtxDone 0, ActFeed 0, Hand 0 1])
      (server_init sample_cb) = Some s \<and>
    (sample_rsp 7 = unavailable \<or> (rq_uri (sv_reqs s ! 1), sample_rsp 7) \<in>
      set (responses list_lru (sample_requests @ [Respond 0 (sample_rsp 7), ActReq 0, CtxDone 0, ActFeed 0, Hand 0 1])
        (server_init sample_cb)))"
proof -
  obtain s where s: "cache_run list_lru (sample_requests @ [Respond 0 (sample_rsp 7), ActReq 0, CtxDone 0, ActFeed 0, Hand 0 1])
      (server_init sample_cb) = Some s" and pcs: "req_pcs s ! 1 = ReqDone (sample_rsp 7)" "length (req_pcs s) = 2"
    using sample_answered by blast
  have "1 < length (sv_reqs s)" and "rq_pc (sv_reqs s ! 1) = ReqDone (sample_rsp 7)"
    using req_pcs_nth [of 1 s] pcs by simp_all
  from cached_responses_are_genuine [OF list_cache.lru_cache_axioms sample_cb_new s this] s show ?thesis by blast
qed

text \<open>
  C33. A request that waits for another one's response is never left behind: from every state
  that can be reached its flight and itself can go on until it is answered, whether or not the
  first client went away and whatever else was subscribed, purged or evicted.
\<close>

theorem waiting_requests_finish:
  assumes "lru_cache L entries" and "NewCacheBackend L n cacheType = Ok cb"
    and "cache_run L as (server_init cb) = Some s"
    and "i < length (sv_reqs s)" and "rq_pc (sv_reqs s ! i) = ReqWaiting f"
  shows "\<exists>bs s' c. set bs \<subseteq> {CtxDone f, ActFeed f, Hand f i, ActReq i} \<and> cache_run L bs s = Some s' \<and>
    rq_pc (sv_reqs s' ! i) = ReqDone c"
  using waiting_can_finish [OF lru_cache.inv_run [OF assms(1) new_backend_empty [OF assms(1,2)] assms(3)] assms(4,5)]
  by (simp add: can_finish_def)

theorem waiting_requests_finish_witness:
  "\<exists>s bs s' c. cache_run list_lru sample_requests (server_init sample_cb) = Some s \<and>
    rq_pc (sv_reqs s ! 1) = ReqWaiting 0 \<and>
    set bs \<subseteq> {CtxDone 0, ActFeed 0, Hand 0 1, ActReq 1} \<and> cache_run list_lru bs s = Some s' \<and>
    rq_pc (sv_reqs s' ! 1) = ReqDone c"
proof -
  obtain s where s: "cache_run list_lru sample_requests (server_init sample_cb) = Some s"
    and pcs: "req_pcs s = [ReqServing 0, ReqWaiting 0]"
    using sample_waiting by blast
  have w: "1 < length (sv_reqs s)" "rq_pc (sv_reqs s ! 1) = ReqWaiting 0"
    using req_pcs_nth [of 1 s] pcs by simp_all
  from waiting_requests_finish [OF list_cache.lru_cache_axioms sample_cb_new s w] s w(2) show ?thesis by blast
qed

text \<open>
  A URI that is in the cache is answered from it: the request finishes without a flight and
  so without running the handler, and the entry stays.
\<close>

theorem cache_hit:
  assumes "lru_cache L entries" and "entries (cb_lru (sv_cb s)) u = Some c"
  shows "\<exists>s'. cache_run L [Arrive u, ActReq (length (sv_reqs s)), ActReq (length (sv_reqs s)), ActReq (length (sv_reqs s))] s = Some s' \<and>
    rq_pc (sv_reqs s' ! length (sv_reqs s)) = ReqDone c \<and> sv_flights s' = sv_flights s \<and>
    entries (cb_lru (sv_cb s')) = entries (cb_lru (sv_cb s))"
proof -
  have "fst (lru_Get L (cb_lru (sv_cb s)) u) = Some c"
    using assms lru_cache.lru_Get_entries(1) [OF assms(1)] by simp
  then show ?thesis
    by (simp add: HandleCachedHTTP_def set_req_def cb_Get_def case_prod_beta Let_def nth_append
        lru_cache.lru_Get_entries(2) [OF assms(1)])
qed

definition sample_cached :: "lru_list server" where
  "sample_cached = server_init (sample_cb\<lparr>cb_lru := (1, [(''/a'', sample_rsp 7)])\<rparr>)"

theorem cache_hit_witness:
  "\<exists>s'. cache_run list_lru [Arrive ''/a'', ActReq 0, ActReq 0, ActReq 0] sample_cached = Some s' \<and>
    rq_pc (sv_reqs s' ! 0) = ReqDone (sample_rsp 7) \<and> sv_flights s' = []"
proof -
  have "list_entries (cb_lru (sv_cb sample_cached)) ''/a'' = Some (sample_rsp 7)"
    and "sv_reqs sample_cached = []" and "sv_flights sample_cached = []"
    by (simp_all add: sample_cached_def server_init_def list_entries_def)
  with cache_hit [OF list_cache.lru_cache_axioms, of sample_cached "''/a''"] show ?thesis by auto
qed

text \<open>
  Purging does not reach a response that is on its way into the cache: a handler that ran
  before the purge stores its response after it, and later requests are answered with it.
\<close>

theorem purge_misses_running_requests:
  "map_option req_pcs (cache_run list_lru
      ([Arrive ''/a'', ActReq 0, ActReq 0, ActReq 0, Respond 0 (sample_rsp 7), PurgeCache, ActReq 0, ActReq 0,
        Arrive ''/a'', ActReq 1, ActReq 1, ActReq 1]) (server_init sample_cb)) =
    Some [ReqDone (sample_rsp 7), ReqDone (sample_rsp 7)]"
  by code_simp

end
