(* ===== verification/Rootmulti.thy ===== *)
theory Rootmulti
  imports Node_Store Tm_Types "HOL-Library.AList"
begin

text \<open>
  \<open>src/store/rootmulti\<close>: the multi-store of the application. It mounts stores under keys, commits
  them, keeps the commit information of every version in the database, and branches read-only
  views at past heights over the height-limited database. IAVL trees, transient and memory
  stores, the pruning manager and the protobuf encodings are SDK code and enter as parameters;
  in the node every persistent store is a \<open>commitDBStoreAdapter\<close>, which is modelled. Everything
  that touches the database is a client program of it. A Go map is the list of its entries in the
  order the iteration visits them.
\<close>

section \<open>Keys and commit information\<close>

datatype key_kind = KVStoreKey | TransientStoreKey | MemoryStoreKey

text \<open>Keys are pointers; \<open>sk_id\<close> is their identity.\<close>

record StoreKey =
  sk_id :: nat
  sk_Name :: string
  sk_kind :: key_kind

datatype StoreType = StoreTypeMulti | StoreTypeDB | StoreTypeIAVL | StoreTypeTransient | StoreTypeMemory | StoreTypeOther

record CommitID =
  cid_Version :: int64
  cid_Hash :: bytes

record StoreInfo =
  si_Name :: string
  si_CommitId :: CommitID

record CommitInfo =
  ci_Version :: int64
  ci_StoreInfos :: "StoreInfo list"

definition zero_CommitID :: CommitID where
  "zero_CommitID = \<lparr>cid_Version = 0, cid_Hash = []\<rparr>"

text \<open>The protobuf getter on a nil pointer gives 0.\<close>

definition GetVersion :: "CommitInfo option \<Rightarrow> int64" where
  "GetVersion ci = (case ci of None \<Rightarrow> 0 | Some c \<Rightarrow> ci_Version c)"

section \<open>Stores and the SDK behind them\<close>

text \<open>The database a store adapter reads and writes: the root database or the one it was mounted with.\<close>

datatype db_ref = MainDB | OtherDB nat

datatype 'v kvstore = Iavl 'v | CommitDB db_ref bytes | Transient 'v | Mem 'v

datatype delete_error = ErrVersionDoesNotExist | DeleteFailed string

record proof_op =
  po_Type :: string
  po_Data :: bytes

record RequestQuery =
  rqy_Data :: bytes
  rqy_Path :: string
  rqy_Height :: int64
  rqy_Prove :: bool

record ResponseQuery =
  rsq_Log :: string
  rsq_Value :: bytes
  rsq_Height :: int64
  rsq_Ops :: "proof_op list option"

text \<open>Nodes of an exported tree and the messages of a snapshot stream; nil slices are \<^const>\<open>None\<close>.\<close>

record export_node =
  en_Key :: "bytes option"
  en_Value :: "bytes option"
  en_Height :: "8 word"
  en_Version :: int64

datatype snapshot_item =
    SnapshotEmpty
  | SnapshotStore string
  | SnapshotIAVL "bytes option" "bytes option" "32 word" int64
  | SnapshotExtension nat

record 'v store_lib =
  lib_Load :: "bytes \<Rightarrow> StoreKey \<Rightarrow> CommitID \<Rightarrow> bool \<Rightarrow> uint64 \<Rightarrow> 'v res prog"
  lib_NewTransient :: 'v
  lib_NewMem :: 'v
  lib_LastCommitID :: "'v \<Rightarrow> CommitID"
  lib_Commit :: "'v \<Rightarrow> (CommitID \<times> 'v) prog"
  lib_Iterate :: "'v \<Rightarrow> entries prog"
  lib_Set :: "'v \<Rightarrow> bytes \<Rightarrow> bytes \<Rightarrow> 'v prog"
  lib_Delete :: "'v \<Rightarrow> bytes \<Rightarrow> 'v prog"
  lib_GetImmutable :: "'v \<Rightarrow> int64 \<Rightarrow> 'v res prog"
  lib_SetInitialVersion :: "'v \<Rightarrow> int64 \<Rightarrow> 'v"
  lib_DeleteVersions :: "'v \<Rightarrow> int64 list \<Rightarrow> (delete_error option \<times> 'v) prog"
  lib_LoadForOverwriting :: "bool \<Rightarrow> 'v \<Rightarrow> int64 \<Rightarrow> (string option \<times> 'v) prog"
  lib_GetStoreCache :: "StoreKey \<Rightarrow> 'v \<Rightarrow> 'v"
  lib_Query :: "'v \<Rightarrow> RequestQuery \<Rightarrow> ResponseQuery"
  lib_Export :: "'v \<Rightarrow> int64 \<Rightarrow> (export_node list \<times> string option) res prog"
  lib_Import :: "'v \<Rightarrow> int64 \<Rightarrow> string option prog"
  lib_ImportAdd :: "'v \<Rightarrow> export_node list \<Rightarrow> export_node \<Rightarrow> string option"
  lib_ImportCommit :: "'v \<Rightarrow> int64 \<Rightarrow> export_node list \<Rightarrow> 'v res prog"
  lib_other_Iterate :: "nat \<Rightarrow> bytes \<Rightarrow> entries prog"
  lib_other_Set :: "nat \<Rightarrow> bytes \<Rightarrow> bytes \<Rightarrow> unit prog"
  lib_other_Delete :: "nat \<Rightarrow> bytes \<Rightarrow> unit prog"
  lib_CommitHash :: "CommitInfo \<Rightarrow> bytes"
  lib_ProofOp :: "CommitInfo \<Rightarrow> string \<Rightarrow> proof_op"
  lib_MarshalInfo :: "CommitInfo \<Rightarrow> bytes res"
  lib_UnmarshalInfo :: "bytes \<Rightarrow> CommitInfo res"
  lib_MarshalInt64 :: "int64 \<Rightarrow> bytes res"
  lib_UnmarshalInt64 :: "bytes \<Rightarrow> int64 res"

text \<open>A result of a library call whose error is a panic of the caller.\<close>

definition must :: "'a res \<Rightarrow> ('a \<Rightarrow> 'c prog) \<Rightarrow> 'c prog" where
  "must r f = (case r of Ok x \<Rightarrow> f x | Err e \<Rightarrow> Abort e | Panic p \<Rightarrow> Abort p)"

section \<open>The adapter of plain databases (\<open>dbadapter.go\<close>)\<close>

definition commithash :: bytes where
  "commithash = bytes_of ''FAKE_HASH''"

definition adapter_Commit :: CommitID where
  "adapter_Commit = \<lparr>cid_Version = -1, cid_Hash = commithash\<rparr>"

definition adapter_LastCommitID :: CommitID where
  "adapter_LastCommitID = \<lparr>cid_Version = -1, cid_Hash = commithash\<rparr>"

text \<open>
  The stores of a branch: those of the root as they are, an immutable tree, or an adapter with a
  prefix over the height-limited database at a height.
\<close>

datatype 'v branch_store = Same "'v kvstore" | Immutable 'v | AtHeight int64 bytes

definition BranchStoreWithHeightLimitedDB :: "bytes \<Rightarrow> int64 \<Rightarrow> 'v branch_store" where
  "BranchStoreWithHeightLimitedDB pfx version = AtHeight version pfx"

text \<open>
  Reading a key of an adapter through the SDK's \<open>dbadapter.Store\<close> over a prefix database: errors
  and empty keys are panics. \<open>H\<close> is the height-aware database and \<open>w\<close> its state with a
  height-limited database, the root's or a branch.
\<close>

definition adapter_Get :: "('s, 'b) HeightLimitEnabledDB \<Rightarrow> 's hworld \<Rightarrow> bytes \<Rightarrow> bytes \<Rightarrow> bytes option res" where
  "adapter_Get H w pfx key =
     (if key = [] then Panic ''key is empty''
      else case hld_Get H w (pfx @ key) of Ok v \<Rightarrow> Ok v | Err e \<Rightarrow> Panic e | Panic p \<Rightarrow> Panic p)"

text \<open>
  The end of the range of keys with a prefix: the prefix counted up, nil when it is all 255. The
  iterators of a prefix database pass over the key that is the prefix itself; it has no empty keys.
\<close>

fun prefix_end :: "bytes \<Rightarrow> bytes option" where
  "prefix_end [] = None"
| "prefix_end (b # bs) =
     (case prefix_end bs of Some e \<Rightarrow> Some (b # e) | None \<Rightarrow> if b = 255 then None else Some [b + 1])"

fun kv_Iterate :: "'v store_lib \<Rightarrow> 'v kvstore \<Rightarrow> entries prog" where
  "kv_Iterate lib (CommitDB MainDB pfx) =
     Call (CallIterator (Some pfx) (prefix_end pfx)) (\<lambda>r. case r of
         REntries es \<Rightarrow> Done (map (\<lambda>(k, v). (drop (length pfx) k, v)) (filter (\<lambda>(k, v). k \<noteq> pfx) es))
       | RError e \<Rightarrow> Abort e
       | _ \<Rightarrow> Abort ''iterator'')"
| "kv_Iterate lib (CommitDB (OtherDB i) pfx) = lib_other_Iterate lib i pfx"
| "kv_Iterate lib (Iavl v) = lib_Iterate lib v"
| "kv_Iterate lib (Transient v) = lib_Iterate lib v"
| "kv_Iterate lib (Mem v) = lib_Iterate lib v"

definition db_write :: "db_call \<Rightarrow> 'a \<Rightarrow> 'a prog" where
  "db_write q x = Call q (\<lambda>r. case r of RError e \<Rightarrow> Abort e | _ \<Rightarrow> Done x)"

fun kv_Set :: "'v store_lib \<Rightarrow> 'v kvstore \<Rightarrow> bytes \<Rightarrow> bytes \<Rightarrow> 'v kvstore prog" where
  "kv_Set lib (CommitDB MainDB pfx) k v =
     (if k = [] then Abort ''key is empty'' else db_write (CallSet (pfx @ k) v) (CommitDB MainDB pfx))"
| "kv_Set lib (CommitDB (OtherDB i) pfx) k v =
     bind_prog (lib_other_Set lib i (pfx @ k) v) (\<lambda>_. Done (CommitDB (OtherDB i) pfx))"
| "kv_Set lib (Iavl s) k v = bind_prog (lib_Set lib s k v) (\<lambda>s'. Done (Iavl s'))"
| "kv_Set lib (Transient s) k v = bind_prog (lib_Set lib s k v) (\<lambda>s'. Done (Transient s'))"
| "kv_Set lib (Mem s) k v = bind_prog (lib_Set lib s k v) (\<lambda>s'. Done (Mem s'))"

fun kv_Delete :: "'v store_lib \<Rightarrow> 'v kvstore \<Rightarrow> bytes \<Rightarrow> 'v kvstore prog" where
  "kv_Delete lib (CommitDB MainDB pfx) k =
     (if k = [] then Abort ''key is empty'' else db_write (CallDelete (pfx @ k)) (CommitDB MainDB pfx))"
| "kv_Delete lib (CommitDB (OtherDB i) pfx) k =
     bind_prog (lib_other_Delete lib i (pfx @ k)) (\<lambda>_. Done (CommitDB (OtherDB i) pfx))"
| "kv_Delete lib (Iavl s) k = bind_prog (lib_Delete lib s k) (\<lambda>s'. Done (Iavl s'))"
| "kv_Delete lib (Transient s) k = bind_prog (lib_Delete lib s k) (\<lambda>s'. Done (Transient s'))"
| "kv_Delete lib (Mem s) k = bind_prog (lib_Delete lib s k) (\<lambda>s'. Done (Mem s'))"

fun kv_LastCommitID :: "'v store_lib \<Rightarrow> 'v kvstore \<Rightarrow> CommitID" where
  "kv_LastCommitID lib (CommitDB db pfx) = adapter_LastCommitID"
| "kv_LastCommitID lib (Iavl v) = lib_LastCommitID lib v"
| "kv_LastCommitID lib (Transient v) = lib_LastCommitID lib v"
| "kv_LastCommitID lib (Mem v) = lib_LastCommitID lib v"

fun kv_Commit :: "'v store_lib \<Rightarrow> 'v kvstore \<Rightarrow> (CommitID \<times> 'v kvstore) prog" where
  "kv_Commit lib (CommitDB db pfx) = Done (adapter_Commit, CommitDB db pfx)"
| "kv_Commit lib (Iavl v) = bind_prog (lib_Commit lib v) (\<lambda>(c, v'). Done (c, Iavl v'))"
| "kv_Commit lib (Transient v) = bind_prog (lib_Commit lib v) (\<lambda>(c, v'). Done (c, Transient v'))"
| "kv_Commit lib (Mem v) = bind_prog (lib_Commit lib v) (\<lambda>(c, v'). Done (c, Mem v'))"

fun kv_GetStoreType :: "'v kvstore \<Rightarrow> StoreType" where
  "kv_GetStoreType (CommitDB db pfx) = StoreTypeDB"
| "kv_GetStoreType (Iavl v) = StoreTypeIAVL"
| "kv_GetStoreType (Transient v) = StoreTypeTransient"
| "kv_GetStoreType (Mem v) = StoreTypeMemory"

section \<open>Copying and deleting stores\<close>

fun delete_keys :: "'v store_lib \<Rightarrow> 'v kvstore \<Rightarrow> bytes list \<Rightarrow> 'v kvstore prog" where
  "delete_keys lib kv [] = Done kv"
| "delete_keys lib kv (k # ks) = bind_prog (kv_Delete lib kv k) (\<lambda>kv'. delete_keys lib kv' ks)"

definition deleteKVStore :: "'v store_lib \<Rightarrow> 'v kvstore \<Rightarrow> 'v kvstore prog" where
  "deleteKVStore lib kv = bind_prog (kv_Iterate lib kv) (\<lambda>es. delete_keys lib kv (map fst es))"

fun set_entries :: "'v store_lib \<Rightarrow> 'v kvstore \<Rightarrow> entries \<Rightarrow> 'v kvstore prog" where
  "set_entries lib kv [] = Done kv"
| "set_entries lib kv ((k, v) # es) = bind_prog (kv_Set lib kv k v) (\<lambda>kv'. set_entries lib kv' es)"

definition moveKVStoreData :: "'v store_lib \<Rightarrow> 'v kvstore \<Rightarrow> 'v kvstore \<Rightarrow> ('v kvstore \<times> 'v kvstore) prog" where
  "moveKVStoreData lib oldDB newDB =
     bind_prog (kv_Iterate lib oldDB) (\<lambda>es.
     bind_prog (set_entries lib newDB es) (\<lambda>newDB'.
     bind_prog (deleteKVStore lib oldDB) (\<lambda>oldDB'. Done (oldDB', newDB'))))"

section \<open>The multi-store (\<open>store.go\<close>)\<close>

record storeParams =
  sp_key :: StoreKey
  sp_db :: "nat option"
  sp_typ :: StoreType
  sp_initialVersion :: uint64

definition newStoreParams :: "StoreKey \<Rightarrow> nat option \<Rightarrow> StoreType \<Rightarrow> uint64 \<Rightarrow> storeParams" where
  "newStoreParams key db typ initialVersion =
     \<lparr>sp_key = key, sp_db = db, sp_typ = typ, sp_initialVersion = initialVersion\<rparr>"

text \<open>
  The pruning manager of the SDK. The inter-block cache is its \<open>Unwrap\<close> method; the writer of the
  tracer and the listeners are values the store only passes on.
\<close>

record PruningOptions =
  po_KeepRecent :: uint64
  po_Interval :: uint64
  po_Strategy :: int

record 'p pruning =
  pm_GetOptions :: "'p \<Rightarrow> PruningOptions"
  pm_SetOptions :: "'p \<Rightarrow> PruningOptions \<Rightarrow> 'p"
  pm_SetSnapshotInterval :: "'p \<Rightarrow> uint64 \<Rightarrow> 'p"
  pm_HandleHeight :: "'p \<Rightarrow> int64 \<Rightarrow> 'p"
  pm_ShouldPruneAtHeight :: "'p \<Rightarrow> int64 \<Rightarrow> bool"
  pm_GetFlushAndResetPruningHeights :: "'p \<Rightarrow> (int64 list \<times> 'p) res"
  pm_LoadPruningHeights :: "'p \<Rightarrow> 'p res prog"
  pm_HandleHeightSnapshot :: "'p \<Rightarrow> int64 \<Rightarrow> 'p"

record ('v, 'p) Store =
  rs_lastCommitInfo :: "CommitInfo option"
  rs_pruningManager :: 'p
  rs_iavlCacheSize :: int
  rs_iavlDisableFastNode :: bool
  rs_storesParams :: "(StoreKey \<times> storeParams) list"
  rs_stores :: "(StoreKey \<times> 'v kvstore) list"
  rs_keysByName :: "(string \<times> StoreKey) list"
  rs_lazyLoading :: bool
  rs_initialVersion :: int64
  rs_removalMap :: "StoreKey list"
  rs_interBlockCache :: "(StoreKey \<Rightarrow> 'v kvstore option) option"
  rs_tracer :: "nat option"
  rs_traceContext :: "(string \<times> string) list option"
  rs_listeners :: "(StoreKey \<times> nat list) list"

definition iavlDisablefastNodeDefault :: bool where
  "iavlDisablefastNodeDefault = False"

definition NewStore :: "'p \<Rightarrow> int \<Rightarrow> ('v, 'p) Store" where
  "NewStore pruningManager defaultCacheSize =
     \<lparr>rs_lastCommitInfo = None, rs_pruningManager = pruningManager, rs_iavlCacheSize = defaultCacheSize,
      rs_iavlDisableFastNode = iavlDisablefastNodeDefault, rs_storesParams = [], rs_stores = [],
      rs_keysByName = [], rs_lazyLoading = False, rs_initialVersion = 0, rs_removalMap = [],
      rs_interBlockCache = None, rs_tracer = None, rs_traceContext = None, rs_listeners = []\<rparr>"

text \<open>A nil key panics; so does a key or a name that is taken.\<close>

definition MountStoreWithDB ::
  "('v, 'p) Store \<Rightarrow> StoreKey option \<Rightarrow> StoreType \<Rightarrow> nat option \<Rightarrow> ('v, 'p) Store res" where
  "MountStoreWithDB rs key typ db =
     (case key of
        None \<Rightarrow> Panic ''MountIAVLStore() key cannot be nil''
      | Some k \<Rightarrow>
          if map_of (rs_storesParams rs) k \<noteq> None then Panic ''store duplicate store key''
          else if map_of (rs_keysByName rs) (sk_Name k) \<noteq> None then Panic ''store duplicate store key name''
          else Ok (rs\<lparr>rs_storesParams := (k, newStoreParams k db typ 0) # rs_storesParams rs,
                      rs_keysByName := (sk_Name k, k) # rs_keysByName rs\<rparr>))"

definition GetCommitKVStore :: "('v, 'p) Store \<Rightarrow> StoreKey \<Rightarrow> 'v kvstore option" where
  "GetCommitKVStore rs key =
     (case rs_interBlockCache rs of
        Some Unwrap \<Rightarrow> (case Unwrap key of Some store \<Rightarrow> Some store | None \<Rightarrow> map_of (rs_stores rs) key)
      | None \<Rightarrow> map_of (rs_stores rs) key)"

definition GetCommitStore :: "('v, 'p) Store \<Rightarrow> StoreKey \<Rightarrow> 'v kvstore option" where
  "GetCommitStore rs key = GetCommitKVStore rs key"

definition StoreKeysByName :: "('v, 'p) Store \<Rightarrow> (string \<times> StoreKey) list" where
  "StoreKeysByName rs = rs_keysByName rs"

definition GetStore :: "('v, 'p) Store \<Rightarrow> StoreKey \<Rightarrow> 'v kvstore res" where
  "GetStore rs key = (case GetCommitKVStore rs key of Some s \<Rightarrow> Ok s | None \<Rightarrow> Panic (''store does not exist for key: '' @ sk_Name key))"

definition GetStoreByName :: "('v, 'p) Store \<Rightarrow> string \<Rightarrow> 'v kvstore option" where
  "GetStoreByName rs name =
     (case map_of (rs_keysByName rs) name of None \<Rightarrow> None | Some key \<Rightarrow> GetCommitKVStore rs key)"

text \<open>Tracing and listening wrap the store; the wrappers are the SDK's.\<close>

definition ListeningEnabled :: "('v, 'p) Store \<Rightarrow> StoreKey \<Rightarrow> bool" where
  "ListeningEnabled rs key = (case map_of (rs_listeners rs) key of Some ls \<Rightarrow> ls \<noteq> [] | None \<Rightarrow> False)"

definition AddListeners :: "('v, 'p) Store \<Rightarrow> StoreKey \<Rightarrow> nat list \<Rightarrow> ('v, 'p) Store" where
  "AddListeners rs key listeners =
     rs\<lparr>rs_listeners := AList.update key
        (case map_of (rs_listeners rs) key of Some ls \<Rightarrow> ls @ listeners | None \<Rightarrow> listeners) (rs_listeners rs)\<rparr>"

definition TracingEnabled :: "('v, 'p) Store \<Rightarrow> bool" where
  "TracingEnabled rs = (rs_tracer rs \<noteq> None)"

text \<open>A copy of the context: every entry is written into an empty map.\<close>

definition getTracingContext :: "('v, 'p) Store \<Rightarrow> (string \<times> string) list option" where
  "getTracingContext rs =
     (case rs_traceContext rs of
        None \<Rightarrow> None
      | Some tc \<Rightarrow> Some (fold (\<lambda>(k, v). AList.update k v) tc []))"

datatype 'v wrapped_store = Plain "'v kvstore" | Traced nat "(string \<times> string) list option" "'v wrapped_store"
  | Listened StoreKey "nat list" "'v wrapped_store"

definition GetKVStore :: "('v, 'p) Store \<Rightarrow> StoreKey \<Rightarrow> 'v wrapped_store res" where
  "GetKVStore rs key =
     (case map_of (rs_stores rs) key of
        None \<Rightarrow> Panic (''store does not exist for key: '' @ sk_Name key)
      | Some s \<Rightarrow>
          let s1 = (case rs_tracer rs of Some w \<Rightarrow> Traced w (getTracingContext rs) (Plain s) | None \<Rightarrow> Plain s)
          in Ok (if ListeningEnabled rs key
                 then Listened key (case map_of (rs_listeners rs) key of Some ls \<Rightarrow> ls | None \<Rightarrow> []) s1 else s1))"

definition CacheMultiStore :: "('v, 'p) Store \<Rightarrow> (StoreKey \<times> 'v wrapped_store) list" where
  "CacheMultiStore rs =
     map (\<lambda>(k, v). (k, if ListeningEnabled rs k
        then Listened k (case map_of (rs_listeners rs) k of Some ls \<Rightarrow> ls | None \<Rightarrow> []) (Plain v) else Plain v))
       (rs_stores rs)"

text \<open>The wrapper interface: the tracer and the listeners that are passed are ignored.\<close>

definition CacheWrap :: "('v, 'p) Store \<Rightarrow> (StoreKey \<times> 'v wrapped_store) list" where
  "CacheWrap rs = CacheMultiStore rs"

definition CacheWrapWithTrace ::
  "('v, 'p) Store \<Rightarrow> nat option \<Rightarrow> (string \<times> string) list option \<Rightarrow> (StoreKey \<times> 'v wrapped_store) list" where
  "CacheWrapWithTrace rs w tc = CacheWrap rs"

definition CacheWrapWithListeners ::
  "('v, 'p) Store \<Rightarrow> StoreKey \<Rightarrow> nat list \<Rightarrow> (StoreKey \<times> 'v wrapped_store) list" where
  "CacheWrapWithListeners rs key listeners = CacheWrap rs"

subsection \<open>Versions in the database\<close>

definition latestVersionKey :: bytes where
  "latestVersionKey = bytes_of ''s/latest''"

definition commitInfoKey :: "int64 \<Rightarrow> bytes" where
  "commitInfoKey ver = bytes_of (''s/'' @ Sprintf_d (sint ver))"

definition GetLatestVersion :: "'v store_lib \<Rightarrow> int64 prog" where
  "GetLatestVersion lib =
     Call (CallGet latestVersionKey) (\<lambda>r. case r of
         RValue None \<Rightarrow> Done 0
       | RValue (Some bz) \<Rightarrow> must (lib_UnmarshalInt64 lib bz) Done
       | RError e \<Rightarrow> Abort e
       | _ \<Rightarrow> Abort ''get'')"

definition getCommitInfo :: "'v store_lib \<Rightarrow> int64 \<Rightarrow> (CommitInfo + string) prog" where
  "getCommitInfo lib ver =
     Call (CallGet (commitInfoKey ver)) (\<lambda>r. case r of
         RValue None \<Rightarrow> Done (Inr ''no commit info found'')
       | RValue (Some bz) \<Rightarrow>
           (case lib_UnmarshalInfo lib bz of
              Ok cInfo \<Rightarrow> Done (Inl cInfo)
            | Err e \<Rightarrow> Done (Inr (''failed unmarshal commit info: '' @ e))
            | Panic p \<Rightarrow> Abort p)
       | RError e \<Rightarrow> Done (Inr (''failed to get commit info: '' @ e))
       | _ \<Rightarrow> Abort ''get'')"

text \<open>Errors of \<open>batch.Set\<close> are dropped.\<close>

definition flushCommitInfo :: "'v store_lib \<Rightarrow> nat \<Rightarrow> int64 \<Rightarrow> CommitInfo \<Rightarrow> unit prog" where
  "flushCommitInfo lib batch version cInfo =
     must (lib_MarshalInfo lib cInfo) (\<lambda>bz. Call (CallBatchSet batch (commitInfoKey version) bz) (\<lambda>_. Done ()))"

definition flushLatestVersion :: "'v store_lib \<Rightarrow> nat \<Rightarrow> int64 \<Rightarrow> unit prog" where
  "flushLatestVersion lib batch version =
     must (lib_MarshalInt64 lib version) (\<lambda>bz. Call (CallBatchSet batch latestVersionKey bz) (\<lambda>_. Done ()))"

definition flushMetadata :: "'v store_lib \<Rightarrow> int64 \<Rightarrow> CommitInfo option \<Rightarrow> unit prog" where
  "flushMetadata lib version cInfo =
     Call CallNewBatch (\<lambda>b. case b of
         RBatch batch \<Rightarrow>
           bind_prog (case cInfo of Some ci \<Rightarrow> flushCommitInfo lib batch version ci | None \<Rightarrow> Done ()) (\<lambda>_.
           bind_prog (flushLatestVersion lib batch version) (\<lambda>_.
             Call (CallBatchWriteSync batch) (\<lambda>r. case r of
                 RError e \<Rightarrow> Abort (''error on batch write '' @ e)
               | _ \<Rightarrow> Call (CallBatchClose batch) (\<lambda>_. Done ()))))
       | _ \<Rightarrow> Abort ''batch'')"

definition LastCommitID :: "'v store_lib \<Rightarrow> ('v, 'p) Store \<Rightarrow> CommitID prog" where
  "LastCommitID lib rs =
     (case rs_lastCommitInfo rs of
        None \<Rightarrow> bind_prog (GetLatestVersion lib) (\<lambda>v. Done \<lparr>cid_Version = v, cid_Hash = []\<rparr>)
      | Some ci \<Rightarrow> Done \<lparr>cid_Version = ci_Version ci, cid_Hash = lib_CommitHash lib ci\<rparr>)"

definition LatestVersion :: "'v store_lib \<Rightarrow> ('v, 'p) Store \<Rightarrow> int64 prog" where
  "LatestVersion lib rs = bind_prog (LastCommitID lib rs) (\<lambda>cid. Done (cid_Version cid))"

subsection \<open>Commit\<close>

text \<open>
  One store of \<open>commitStores\<close>: a store that is already at the version, because a commit was
  interrupted, is not committed again. The result is its entry, if it has one.
\<close>

definition commit_one ::
  "'v store_lib \<Rightarrow> int64 \<Rightarrow> StoreKey list \<Rightarrow> StoreKey \<times> 'v kvstore \<Rightarrow> (StoreInfo list \<times> (StoreKey \<times> 'v kvstore)) prog" where
  "commit_one lib version removalMap ks =
     (let (key, store) = ks; lastID = kv_LastCommitID lib store in
      bind_prog
        (if sint version \<le> sint (cid_Version lastID) then Done (lastID\<lparr>cid_Version := version\<rparr>, store) else kv_Commit lib store)
        (\<lambda>(commitID, store').
           Done (if kv_GetStoreType store = StoreTypeTransient \<or> key \<in> set removalMap then []
                 else [\<lparr>si_Name = sk_Name key, si_CommitId = commitID\<rparr>], (key, store'))))"

fun commit_all ::
  "'v store_lib \<Rightarrow> int64 \<Rightarrow> StoreKey list \<Rightarrow> (StoreKey \<times> 'v kvstore) list \<Rightarrow>
   (StoreInfo list \<times> (StoreKey \<times> 'v kvstore) list) prog" where
  "commit_all lib version removalMap [] = Done ([], [])"
| "commit_all lib version removalMap (ks # rest) =
     bind_prog (commit_one lib version removalMap ks) (\<lambda>(si, ks').
     bind_prog (commit_all lib version removalMap rest) (\<lambda>(sis, rest'). Done (si @ sis, ks' # rest')))"

text \<open>\<open>strings.Compare\<close> is the order of the bytes; the sort is stable.\<close>

definition commitStores ::
  "'v store_lib \<Rightarrow> int64 \<Rightarrow> (StoreKey \<times> 'v kvstore) list \<Rightarrow> StoreKey list \<Rightarrow>
   (CommitInfo \<times> (StoreKey \<times> 'v kvstore) list) prog" where
  "commitStores lib version storeMap removalMap =
     bind_prog (commit_all lib version removalMap storeMap) (\<lambda>(storeInfos, stores).
       Done (\<lparr>ci_Version = version, ci_StoreInfos = sort_key (\<lambda>si. bytes_of (si_Name si)) storeInfos\<rparr>, stores))"

text \<open>\<open>PruneStores\<close> deletes the heights from every IAVL store; a version that is not there is fine.\<close>

fun prune_all ::
  "'v store_lib \<Rightarrow> ('v, 'p) Store \<Rightarrow> int64 list \<Rightarrow> (StoreKey \<times> 'v kvstore) list \<Rightarrow>
   ((StoreKey \<times> 'v kvstore) list \<times> string option) prog" where
  "prune_all lib rs heights [] = Done ([], None)"
| "prune_all lib rs heights ((key, store) # rest) =
     (if kv_GetStoreType store \<noteq> StoreTypeIAVL then
        bind_prog (prune_all lib rs heights rest) (\<lambda>(rest', e). Done ((key, store) # rest', e))
      else case GetCommitKVStore rs key of
          Some (Iavl v) \<Rightarrow>
            bind_prog (lib_DeleteVersions lib v heights) (\<lambda>(err, v'). case err of
                Some (DeleteFailed e) \<Rightarrow> Done ((key, Iavl v') # rest, Some e)
              | _ \<Rightarrow> bind_prog (prune_all lib rs heights rest) (\<lambda>(rest', e). Done ((key, Iavl v') # rest', e)))
        | _ \<Rightarrow> Abort ''interface conversion'')"

definition PruneStores ::
  "'v store_lib \<Rightarrow> 'p pruning \<Rightarrow> ('v, 'p) Store \<Rightarrow> bool \<Rightarrow> int64 list \<Rightarrow> (('v, 'p) Store \<times> string option) prog" where
  "PruneStores lib P rs clearPruningManager pruningHeights =
     (let go = (\<lambda>rs heights.
          if heights = [] then Done (rs, None)
          else bind_prog (prune_all lib rs heights (rs_stores rs)) (\<lambda>(stores, e). Done (rs\<lparr>rs_stores := stores\<rparr>, e)))
      in if clearPruningManager then
           (case pm_GetFlushAndResetPruningHeights P (rs_pruningManager rs) of
              Ok (heights, pm) \<Rightarrow> go (rs\<lparr>rs_pruningManager := pm\<rparr>) (pruningHeights @ heights)
            | Err e \<Rightarrow> Done (rs, Some e)
            | Panic p \<Rightarrow> Abort p)
         else go rs pruningHeights)"

definition handlePruning ::
  "'v store_lib \<Rightarrow> 'p pruning \<Rightarrow> ('v, 'p) Store \<Rightarrow> int64 \<Rightarrow> (('v, 'p) Store \<times> string option) prog" where
  "handlePruning lib P rs version =
     (let rs1 = rs\<lparr>rs_pruningManager := pm_HandleHeight P (rs_pruningManager rs) (version - 1)\<rparr> in
      if \<not> pm_ShouldPruneAtHeight P (rs_pruningManager rs1) version then Done (rs1, None)
      else PruneStores lib P rs1 True [])"

definition next_version :: "('v, 'p) Store \<Rightarrow> int64" where
  "next_version rs =
     (if GetVersion (rs_lastCommitInfo rs) = 0 \<and> 1 < sint (rs_initialVersion rs) then rs_initialVersion rs
      else GetVersion (rs_lastCommitInfo rs) + 1)"

text \<open>Removed stores that are loaded are unmounted.\<close>

definition drop_removed :: "('v, 'p) Store \<Rightarrow> ('v, 'p) Store" where
  "drop_removed rs =
     (let gone = filter (\<lambda>sk. map_of (rs_stores rs) sk \<noteq> None) (rs_removalMap rs) in
      rs\<lparr>rs_stores := filter (\<lambda>(k, s). k \<notin> set gone) (rs_stores rs),
         rs_storesParams := filter (\<lambda>(k, s). k \<notin> set gone) (rs_storesParams rs),
         rs_keysByName := filter (\<lambda>(n, k). n \<notin> sk_Name ` set gone) (rs_keysByName rs),
         rs_removalMap := []\<rparr>)"

text \<open>A deferred call runs when the program returns and when it panics.\<close>

primrec defer_prog :: "'a prog \<Rightarrow> unit prog \<Rightarrow> 'a prog" where
  "defer_prog (Done x) f = bind_prog f (\<lambda>_. Done x)"
| "defer_prog (Abort p) f = bind_prog f (\<lambda>_. Abort p)"
| "defer_prog (Call q k) f = Call q (\<lambda>r. defer_prog (k r) f)"

text \<open>
  \<open>Commit\<close>. The metadata are flushed by a deferred call, after the pruning and also when the
  pruning fails or panics.
\<close>

definition rs_Commit :: "'v store_lib \<Rightarrow> 'p pruning \<Rightarrow> ('v, 'p) Store \<Rightarrow> (CommitID \<times> ('v, 'p) Store) prog" where
  "rs_Commit lib P rs =
     (let version = next_version rs in
      bind_prog (commitStores lib version (rs_stores rs) (rs_removalMap rs)) (\<lambda>(info, stores).
      defer_prog
        (bind_prog (handlePruning lib P (drop_removed (rs\<lparr>rs_lastCommitInfo := Some info, rs_stores := stores\<rparr>)) version)
          (\<lambda>(rs', err).
            case err of
              Some e \<Rightarrow> Abort e
            | None \<Rightarrow> Done (\<lparr>cid_Version = version, cid_Hash = lib_CommitHash lib info\<rparr>, rs')))
        (flushMetadata lib version (Some info))))"

subsection \<open>Branches at a height\<close>

fun branch_all ::
  "'v store_lib \<Rightarrow> ('v, 'p) Store \<Rightarrow> int64 \<Rightarrow> (StoreKey \<times> 'v kvstore) list \<Rightarrow>
   ((StoreKey \<times> 'v branch_store) list + string) prog" where
  "branch_all lib rs version [] = Done (Inl [])"
| "branch_all lib rs version ((key, store) # rest) =
     (let go = (\<lambda>b. bind_prog (branch_all lib rs version rest) (\<lambda>r. Done (case r of
            Inl bs \<Rightarrow> Inl ((key, b) # bs) | Inr e \<Rightarrow> Inr e)))
      in case kv_GetStoreType store of
           StoreTypeIAVL \<Rightarrow>
             (case GetCommitKVStore rs key of
                Some (Iavl v) \<Rightarrow>
                  bind_prog (lib_GetImmutable lib v version) (\<lambda>r. case r of
                      Ok v' \<Rightarrow> go (Immutable v')
                    | Err e \<Rightarrow> Done (Inr e)
                    | Panic p \<Rightarrow> Abort p)
              | _ \<Rightarrow> Abort ''interface conversion'')
         | StoreTypeDB \<Rightarrow>
             (case rs_lastCommitInfo rs of
                None \<Rightarrow> Abort nil_deref
              | Some ci \<Rightarrow>
                  if version = ci_Version ci then go (Same store)
                  else case GetCommitKVStore rs key of
                      Some (CommitDB db pfx) \<Rightarrow> go (BranchStoreWithHeightLimitedDB pfx version)
                    | _ \<Rightarrow> Abort ''interface conversion'')
         | _ \<Rightarrow> go (Same store))"

definition CacheMultiStoreWithVersion ::
  "'v store_lib \<Rightarrow> ('v, 'p) Store \<Rightarrow> int64 \<Rightarrow> ((StoreKey \<times> 'v branch_store) list + string) prog" where
  "CacheMultiStoreWithVersion lib rs version = branch_all lib rs version (rs_stores rs)"

text \<open>Reading a key of a branch: the branch was made from the height-limited database of the root.\<close>

fun branch_Get ::
  "('s, 'b) HeightLimitEnabledDB \<Rightarrow> 's hworld \<Rightarrow> 'v branch_store \<Rightarrow> bytes \<Rightarrow> bytes option res option" where
  "branch_Get H w (AtHeight version pfx) key = Some (adapter_Get H (fst w, BranchHeightLimitedDB (snd w) version) pfx key)"
| "branch_Get H w (Same (CommitDB MainDB pfx)) key = Some (adapter_Get H w pfx key)"
| "branch_Get H w (Same (CommitDB (OtherDB i) pfx)) key = None"
| "branch_Get H w (Same (Iavl v)) key = None"
| "branch_Get H w (Same (Transient v)) key = None"
| "branch_Get H w (Same (Mem v)) key = None"
| "branch_Get H w (Immutable v) key = None"

subsection \<open>Queries\<close>

text \<open>\<open>strings.SplitN(path[1:], "/", 2)\<close>: up to the first slash, and what follows it if there is one.\<close>

definition parsePath :: "string \<Rightarrow> (string \<times> string) res" where
  "parsePath path =
     (case path of
        [] \<Rightarrow> Err (''invalid path: '' @ path)
      | c # rest \<Rightarrow>
          if c \<noteq> CHR ''/'' then Err (''invalid path: '' @ path)
          else Ok (takeWhile (\<lambda>c. c \<noteq> CHR ''/'') rest, dropWhile (\<lambda>c. c \<noteq> CHR ''/'') rest))"

definition RequireProof :: "string \<Rightarrow> bool" where
  "RequireProof subpath = (subpath = ''/key'')"

definition query_error :: "string \<Rightarrow> ResponseQuery" where
  "query_error e = \<lparr>rsq_Log = e, rsq_Value = [], rsq_Height = 0, rsq_Ops = None\<rparr>"

text \<open>Of the stores only IAVL trees are queryable; the other ones are \<open>dbadapter\<close> stores, which are not.\<close>

definition query_proof ::
  "'v store_lib \<Rightarrow> ('v, 'p) Store \<Rightarrow> string \<Rightarrow> ResponseQuery \<Rightarrow> ResponseQuery prog" where
  "query_proof lib rs storeName res =
     (case rsq_Ops res of
        Some (op # ops) \<Rightarrow>
          (case rs_lastCommitInfo rs of
             None \<Rightarrow> Abort nil_deref
           | Some lastInfo \<Rightarrow>
               bind_prog (if rsq_Height res = ci_Version lastInfo then Done (Inl lastInfo) else getCommitInfo lib (rsq_Height res))
                 (\<lambda>r. case r of
                    Inr e \<Rightarrow> Done (query_error e)
                  | Inl commitInfo \<Rightarrow> Done (res\<lparr>rsq_Ops := Some (op # ops @ [lib_ProofOp lib commitInfo storeName])\<rparr>)))
      | _ \<Rightarrow> Done (query_error ''proof is unexpectedly empty; ensure height has not been pruned''))"

definition rs_Query :: "'v store_lib \<Rightarrow> ('v, 'p) Store \<Rightarrow> RequestQuery \<Rightarrow> ResponseQuery prog" where
  "rs_Query lib rs req =
     (case parsePath (rqy_Path req) of
        Err e \<Rightarrow> Done (query_error e)
      | Panic p \<Rightarrow> Abort p
      | Ok (storeName, subpath) \<Rightarrow>
          (case GetStoreByName rs storeName of
             None \<Rightarrow> Done (query_error (''no such store: '' @ storeName))
           | Some (Iavl v) \<Rightarrow>
               let req' = req\<lparr>rqy_Path := subpath\<rparr>; res = lib_Query lib v req' in
               if \<not> rqy_Prove req' \<or> \<not> RequireProof subpath then Done res else query_proof lib rs storeName res
           | Some _ \<Rightarrow> Done (query_error (''store '' @ storeName @ '' doesn't support queries''))))"

subsection \<open>Loading\<close>

text \<open>The prefix a store's data live under.\<close>

definition store_prefix :: "storeParams \<Rightarrow> bytes" where
  "store_prefix params =
     (if sp_db params \<noteq> None then bytes_of ''s/_/'' else bytes_of (''s/k:'' @ sk_Name (sp_key params) @ ''/''))"

definition loadCommitStoreFromParams ::
  "'v store_lib \<Rightarrow> ('v, 'p) Store \<Rightarrow> StoreKey \<Rightarrow> CommitID \<Rightarrow> storeParams \<Rightarrow> ('v kvstore + string) prog" where
  "loadCommitStoreFromParams lib rs key cid params =
     (let pfx = store_prefix params in
      case sp_typ params of
        StoreTypeMulti \<Rightarrow> Abort ''recursive MultiStores not yet supported''
      | StoreTypeIAVL \<Rightarrow>
          bind_prog (lib_Load lib pfx key cid (rs_lazyLoading rs) (sp_initialVersion params)) (\<lambda>r. case r of
              Ok v \<Rightarrow> Done (Inl (Iavl (if rs_interBlockCache rs \<noteq> None then lib_GetStoreCache lib key v else v)))
            | Err e \<Rightarrow> Done (Inr e)
            | Panic p \<Rightarrow> Abort p)
      | StoreTypeDB \<Rightarrow> Done (Inl (CommitDB (case sp_db params of Some i \<Rightarrow> OtherDB i | None \<Rightarrow> MainDB) pfx))
      | StoreTypeTransient \<Rightarrow>
          Done (if sk_kind key \<noteq> TransientStoreKey then Inr ''invalid StoreKey for StoreTypeTransient''
                else Inl (Transient (lib_NewTransient lib)))
      | StoreTypeMemory \<Rightarrow>
          Done (if sk_kind key \<noteq> MemoryStoreKey then Inr ''unexpected key type for a MemoryStoreKey''
                else Inl (Mem (lib_NewMem lib)))
      | StoreTypeOther \<Rightarrow> Abort ''unrecognized store type'')"

definition getCommitID :: "(string \<rightharpoonup> StoreInfo) \<Rightarrow> string \<Rightarrow> CommitID" where
  "getCommitID infos name = (case infos name of None \<Rightarrow> zero_CommitID | Some info \<Rightarrow> si_CommitId info)"

text \<open>
  Upgrades: which stores are added or deleted, and under which name a store was known before,
  empty when it is not renamed. \<open>oldKey\<close> makes the unregistered key of a renamed store.
\<close>

record upgrades =
  up_IsAdded :: "string \<Rightarrow> bool"
  up_RenamedFrom :: "string \<Rightarrow> string"
  up_IsDeleted :: "string \<Rightarrow> bool"

definition no_upgrades :: upgrades where
  "no_upgrades = \<lparr>up_IsAdded = (\<lambda>_. False), up_RenamedFrom = (\<lambda>_. []), up_IsDeleted = (\<lambda>_. False)\<rparr>"

text \<open>One store of \<open>loadVersion\<close>: the stores it adds, the keys it marks for removal, and an error.\<close>

definition load_one ::
  "'v store_lib \<Rightarrow> ('v, 'p) Store \<Rightarrow> upgrades \<Rightarrow> (string \<Rightarrow> StoreKey) \<Rightarrow> int64 \<Rightarrow> (string \<rightharpoonup> StoreInfo) \<Rightarrow>
   StoreKey \<times> storeParams \<Rightarrow> ((StoreKey \<times> 'v kvstore) list \<times> StoreKey list \<times> string option) prog" where
  "load_one lib rs up oldKey ver infos kp =
     (let (key, params0) = kp; name = sk_Name key; commitID = getCommitID infos name;
          added = up_IsAdded up name \<or> up_RenamedFrom up name \<noteq> [];
          params = (if added then params0\<lparr>sp_initialVersion := ver + 1\<rparr> else params0)
      in if \<not> added \<and> cid_Version commitID \<noteq> ver \<and> sp_typ params = StoreTypeIAVL
         then Done ([], [], Some ''version of store mismatch root store's version'')
         else bind_prog (loadCommitStoreFromParams lib rs key commitID params) (\<lambda>r. case r of
             Inr e \<Rightarrow> Done ([], [], Some (''failed to load store: '' @ e))
           | Inl store \<Rightarrow>
               if up_IsDeleted up name then
                 bind_prog (deleteKVStore lib store) (\<lambda>store'. Done ([(key, store')], [key], None))
               else if up_RenamedFrom up name \<noteq> [] then
                 (let oldName = up_RenamedFrom up name; ok = oldKey oldName in
                  bind_prog (loadCommitStoreFromParams lib rs ok (getCommitID infos oldName)
                      (newStoreParams ok (sp_db params) (sp_typ params) 0)) (\<lambda>r'. case r' of
                      Inr e \<Rightarrow> Done ([(key, store)], [], Some (''failed to load old store: '' @ e))
                    | Inl oldStore \<Rightarrow>
                        bind_prog (moveKVStoreData lib oldStore store) (\<lambda>(oldStore', store').
                          Done ([(key, store'), (ok, oldStore')], [ok], None))))
               else Done ([(key, store)], [], None)))"

fun load_all ::
  "'v store_lib \<Rightarrow> ('v, 'p) Store \<Rightarrow> upgrades \<Rightarrow> (string \<Rightarrow> StoreKey) \<Rightarrow> int64 \<Rightarrow> (string \<rightharpoonup> StoreInfo) \<Rightarrow>
   (StoreKey \<times> storeParams) list \<Rightarrow> ((StoreKey \<times> 'v kvstore) list \<times> StoreKey list \<times> string option) prog" where
  "load_all lib rs up oldKey ver infos [] = Done ([], [], None)"
| "load_all lib rs up oldKey ver infos (kp # rest) =
     bind_prog (load_one lib rs up oldKey ver infos kp) (\<lambda>(new, removed, err). case err of
         Some e \<Rightarrow> Done (new, removed, Some e)
       | None \<Rightarrow>
           bind_prog (load_all lib rs up oldKey ver infos rest) (\<lambda>(new', removed', err').
             Done (new @ new', removed @ removed', err')))"

text \<open>
  \<open>loadVersion\<close>; \<open>up\<close> is \<^const>\<open>None\<close> for a nil pointer, whose methods say no, and then the order
  of the map stands. On an error the store keeps what it had, except for the marks.
\<close>

definition loadVersion ::
  "'v store_lib \<Rightarrow> 'p pruning \<Rightarrow> (string \<Rightarrow> StoreKey) \<Rightarrow> ('v, 'p) Store \<Rightarrow> int64 \<Rightarrow> upgrades option \<Rightarrow>
   (('v, 'p) Store \<times> string option) prog" where
  "loadVersion lib P oldKey rs ver up =
     bind_prog (if ver = 0 then Done (Inl \<lparr>ci_Version = 0, ci_StoreInfos = []\<rparr>) else getCommitInfo lib ver) (\<lambda>r. case r of
         Inr e \<Rightarrow> Done (rs, Some e)
       | Inl cInfo \<Rightarrow>
           let infos = map_of (rev (map (\<lambda>si. (si_Name si, si)) (ci_StoreInfos cInfo)));
               keys = (case up of None \<Rightarrow> rs_storesParams rs
                 | Some _ \<Rightarrow> sort_key (\<lambda>kp. bytes_of (sk_Name (fst kp))) (rs_storesParams rs))
           in bind_prog (load_all lib rs (case up of None \<Rightarrow> no_upgrades | Some u \<Rightarrow> u) oldKey ver infos keys)
                (\<lambda>(newStores, removed, err).
                  let rs0 = rs\<lparr>rs_removalMap := rs_removalMap rs @ removed\<rparr> in
                  case err of
                    Some e \<Rightarrow> Done (rs0, Some e)
                  | None \<Rightarrow>
                      let rs1 = rs0\<lparr>rs_lastCommitInfo := Some cInfo, rs_stores := newStores\<rparr> in
                      bind_prog (pm_LoadPruningHeights P (rs_pruningManager rs1)) (\<lambda>q. case q of
                          Ok pm \<Rightarrow> Done (rs1\<lparr>rs_pruningManager := pm\<rparr>, None)
                        | Err e \<Rightarrow> Done (rs1, Some e)
                        | Panic p \<Rightarrow> Abort p)))"

definition LoadVersion where
  "LoadVersion lib P oldKey rs ver = loadVersion lib P oldKey rs ver None"

definition LoadLatestVersion where
  "LoadLatestVersion lib P oldKey rs = bind_prog (GetLatestVersion lib) (\<lambda>ver. loadVersion lib P oldKey rs ver None)"

definition LoadLatestVersionAndUpgrade where
  "LoadLatestVersionAndUpgrade lib P oldKey rs up = bind_prog (GetLatestVersion lib) (\<lambda>ver. loadVersion lib P oldKey rs ver up)"

definition LoadVersionAndUpgrade where
  "LoadVersionAndUpgrade lib P oldKey rs ver up = loadVersion lib P oldKey rs ver up"

definition SetInitialVersion :: "'v store_lib \<Rightarrow> ('v, 'p) Store \<Rightarrow> int64 \<Rightarrow> ('v, 'p) Store" where
  "SetInitialVersion lib rs version =
     rs\<lparr>rs_initialVersion := version,
        rs_stores := map (\<lambda>(k, s). (k, case s of
            Iavl v \<Rightarrow> (case GetCommitKVStore rs k of Some (Iavl u) \<Rightarrow> Iavl (lib_SetInitialVersion lib u version) | _ \<Rightarrow> s)
          | _ \<Rightarrow> s)) (rs_stores rs)\<rparr>"

definition buildCommitInfo :: "'v store_lib \<Rightarrow> ('v, 'p) Store \<Rightarrow> int64 \<Rightarrow> CommitInfo" where
  "buildCommitInfo lib rs version =
     \<lparr>ci_Version = version,
      ci_StoreInfos = map (\<lambda>(k, s). \<lparr>si_Name = sk_Name k, si_CommitId = kv_LastCommitID lib s\<rparr>)
        (filter (\<lambda>(k, s). kv_GetStoreType s \<noteq> StoreTypeTransient) (rs_stores rs))\<rparr>"

fun overwrite_all ::
  "'v store_lib \<Rightarrow> ('v, 'p) Store \<Rightarrow> int64 \<Rightarrow> (StoreKey \<times> 'v kvstore) list \<Rightarrow>
   ((StoreKey \<times> 'v kvstore) list \<times> string option) prog" where
  "overwrite_all lib rs target [] = Done ([], None)"
| "overwrite_all lib rs target ((key, store) # rest) =
     (case store of
        Iavl _ \<Rightarrow>
          (case GetCommitKVStore rs key of
             Some (Iavl v) \<Rightarrow>
               bind_prog (lib_LoadForOverwriting lib (rs_lazyLoading rs) v target) (\<lambda>(err, v'). case err of
                   Some e \<Rightarrow> Done ((key, Iavl v') # rest, Some e)
                 | None \<Rightarrow> bind_prog (overwrite_all lib rs target rest) (\<lambda>(rest', e). Done ((key, Iavl v') # rest', e)))
           | _ \<Rightarrow> Abort ''interface conversion'')
      | _ \<Rightarrow> bind_prog (overwrite_all lib rs target rest) (\<lambda>(rest', e). Done ((key, store) # rest', e)))"

definition RollbackToVersion ::
  "'v store_lib \<Rightarrow> 'p pruning \<Rightarrow> (string \<Rightarrow> StoreKey) \<Rightarrow> ('v, 'p) Store \<Rightarrow> int64 \<Rightarrow> (('v, 'p) Store \<times> string option) prog" where
  "RollbackToVersion lib P oldKey rs target =
     (if sint target \<le> 0 then Done (rs, Some ''invalid rollback height target'')
      else bind_prog (overwrite_all lib rs target (rs_stores rs)) (\<lambda>(stores, err).
        let rs1 = rs\<lparr>rs_stores := stores\<rparr> in
        case err of
          Some e \<Rightarrow> Done (rs1, Some e)
        | None \<Rightarrow>
            bind_prog (flushMetadata lib target (Some (buildCommitInfo lib rs1 target))) (\<lambda>_.
              LoadLatestVersion lib P oldKey rs1)))"

subsection \<open>Snapshots\<close>

text \<open>
  \<open>WriteMsg\<close> of the stream: \<open>W n\<close> is the error of the \<open>n\<close>-th message. The stream is the list of
  messages written so far.
\<close>

fun write_msgs :: "(nat \<Rightarrow> string option) \<Rightarrow> snapshot_item list \<Rightarrow> snapshot_item list \<Rightarrow> snapshot_item list \<times> string option" where
  "write_msgs W ms [] = (ms, None)"
| "write_msgs W ms (x # xs) = (case W (length ms) of Some e \<Rightarrow> (ms, Some e) | None \<Rightarrow> write_msgs W (ms @ [x]) xs)"

definition node_item :: "export_node \<Rightarrow> snapshot_item" where
  "node_item node = SnapshotIAVL (en_Key node) (en_Value node) (scast (en_Height node)) (en_Version node)"

text \<open>
  The trees to export; a store of another kind that is not transient or in memory is an error.
\<close>

fun snapshot_stores :: "('v, 'p) Store \<Rightarrow> StoreKey list \<Rightarrow> ((string \<times> 'v) list + string)" where
  "snapshot_stores rs [] = Inl []"
| "snapshot_stores rs (key # keys) =
     (case GetCommitKVStore rs key of
        Some (Iavl v) \<Rightarrow> (case snapshot_stores rs keys of Inl vs \<Rightarrow> Inl ((sk_Name key, v) # vs) | Inr e \<Rightarrow> Inr e)
      | Some (Transient v) \<Rightarrow> snapshot_stores rs keys
      | Some (Mem v) \<Rightarrow> snapshot_stores rs keys
      | _ \<Rightarrow> Inr (''don't know how to snapshot store '' @ sk_Name key))"

fun export_all ::
  "'v store_lib \<Rightarrow> (nat \<Rightarrow> string option) \<Rightarrow> int64 \<Rightarrow> snapshot_item list \<Rightarrow> (string \<times> 'v) list \<Rightarrow>
   (snapshot_item list \<times> string option) prog" where
  "export_all lib W height ms [] = Done (ms, None)"
| "export_all lib W height ms ((name, v) # rest) =
     bind_prog (lib_Export lib v height) (\<lambda>r. case r of
         Err e \<Rightarrow> Done (ms, Some e)
       | Panic p \<Rightarrow> Abort p
       | Ok (nodes, err) \<Rightarrow>
           (case write_msgs W ms (SnapshotStore name # map node_item nodes) of
              (ms', Some e) \<Rightarrow> Done (ms', Some e)
            | (ms', None) \<Rightarrow> (case err of Some e \<Rightarrow> Done (ms', Some e) | None \<Rightarrow> export_all lib W height ms' rest)))"

definition Snapshot ::
  "'v store_lib \<Rightarrow> ('v, 'p) Store \<Rightarrow> (nat \<Rightarrow> string option) \<Rightarrow> uint64 \<Rightarrow> (snapshot_item list \<times> string option) prog" where
  "Snapshot lib rs W height =
     (if height = 0 then Done ([], Some ''cannot snapshot height 0'')
      else bind_prog (LastCommitID lib rs) (\<lambda>last.
        if cid_Version last < height then Done ([], Some ''cannot snapshot future height'')
        else case snapshot_stores rs (map fst (rs_stores rs)) of
            Inr e \<Rightarrow> Done ([], Some e)
          | Inl stores \<Rightarrow> export_all lib W height [] (sort_key (\<lambda>nv. bytes_of (fst nv)) stores)))"

text \<open>
  An importer: the key of its store, the tree and the nodes added so far. Committing it changes
  the tree of the store.
\<close>

record 'v importer =
  im_key :: StoreKey
  im_store :: 'v
  im_nodes :: "export_node list"

definition commit_import ::
  "'v store_lib \<Rightarrow> int64 \<Rightarrow> ('v, 'p) Store \<Rightarrow> 'v importer option \<Rightarrow> (('v, 'p) Store \<times> string option) prog" where
  "commit_import lib height rs imp =
     (case imp of
        None \<Rightarrow> Done (rs, None)
      | Some im \<Rightarrow>
          bind_prog (lib_ImportCommit lib (im_store im) height (im_nodes im)) (\<lambda>r. case r of
              Ok v \<Rightarrow> Done (rs\<lparr>rs_stores := AList.update (im_key im) (Iavl v) (rs_stores rs)\<rparr>, None)
            | Err e \<Rightarrow> Done (rs, Some (''IAVL commit failed: '' @ e))
            | Panic p \<Rightarrow> Abort p))"

text \<open>Keys are never nil, nor are the values of leaves.\<close>

definition import_node :: "bytes option \<Rightarrow> bytes option \<Rightarrow> 32 word \<Rightarrow> int64 \<Rightarrow> export_node" where
  "import_node k v h ver =
     (let h8 = ucast h :: 8 word in
      \<lparr>en_Key = Some (case k of None \<Rightarrow> [] | Some key \<Rightarrow> key),
       en_Value = (if h8 = 0 \<and> v = None then Some [] else v), en_Height = h8, en_Version = ver\<rparr>)"

text \<open>
  The loop of \<open>Restore\<close> over the messages of the stream, each a message or a read error, up to the
  end of the file. It gives the importer that is still open, the last item and an error.
\<close>

fun restore_items ::
  "'v store_lib \<Rightarrow> int64 \<Rightarrow> ('v, 'p) Store \<Rightarrow> 'v importer option \<Rightarrow> (snapshot_item + string) list \<Rightarrow>
   (('v, 'p) Store \<times> 'v importer option \<times> snapshot_item \<times> string option) prog" where
  "restore_items lib height rs imp [] = Done (rs, imp, SnapshotEmpty, None)"
| "restore_items lib height rs imp (Inr e # items) =
     Done (rs, imp, SnapshotEmpty, Some (''invalid protobuf message: '' @ e))"
| "restore_items lib height rs imp (Inl (SnapshotStore name) # items) =
     bind_prog (commit_import lib height rs imp) (\<lambda>(rs1, err). case err of
         Some e \<Rightarrow> Done (rs1, imp, SnapshotEmpty, Some e)
       | None \<Rightarrow>
           (case map_of (rs_keysByName rs1) name of
              None \<Rightarrow> Done (rs1, imp, SnapshotEmpty, Some (''cannot import into non-IAVL store '' @ name))
            | Some key \<Rightarrow>
                (case GetCommitKVStore rs1 key of
                   Some (Iavl v) \<Rightarrow>
                     bind_prog (lib_Import lib v height) (\<lambda>e. case e of
                         Some e \<Rightarrow> Done (rs1, imp, SnapshotEmpty, Some (''import failed: '' @ e))
                       | None \<Rightarrow> restore_items lib height rs1 (Some \<lparr>im_key = key, im_store = v, im_nodes = []\<rparr>) items)
                 | _ \<Rightarrow> Done (rs1, imp, SnapshotEmpty, Some (''cannot import into non-IAVL store '' @ name)))))"
| "restore_items lib height rs imp (Inl (SnapshotIAVL k v h ver) # items) =
     (case imp of
        None \<Rightarrow> Done (rs, imp, SnapshotEmpty, Some ''received IAVL node item before store item'')
      | Some im \<Rightarrow>
          if 127 < sint h then Done (rs, imp, SnapshotEmpty, Some ''node height cannot exceed 127'')
          else
            let node = import_node k v h ver in
            (case lib_ImportAdd lib (im_store im) (im_nodes im) node of
               Some e \<Rightarrow> Done (rs, imp, SnapshotEmpty, Some (''IAVL node import failed: '' @ e))
             | None \<Rightarrow> restore_items lib height rs (Some (im\<lparr>im_nodes := im_nodes im @ [node]\<rparr>)) items))"
| "restore_items lib height rs imp (Inl SnapshotEmpty # items) = Done (rs, imp, SnapshotEmpty, None)"
| "restore_items lib height rs imp (Inl (SnapshotExtension n) # items) = Done (rs, imp, SnapshotExtension n, None)"

definition Restore ::
  "'v store_lib \<Rightarrow> 'p pruning \<Rightarrow> (string \<Rightarrow> StoreKey) \<Rightarrow> ('v, 'p) Store \<Rightarrow> uint64 \<Rightarrow> (snapshot_item + string) list \<Rightarrow>
   (('v, 'p) Store \<times> snapshot_item \<times> string option) prog" where
  "Restore lib P oldKey rs height items =
     bind_prog (restore_items lib height rs None items) (\<lambda>(rs1, imp, item, err). case err of
         Some e \<Rightarrow> Done (rs1, SnapshotEmpty, Some e)
       | None \<Rightarrow>
           bind_prog (commit_import lib height rs1 imp) (\<lambda>(rs2, err'). case err' of
               Some e \<Rightarrow> Done (rs2, SnapshotEmpty, Some e)
             | None \<Rightarrow>
                 bind_prog (flushMetadata lib height (Some (buildCommitInfo lib rs2 height))) (\<lambda>_.
                 bind_prog (LoadLatestVersion lib P oldKey rs2) (\<lambda>(rs3, e). Done (rs3, item, e)))))"

subsection \<open>Options\<close>

definition GetPruning :: "'p pruning \<Rightarrow> ('v, 'p) Store \<Rightarrow> PruningOptions" where
  "GetPruning P rs = pm_GetOptions P (rs_pruningManager rs)"

definition SetPruning :: "'p pruning \<Rightarrow> ('v, 'p) Store \<Rightarrow> PruningOptions \<Rightarrow> ('v, 'p) Store" where
  "SetPruning P rs pruningOpts = rs\<lparr>rs_pruningManager := pm_SetOptions P (rs_pruningManager rs) pruningOpts\<rparr>"

definition SetSnapshotInterval :: "'p pruning \<Rightarrow> ('v, 'p) Store \<Rightarrow> uint64 \<Rightarrow> ('v, 'p) Store" where
  "SetSnapshotInterval P rs snapshotInterval =
     rs\<lparr>rs_pruningManager := pm_SetSnapshotInterval P (rs_pruningManager rs) snapshotInterval\<rparr>"

text \<open>An adapter keeps no options of its own.\<close>

definition adapter_SetPruning :: "bytes \<Rightarrow> PruningOptions \<Rightarrow> bytes" where
  "adapter_SetPruning pfx opts = pfx"

definition adapter_GetPruning :: PruningOptions where
  "adapter_GetPruning = \<lparr>po_KeepRecent = 0, po_Interval = 0, po_Strategy = 0\<rparr>"

definition rs_GetStoreType :: StoreType where
  "rs_GetStoreType = StoreTypeMulti"

definition SetIAVLCacheSize :: "('v, 'p) Store \<Rightarrow> int \<Rightarrow> ('v, 'p) Store" where
  "SetIAVLCacheSize rs cacheSize = rs\<lparr>rs_iavlCacheSize := cacheSize\<rparr>"

definition SetIAVLDisableFastNode :: "('v, 'p) Store \<Rightarrow> bool \<Rightarrow> ('v, 'p) Store" where
  "SetIAVLDisableFastNode rs disableFastNode = rs\<lparr>rs_iavlDisableFastNode := disableFastNode\<rparr>"

definition SetLazyLoading :: "('v, 'p) Store \<Rightarrow> bool \<Rightarrow> ('v, 'p) Store" where
  "SetLazyLoading rs lazyLoading = rs\<lparr>rs_lazyLoading := lazyLoading\<rparr>"

definition SetInterBlockCache :: "('v, 'p) Store \<Rightarrow> (StoreKey \<Rightarrow> 'v kvstore option) option \<Rightarrow> ('v, 'p) Store" where
  "SetInterBlockCache rs c = rs\<lparr>rs_interBlockCache := c\<rparr>"

definition SetTracer :: "('v, 'p) Store \<Rightarrow> nat option \<Rightarrow> ('v, 'p) Store" where
  "SetTracer rs w = rs\<lparr>rs_tracer := w\<rparr>"

text \<open>\<open>Merge\<close> of trace contexts: existing keys are overwritten.\<close>

definition SetTracingContext :: "('v, 'p) Store \<Rightarrow> (string \<times> string) list \<Rightarrow> ('v, 'p) Store" where
  "SetTracingContext rs tc =
     rs\<lparr>rs_traceContext := Some (fold (\<lambda>(k, v). AList.update k v) tc (case rs_traceContext rs of None \<Rightarrow> [] | Some c \<Rightarrow> c))\<rparr>"

definition PruneSnapshotHeight :: "'p pruning \<Rightarrow> ('v, 'p) Store \<Rightarrow> int64 \<Rightarrow> ('v, 'p) Store" where
  "PruneSnapshotHeight P rs height = rs\<lparr>rs_pruningManager := pm_HandleHeightSnapshot P (rs_pruningManager rs) height\<rparr>"

end
