(* ===== verification/Rootmulti_Correct.thy ===== *)
theory Rootmulti_Correct
  imports Rootmulti "HOL-Library.Multiset"
begin

text \<open>
  Correctness of the multi-store: a commit is found again by the next start, its commit
  information does not depend on the order of Go's map iteration, mounted stores do not see each
  other's keys, renaming moves all data, and paths are parsed as they are written.
\<close>

section \<open>Encodings as an interface\<close>

locale commit_codec =
  fixes lib :: "'v store_lib"
  assumes info_total: "\<exists>bz. lib_MarshalInfo lib ci = Ok bz"
    and info_roundtrip: "lib_MarshalInfo lib ci = Ok bz \<Longrightarrow> lib_UnmarshalInfo lib bz = Ok ci"
    and int_total: "\<exists>bz. lib_MarshalInt64 lib v = Ok bz"
    and int_roundtrip: "lib_MarshalInt64 lib v = Ok bz \<Longrightarrow> lib_UnmarshalInt64 lib bz = Ok v"

section \<open>Commit\<close>

lemma bytes_of_append: "bytes_of (s @ t) = bytes_of s @ bytes_of t"
  by (simp add: bytes_of_def)

lemma latest_not_version [simp]: "latestVersionKey \<noteq> commitInfoKey v"
proof
  assume "latestVersionKey = commitInfoKey v"
  then have "Sprintf_d (sint v) = ''latest''"
    by (simp add: latestVersionKey_def commitInfoKey_def)
  then show False
    using dec_digits_Cons [of "nat (sint v)"] by (auto simp: Sprintf_d_def digit_value_def Let_def split: if_splits)
qed

text \<open>The stores of a node: adapters, and transient and memory stores whose commit stays in memory.\<close>

fun in_memory :: "'v store_lib \<Rightarrow> 'v kvstore \<Rightarrow> bool" where
  "in_memory lib (CommitDB db pfx) = True"
| "in_memory lib (Iavl v) = False"
| "in_memory lib (Transient v) = (\<exists>x. lib_Commit lib v = Done x)"
| "in_memory lib (Mem v) = (\<exists>x. lib_Commit lib v = Done x)"

definition stores_in_memory :: "'v store_lib \<Rightarrow> (StoreKey \<times> 'v kvstore) list \<Rightarrow> bool" where
  "stores_in_memory lib stores \<longleftrightarrow> (\<forall>ks \<in> set stores. in_memory lib (snd ks))"

lemma commit_one_done:
  assumes "in_memory lib (snd ks)"
  shows "\<exists>c s'. commit_one lib version removalMap ks = Done
    (if kv_GetStoreType (snd ks) = StoreTypeTransient \<or> fst ks \<in> set removalMap then []
     else [\<lparr>si_Name = sk_Name (fst ks), si_CommitId = c\<rparr>], (fst ks, s')) \<and>
    kv_GetStoreType s' = kv_GetStoreType (snd ks)"
  using assms by (cases ks; cases "snd ks") (auto simp: commit_one_def Let_def split: prod.split)

text \<open>Entries do not depend on the number of a transient or removed store; the committed
  stores keep their keys and types.\<close>

lemma commit_all_done:
  assumes "stores_in_memory lib stores"
  shows "\<exists>sis stores'. commit_all lib version removalMap stores = Done (sis, stores') \<and>
    map (\<lambda>ks. (fst ks, kv_GetStoreType (snd ks))) stores' = map (\<lambda>ks. (fst ks, kv_GetStoreType (snd ks))) stores"
  using assms
proof (induction stores)
  case (Cons ks rest)
  then obtain sis rest' where "commit_all lib version removalMap rest = Done (sis, rest')"
    "map (\<lambda>ks. (fst ks, kv_GetStoreType (snd ks))) rest' = map (\<lambda>ks. (fst ks, kv_GetStoreType (snd ks))) rest"
    by (auto simp: stores_in_memory_def)
  moreover obtain si s' where "commit_one lib version removalMap ks = Done (si, (fst ks, s'))"
    "kv_GetStoreType s' = kv_GetStoreType (snd ks)"
    using commit_one_done [of lib ks version removalMap] Cons.prems by (auto simp: stores_in_memory_def)
  ultimately show ?case by simp
qed simp

text \<open>Nothing of it is an IAVL tree, so pruning touches no store.\<close>

lemma prune_all_done:
  "\<forall>ks \<in> set stores. kv_GetStoreType (snd ks) \<noteq> StoreTypeIAVL \<Longrightarrow> prune_all lib rs heights stores = Done (stores, None)"
  by (induction lib rs heights stores rule: prune_all.induct) auto

definition prunes :: "'p pruning \<Rightarrow> bool" where
  "prunes P \<longleftrightarrow> (\<forall>pm. \<exists>x. pm_GetFlushAndResetPruningHeights P pm = Ok x)"

lemma handlePruning_done:
  assumes "prunes P" and "\<forall>ks \<in> set (rs_stores rs). kv_GetStoreType (snd ks) \<noteq> StoreTypeIAVL"
  shows "\<exists>pm. handlePruning lib P rs version = Done (rs\<lparr>rs_pruningManager := pm\<rparr>, None)"
proof -
  obtain hs pm where "pm_GetFlushAndResetPruningHeights P (pm_HandleHeight P (rs_pruningManager rs) (version - 1)) = Ok (hs, pm)"
    using assms(1) by (metis prunes_def surj_pair)
  then show ?thesis
    using assms(2) by (auto simp: handlePruning_def PruneStores_def Let_def prune_all_done)
qed

lemma in_memory_not_iavl: "in_memory lib s \<Longrightarrow> kv_GetStoreType s \<noteq> StoreTypeIAVL"
  by (cases s) auto

text \<open>The commit comes down to flushing the metadata.\<close>

lemma rs_Commit_flush:
  assumes "stores_in_memory lib (rs_stores rs)" and "prunes P"
  shows "\<exists>info rs'. rs_Commit lib P rs = bind_prog (flushMetadata lib (next_version rs) (Some info))
      (\<lambda>_. Done (\<lparr>cid_Version = next_version rs, cid_Hash = lib_CommitHash lib info\<rparr>, rs')) \<and>
    ci_Version info = next_version rs \<and> rs_lastCommitInfo rs' = Some info"
proof -
  obtain sis stores' where all: "commit_all lib (next_version rs) (rs_removalMap rs) (rs_stores rs) = Done (sis, stores')"
    "map (\<lambda>ks. (fst ks, kv_GetStoreType (snd ks))) stores' = map (\<lambda>ks. (fst ks, kv_GetStoreType (snd ks))) (rs_stores rs)"
    using commit_all_done [OF assms(1)] by blast
  let ?info = "\<lparr>ci_Version = next_version rs, ci_StoreInfos = sort_key (\<lambda>si. bytes_of (si_Name si)) sis\<rparr>"
  let ?rs = "drop_removed (rs\<lparr>rs_lastCommitInfo := Some ?info, rs_stores := stores'\<rparr>)"
  have "kv_GetStoreType (snd ks) \<noteq> StoreTypeIAVL" if "ks \<in> set stores'" for ks
  proof -
    have "(fst ks, kv_GetStoreType (snd ks)) \<in> (\<lambda>ks. (fst ks, kv_GetStoreType (snd ks))) ` set (rs_stores rs)"
      using that arg_cong [OF all(2), of set] by auto
    then show ?thesis
      using assms(1) in_memory_not_iavl by (fastforce simp: stores_in_memory_def)
  qed
  then have "\<forall>ks \<in> set (rs_stores ?rs). kv_GetStoreType (snd ks) \<noteq> StoreTypeIAVL"
    by (auto simp: drop_removed_def Let_def)
  from handlePruning_done [OF assms(2) this, of lib "next_version rs"] obtain pm where
    "handlePruning lib P ?rs (next_version rs) = Done (?rs\<lparr>rs_pruningManager := pm\<rparr>, None)"
    by blast
  then have "rs_Commit lib P rs = bind_prog (flushMetadata lib (next_version rs) (Some ?info))
      (\<lambda>_. Done (\<lparr>cid_Version = next_version rs, cid_Hash = lib_CommitHash lib ?info\<rparr>, ?rs\<lparr>rs_pruningManager := pm\<rparr>))"
    by (simp add: rs_Commit_def commitStores_def all(1) Let_def)
  then show ?thesis
    by (fastforce simp: drop_removed_def Let_def)
qed

section \<open>Start\<close>

text \<open>Mounted stores that are not IAVL trees, with keys of the matching kind.\<close>

fun plain_params :: "StoreKey \<times> storeParams \<Rightarrow> bool" where
  "plain_params (key, params) \<longleftrightarrow> sp_typ params = StoreTypeDB \<or>
     sp_typ params = StoreTypeTransient \<and> sk_kind key = TransientStoreKey \<or>
     sp_typ params = StoreTypeMemory \<and> sk_kind key = MemoryStoreKey"

lemma load_all_plain:
  assumes "\<forall>kp \<in> set kps. plain_params kp"
  shows "\<exists>stores. load_all lib rs no_upgrades oldKey ver infos kps = Done (stores, [], None) \<and>
    map fst stores = map fst kps"
  using assms
proof (induction kps)
  case (Cons kp kps)
  obtain key params where kp: "kp = (key, params)" by (cases kp)
  with Cons.prems obtain store where
    "load_one lib rs no_upgrades oldKey ver infos kp = Done ([(key, store)], [], None)"
    by (auto simp: load_one_def loadCommitStoreFromParams_def no_upgrades_def Let_def)
  with Cons kp show ?case by auto
qed simp

context commit_codec
begin

lemma flushMetadata_spec:
  "\<exists>bi bv. lib_UnmarshalInfo lib bi = Ok info \<and> lib_UnmarshalInt64 lib bv = Ok version \<and>
    spec_prog m (flushMetadata lib version (Some info)) 0 =
      Ok ((), [OpSet (commitInfoKey version) bi, OpSet latestVersionKey bv], 1)"
proof -
  obtain bi bv where "lib_MarshalInfo lib info = Ok bi" "lib_MarshalInt64 lib version = Ok bv"
    using info_total int_total by blast
  then show ?thesis
    using info_roundtrip int_roundtrip
    by (fastforce simp: flushMetadata_def flushCommitInfo_def flushLatestVersion_def must_def)
qed

lemma flushMetadata_ok:
  "latestVersionKey \<in> K \<Longrightarrow> commitInfoKey version \<in> K \<Longrightarrow> prog_ok K it (flushMetadata lib version (Some info))"
  unfolding flushMetadata_def flushCommitInfo_def flushLatestVersion_def must_def
  by (auto intro!: prog_ok_bind split: db_reply.split res.split)

lemma rs_Commit_spec:
  assumes "stores_in_memory lib (rs_stores rs)" and "prunes P"
    and "latestVersionKey \<in> K" and "commitInfoKey (next_version rs) \<in> K"
  shows "\<exists>info rs' bi bv. prog_ok K it (rs_Commit lib P rs) \<and>
    spec_prog m (rs_Commit lib P rs) 0 = Ok ((\<lparr>cid_Version = next_version rs, cid_Hash = lib_CommitHash lib info\<rparr>, rs'),
      [OpSet (commitInfoKey (next_version rs)) bi, OpSet latestVersionKey bv], 1) \<and>
    rs_lastCommitInfo rs' = Some info \<and> ci_Version info = next_version rs \<and>
    lib_UnmarshalInfo lib bi = Ok info \<and> lib_UnmarshalInt64 lib bv = Ok (next_version rs)"
proof -
  obtain info rs' where c: "rs_Commit lib P rs = bind_prog (flushMetadata lib (next_version rs) (Some info))
      (\<lambda>_. Done (\<lparr>cid_Version = next_version rs, cid_Hash = lib_CommitHash lib info\<rparr>, rs'))"
    and i: "ci_Version info = next_version rs" "rs_lastCommitInfo rs' = Some info"
    using rs_Commit_flush [OF assms(1,2)] by blast
  obtain bi bv where "lib_UnmarshalInfo lib bi = Ok info" "lib_UnmarshalInt64 lib bv = Ok (next_version rs)"
    "spec_prog m (flushMetadata lib (next_version rs) (Some info)) 0 =
      Ok ((), [OpSet (commitInfoKey (next_version rs)) bi, OpSet latestVersionKey bv], 1)"
    using flushMetadata_spec by blast
  moreover have "prog_ok K it (rs_Commit lib P rs)"
    unfolding c using assms(3,4) by (intro prog_ok_bind flushMetadata_ok) simp_all
  ultimately show ?thesis
    using i by (auto simp: c spec_bind_prog)
qed

text \<open>Loading the latest version from contents that hold the metadata of a commit.\<close>

lemma LoadLatestVersion_spec:
  assumes "m latestVersionKey = Some bv" and "lib_UnmarshalInt64 lib bv = Ok v" and "v \<noteq> 0"
    and "m (commitInfoKey v) = Some bi" and "lib_UnmarshalInfo lib bi = Ok info"
    and "\<forall>kp \<in> set (rs_storesParams rs). plain_params kp"
    and "pm_LoadPruningHeights P (rs_pruningManager rs) = Done (Ok pm)"
    and "latestVersionKey \<in> K" and "commitInfoKey v \<in> K"
  shows "reads_only K m (LoadLatestVersion lib P oldKey rs) \<and> (\<exists>rs'. spec_prog m (LoadLatestVersion lib P oldKey rs) n = Ok ((rs', None), [], n) \<and>
    rs_lastCommitInfo rs' = Some info \<and> map fst (rs_stores rs') = map fst (rs_storesParams rs))"
proof -
  let ?infos = "map_of (rev (map (\<lambda>si. (si_Name si, si)) (ci_StoreInfos info)))"
  obtain stores where "load_all lib rs no_upgrades oldKey v ?infos (rs_storesParams rs) = Done (stores, [], None)"
    "map fst stores = map fst (rs_storesParams rs)"
    using load_all_plain [OF assms(6)] by blast
  then show ?thesis
    using assms by (simp add: LoadLatestVersion_def GetLatestVersion_def getCommitInfo_def loadVersion_def must_def)
qed

end

section \<open>Properties\<close>

text \<open>
  C5. A committed version is found again: after the block in which the multi-store committed is
  flushed, a node that starts on the same session loads the version and the commit information
  the commit produced, and loads every mounted store.
\<close>

theorem commit_survives_restart:
  assumes "level_session S contents pending" and "key_universe (drv_mode d) K"
    and "node_inv contents d K w" and "commit_codec lib" and "prunes P"
    and "stores_in_memory lib (rs_stores rs)" and "next_version rs \<noteq> 0"
    and "latestVersionKey \<in> K" and "commitInfoKey (next_version rs) \<in> K"
    and "\<forall>kp \<in> set (rs_storesParams rs0). plain_params kp"
    and "pm_LoadPruningHeights P (rs_pruningManager rs0) = Done (Ok pm)"
  shows "\<exists>cid rs' r w' rs1 c. sb_round (node_db S d) level_rollback (rs_Commit lib P rs) w = Returned ((cid, rs'), r, None) w' \<and>
    cid_Version cid = next_version rs \<and> GetVersion (rs_lastCommitInfo rs') = next_version rs \<and>
    run_prog (node_db S d) (LoadLatestVersion lib P oldKey rs0)
      (NewSafeBatchDB (fst (sb_store w'), ApplyHeightLimitedDB debug), []) = Returned (rs1, None) c \<and>
    rs_lastCommitInfo rs1 = rs_lastCommitInfo rs' \<and> map fst (rs_stores rs1) = map fst (rs_storesParams rs0)"
proof -
  let ?m = "node_view contents d w 0"
  obtain info rs' bi bv where ok: "prog_ok K True (rs_Commit lib P rs)"
    and spec: "spec_prog ?m (rs_Commit lib P rs) 0 = Ok ((\<lparr>cid_Version = next_version rs, cid_Hash = lib_CommitHash lib info\<rparr>, rs'),
      [OpSet (commitInfoKey (next_version rs)) bi, OpSet latestVersionKey bv], 1)"
    and info: "rs_lastCommitInfo rs' = Some info" "ci_Version info = next_version rs"
    and codec: "lib_UnmarshalInfo lib bi = Ok info" "lib_UnmarshalInt64 lib bv = Ok (next_version rs)"
    using commit_codec.rs_Commit_spec [OF assms(4,6,5,8,9)] by blast
  from node_round_Ok [OF assms(1-3) ok spec] obtain r w' where
    w': "sb_round (node_db S d) level_rollback (rs_Commit lib P rs) w =
      Returned ((\<lparr>cid_Version = next_version rs, cid_Hash = lib_CommitHash lib info\<rparr>, rs'), r, None) w'"
      "node_inv contents d K w'"
      "node_view contents d w' 0 = apply_ops [OpSet (commitInfoKey (next_version rs)) bi, OpSet latestVersionKey bv] ?m"
    by auto
  let ?c = "(NewSafeBatchDB (fst (sb_store w'), ApplyHeightLimitedDB debug), [])"
  have inv: "reader_inv (driver_ok contents d K) (sb_store (fst ?c))"
    using w'(2) by (auto simp: node_inv_def writer_inv_def reader_inv_def NewSafeBatchDB_def ApplyHeightLimitedDB_def)
  have m: "hld_view (driver_view contents d) (sb_store (fst ?c)) = node_view contents d w' 0"
    by (simp add: NewSafeBatchDB_def hld_view_def node_view_def ApplyHeightLimitedDB_def)
  have "node_view contents d w' 0 latestVersionKey = Some bv"
    "node_view contents d w' 0 (commitInfoKey (next_version rs)) = Some bi"
    by (simp_all add: w'(3) apply_op_def not_sym [OF latest_not_version])
  from commit_codec.LoadLatestVersion_spec [OF assms(4) this(1) codec(2) assms(7) this(2) codec(1) assms(10,11,8,9),
      of oldKey 0] kv_read.run_reads [OF node_reader [OF assms(1,2)] inv, of "LoadLatestVersion lib P oldKey rs0" 0]
  show ?thesis
    using w'(1) info by (auto simp: m [unfolded fst_conv] GetVersion_def)
qed

text \<open>Sample encoding: byte strings with a 1 before every byte and a 0 at the end.\<close>

fun enc_bytes :: "bytes \<Rightarrow> bytes" where
  "enc_bytes [] = [0]"
| "enc_bytes (b # bs) = 1 # b # enc_bytes bs"

fun dec_bytes :: "bytes \<Rightarrow> (bytes \<times> bytes) option" where
  "dec_bytes (x # b # bs) =
     (if x = 0 then Some ([], b # bs) else map_option (\<lambda>(c, r). (b # c, r)) (dec_bytes bs))"
| "dec_bytes [x] = Some ([], [])"
| "dec_bytes [] = None"

lemma dec_enc_bytes [simp]: "dec_bytes (enc_bytes bs @ r) = Some (bs, r)"
proof (induction bs)
  case Nil
  then show ?case by (cases r) auto
qed simp

definition enc_version :: "int64 \<Rightarrow> bytes" where
  "enc_version v = enc_bytes (UintToBigEndian v)"

definition dec_version :: "bytes \<Rightarrow> (int64 \<times> bytes) option" where
  "dec_version bz = Option.bind (dec_bytes bz) (\<lambda>(c, r). case BigEndianToUint c of Ok v \<Rightarrow> Some (v, r) | _ \<Rightarrow> None)"

lemma dec_enc_version [simp]: "dec_version (enc_version v @ r) = Some (v, r)"
  by (simp add: dec_version_def enc_version_def BigEndianToUint_be_nat)

fun enc_infos :: "StoreInfo list \<Rightarrow> bytes" where
  "enc_infos [] = []"
| "enc_infos (si # sis) =
     enc_bytes (bytes_of (si_Name si)) @ enc_version (cid_Version (si_CommitId si)) @
     enc_bytes (cid_Hash (si_CommitId si)) @ enc_infos sis"

fun dec_infos :: "nat \<Rightarrow> bytes \<Rightarrow> StoreInfo list option" where
  "dec_infos n [] = Some []"
| "dec_infos 0 (b # bs) = None"
| "dec_infos (Suc n) (b # bs) =
     Option.bind (dec_bytes (b # bs)) (\<lambda>(name, r). Option.bind (dec_version r) (\<lambda>(v, r'). Option.bind (dec_bytes r') (\<lambda>(hash, r'').
       map_option ((#) \<lparr>si_Name = string_of name, si_CommitId = \<lparr>cid_Version = v, cid_Hash = hash\<rparr>\<rparr>) (dec_infos n r''))))"

lemma enc_bytes_Cons: "\<exists>x xs. enc_bytes bs = x # xs"
  by (cases bs) auto

lemma dec_enc_infos: "length sis \<le> n \<Longrightarrow> dec_infos n (enc_infos sis) = Some sis"
proof (induction sis arbitrary: n)
  case (Cons si sis)
  then obtain m where n: "n = Suc m" "length sis \<le> m" by (cases n) auto
  obtain x xs where "enc_bytes (bytes_of (si_Name si)) = x # xs"
    using enc_bytes_Cons by blast
  then have "enc_infos (si # sis) = x # (xs @ enc_version (cid_Version (si_CommitId si)) @
     enc_bytes (cid_Hash (si_CommitId si)) @ enc_infos sis)"
    and "dec_bytes (x # (xs @ enc_version (cid_Version (si_CommitId si)) @
     enc_bytes (cid_Hash (si_CommitId si)) @ enc_infos sis)) = Some (bytes_of (si_Name si), enc_version (cid_Version (si_CommitId si)) @
     enc_bytes (cid_Hash (si_CommitId si)) @ enc_infos sis)"
    using dec_enc_bytes [of "bytes_of (si_Name si)"] by auto
  with n Cons.IH show ?case by simp
qed simp

lemma length_enc_infos: "length sis \<le> length (enc_infos sis)"
proof (induction sis)
  case (Cons si sis)
  then show ?case using enc_bytes_Cons [of "bytes_of (si_Name si)"] by auto
qed simp

definition some_or :: "string \<Rightarrow> 'a option \<Rightarrow> 'a res" where
  "some_or e x = (case x of Some y \<Rightarrow> Ok y | None \<Rightarrow> Err e)"

definition sample_lib :: "unit store_lib" where
  "sample_lib = \<lparr>lib_Load = (\<lambda>_ _ _ _ _. Done (Ok ())), lib_NewTransient = (), lib_NewMem = (),
     lib_LastCommitID = (\<lambda>_. zero_CommitID), lib_Commit = (\<lambda>_. Done (zero_CommitID, ())),
     lib_Iterate = (\<lambda>_. Done []), lib_Set = (\<lambda>_ _ _. Done ()), lib_Delete = (\<lambda>_ _. Done ()),
     lib_GetImmutable = (\<lambda>_ _. Done (Ok ())), lib_SetInitialVersion = (\<lambda>_ _. ()),
     lib_DeleteVersions = (\<lambda>_ _. Done (None, ())), lib_LoadForOverwriting = (\<lambda>_ _ _. Done (None, ())),
     lib_GetStoreCache = (\<lambda>_ v. v), lib_Query = (\<lambda>_ _. query_error []),
     lib_Export = (\<lambda>_ _. Done (Ok ([], None))), lib_Import = (\<lambda>_ _. Done None), lib_ImportAdd = (\<lambda>_ _ _. None),
     lib_ImportCommit = (\<lambda>_ _ _. Done (Ok ())),
     lib_other_Iterate = (\<lambda>_ _. Done []), lib_other_Set = (\<lambda>_ _ _. Done ()), lib_other_Delete = (\<lambda>_ _. Done ()),
     lib_CommitHash = (\<lambda>ci. enc_infos (ci_StoreInfos ci)), lib_ProofOp = (\<lambda>ci name. \<lparr>po_Type = name, po_Data = []\<rparr>),
     lib_MarshalInfo = (\<lambda>ci. Ok (enc_version (ci_Version ci) @ enc_infos (ci_StoreInfos ci))),
     lib_UnmarshalInfo = (\<lambda>bz. some_or ''proto'' (Option.bind (dec_version bz) (\<lambda>(v, r).
        map_option (\<lambda>sis. \<lparr>ci_Version = v, ci_StoreInfos = sis\<rparr>) (dec_infos (length r) r)))),
     lib_MarshalInt64 = (\<lambda>v. Ok (enc_version v)),
     lib_UnmarshalInt64 = (\<lambda>bz. some_or ''proto'' (map_option fst (dec_version bz)))\<rparr>"

interpretation sample_codec: commit_codec sample_lib
proof
  show "\<exists>bz. lib_MarshalInfo sample_lib ci = Ok bz" for ci
    by (simp add: sample_lib_def)
  show "\<exists>bz. lib_MarshalInt64 sample_lib v = Ok bz" for v
    by (simp add: sample_lib_def)
  show "lib_MarshalInfo sample_lib ci = Ok bz \<Longrightarrow> lib_UnmarshalInfo sample_lib bz = Ok ci" for ci bz
    by (auto simp: sample_lib_def dec_enc_infos length_enc_infos some_or_def)
  show "lib_MarshalInt64 sample_lib v = Ok bz \<Longrightarrow> lib_UnmarshalInt64 sample_lib bz = Ok v" for v bz
    using dec_enc_version [of v "[]"] by (auto simp: sample_lib_def some_or_def)
qed

definition sample_pruning :: "unit pruning" where
  "sample_pruning = \<lparr>pm_GetOptions = (\<lambda>_. adapter_GetPruning), pm_SetOptions = (\<lambda>_ _. ()), pm_SetSnapshotInterval = (\<lambda>_ _. ()),
     pm_HandleHeight = (\<lambda>_ _. ()), pm_ShouldPruneAtHeight = (\<lambda>_ _. True),
     pm_GetFlushAndResetPruningHeights = (\<lambda>_. Ok ([1], ())), pm_LoadPruningHeights = (\<lambda>_. Done (Ok ())),
     pm_HandleHeightSnapshot = (\<lambda>_ _. ())\<rparr>"

definition sample_key :: "string \<Rightarrow> StoreKey" where
  "sample_key name = \<lparr>sk_id = 0, sk_Name = name, sk_kind = KVStoreKey\<rparr>"

definition sample_mounts :: "(unit, unit) Store" where
  "sample_mounts = (NewStore () 0)\<lparr>rs_storesParams :=
     [(sample_key ''bank'', newStoreParams (sample_key ''bank'') None StoreTypeDB 0),
      (sample_key ''acc'', newStoreParams (sample_key ''acc'') None StoreTypeDB 0)],
     rs_keysByName := [(''bank'', sample_key ''bank''), (''acc'', sample_key ''acc'')]\<rparr>"

definition sample_root :: "(unit, unit) Store" where
  "sample_root = sample_mounts\<lparr>rs_stores :=
     [(sample_key ''bank'', CommitDB MainDB (bytes_of ''s/k:bank/'')), (sample_key ''acc'', CommitDB MainDB (bytes_of ''s/k:acc/''))]\<rparr>"

definition metadata_keys :: "bytes set" where
  "metadata_keys = {latestVersionKey, commitInfoKey 1}"

lemma metadata_keys_bytes: "metadata_keys = {[115, 47, 108, 97, 116, 101, 115, 116], [115, 47, 49]}"
  by (simp add: metadata_keys_def latestVersionKey_def commitInfoKey_def bytes_of_def Sprintf_d_def
      dec_digits.simps dec_digit_def)

lemma metadata_keys_universe: "key_universe mode metadata_keys"
  by (auto simp: metadata_keys_bytes key_universe_def separated_def extends_by_edge_def)

lemma metadata_node_inv: "node_inv mem_contents sample_driver metadata_keys sample_node"
  using driver_ok_empty
  by (auto simp: node_inv_def writer_inv_def sample_node_def NewSafeBatchDB_def sample_writer_def SetWriteHeight_def
      ApplyHeightLimitedDB_def valid_height_def intro: exI [of _ 0])

lemma sample_root_next: "next_version sample_root = 1"
  by (simp add: next_version_def sample_root_def sample_mounts_def NewStore_def GetVersion_def)

lemma sample_root_memory: "stores_in_memory sample_lib (rs_stores sample_root)"
  by (simp add: stores_in_memory_def sample_root_def)

lemma sample_prunes: "prunes sample_pruning"
  by (simp add: prunes_def sample_pruning_def)

theorem commit_survives_restart_witness:
  "\<exists>cid rs' r w' rs1 c. sb_round (node_db mem_db sample_driver) level_rollback
      (rs_Commit sample_lib sample_pruning sample_root) sample_node = Returned ((cid, rs'), r, None) w' \<and>
    cid_Version cid = 1 \<and>
    run_prog (node_db mem_db sample_driver) (LoadLatestVersion sample_lib sample_pruning sample_key sample_mounts)
      (NewSafeBatchDB (fst (sb_store w'), ApplyHeightLimitedDB False), []) = Returned (rs1, None) c \<and>
    GetVersion (rs_lastCommitInfo rs1) = 1 \<and>
    map fst (rs_stores rs1) = [sample_key ''bank'', sample_key ''acc'']"
  using commit_survives_restart [OF mem.level_session_axioms metadata_keys_universe metadata_node_inv
      sample_codec.commit_codec_axioms sample_prunes sample_root_memory, of sample_mounts "()" sample_key False]
  by (fastforce simp: sample_root_next metadata_keys_def sample_mounts_def newStoreParams_def sample_pruning_def)

section \<open>Order of iteration\<close>

definition infos_of :: "'v store_lib \<Rightarrow> int64 \<Rightarrow> StoreKey list \<Rightarrow> StoreKey \<times> 'v kvstore \<Rightarrow> StoreInfo list" where
  "infos_of lib version removalMap ks = (case commit_one lib version removalMap ks of Done (si, _) \<Rightarrow> si | _ \<Rightarrow> [])"

lemma commit_one_infos:
  assumes "in_memory lib (snd ks)"
  shows "\<exists>s'. commit_one lib version removalMap ks = Done (infos_of lib version removalMap ks, (fst ks, s'))"
    and "si \<in> set (infos_of lib version removalMap ks) \<Longrightarrow> si_Name si = sk_Name (fst ks)"
    and "length (infos_of lib version removalMap ks) \<le> 1"
  using commit_one_done [OF assms, of version removalMap] by (auto simp: infos_of_def split: if_splits)

lemma commit_all_infos:
  assumes "stores_in_memory lib stores"
  shows "\<exists>stores'. commit_all lib version removalMap stores =
    Done (concat (map (infos_of lib version removalMap) stores), stores')"
  using assms
proof (induction stores)
  case (Cons ks stores)
  then show ?case
    using commit_one_infos(1) [of lib ks version removalMap] by (auto simp: stores_in_memory_def)
qed simp

text \<open>Entries with different names are ordered by their names alone.\<close>

lemma infos_inj:
  assumes "stores_in_memory lib stores" and "distinct (map (\<lambda>ks. sk_Name (fst ks)) stores)"
  shows "inj_on (\<lambda>si. bytes_of (si_Name si)) (set (concat (map (infos_of lib version removalMap) stores)))"
proof (intro inj_onI)
  fix x y
  assume x: "x \<in> set (concat (map (infos_of lib version removalMap) stores))"
    and y: "y \<in> set (concat (map (infos_of lib version removalMap) stores))"
    and eq: "bytes_of (si_Name x) = bytes_of (si_Name y)"
  then obtain kx ky where k: "kx \<in> set stores" "x \<in> set (infos_of lib version removalMap kx)"
    "ky \<in> set stores" "y \<in> set (infos_of lib version removalMap ky)"
    by auto
  moreover from this assms(1) have m: "in_memory lib (snd kx)" "in_memory lib (snd ky)"
    by (auto simp: stores_in_memory_def)
  ultimately have "sk_Name (fst kx) = sk_Name (fst ky)"
    using eq commit_one_infos(2) by (metis bytes_of_inject)
  then have "kx = ky"
    using assms(2) k by (meson distinct_map inj_onD)
  with k commit_one_infos(3) [OF m(1), of version removalMap] show "x = y"
    by (cases "infos_of lib version removalMap kx") auto
qed

text \<open>
  C30. The commit information, and so the application hash, does not depend on the order in which
  Go visits the map of stores.
\<close>

theorem commitStores_order_irrelevant:
  assumes "stores_in_memory lib stores" and "distinct (map (\<lambda>ks. sk_Name (fst ks)) stores)"
    and "mset stores' = mset stores"
  shows "\<exists>info s1 s2. commitStores lib version stores removalMap = Done (info, s1) \<and>
    commitStores lib version stores' removalMap = Done (info, s2) \<and>
    sorted (map (\<lambda>si. bytes_of (si_Name si)) (ci_StoreInfos info))"
proof -
  let ?f = "infos_of lib version removalMap"
  let ?key = "\<lambda>si. bytes_of (si_Name si)"
  have "stores_in_memory lib stores'"
    using assms(1) mset_eq_setD [OF assms(3)] by (simp add: stores_in_memory_def)
  moreover have "mset (concat (map ?f stores)) = mset (concat (map ?f stores'))"
    using assms(3) by (metis mset_concat mset_map sum_mset_sum_list)
  then have "sort_key ?key (concat (map ?f stores)) = sort_key ?key (concat (map ?f stores'))"
    using infos_inj [OF assms(1,2), of version removalMap] by (intro sort_key_inj_key_eq) simp_all
  ultimately show ?thesis
    using commit_all_infos [OF assms(1), of version removalMap] commit_all_infos [of lib stores' version removalMap]
    by (auto simp: commitStores_def)
qed

theorem commitStores_order_irrelevant_witness:
  "\<exists>info s1 s2. commitStores sample_lib 7 (rs_stores sample_root) [] = Done (info, s1) \<and>
    commitStores sample_lib 7 (rev (rs_stores sample_root)) [] = Done (info, s2) \<and>
    sorted (map (\<lambda>si. bytes_of (si_Name si)) (ci_StoreInfos info))"
  using commitStores_order_irrelevant [OF sample_root_memory, of "rev (rs_stores sample_root)" 7 "[]"]
  by (simp add: sample_root_def sample_key_def)

section \<open>Isolation of the mounted stores\<close>

lemma store_prefix_key: "sp_db p = None \<Longrightarrow> store_prefix p @ k = bytes_of (''s/k:'' @ sk_Name (sp_key p) @ ''/'') @ k"
  by (simp add: store_prefix_def)

text \<open>Two runs without a separator, each followed by one, are equal if the lists are.\<close>

lemma upto_separator: "c \<notin> set xs \<Longrightarrow> c \<notin> set ys \<Longrightarrow> xs @ c # r = ys @ c # r' \<Longrightarrow> xs = ys \<and> r = r'"
proof (induction xs arbitrary: ys)
  case Nil
  then show ?case by (cases ys) auto
next
  case (Cons x xs)
  then show ?case by (cases ys) auto
qed

lemma slash_bytes: "47 \<in> set (bytes_of s) \<longleftrightarrow> CHR ''/'' \<in> set s"
proof (induction s)
  case (Cons c s)
  have "47 \<in> set (bytes_of [c]) \<longleftrightarrow> bytes_of [c] = bytes_of ''/''"
    by (auto simp: bytes_of_def)
  with Cons show ?case
    using bytes_of_append [of "[c]" s] by auto
qed (simp add: bytes_of_def)

definition plain_name :: "storeParams \<Rightarrow> bool" where
  "plain_name p \<longleftrightarrow> sp_db p = None \<and> CHR ''/'' \<notin> set (sk_Name (sp_key p))"

lemma store_prefix_bytes:
  "plain_name p \<Longrightarrow> store_prefix p @ k = [115, 47, 107, 58] @ bytes_of (sk_Name (sp_key p)) @ 47 # k"
  by (simp add: store_prefix_def plain_name_def bytes_of_append) (simp add: bytes_of_def)

lemma store_prefix_disjoint:
  assumes "plain_name p" and "plain_name q"
  shows "store_prefix p @ k = store_prefix q @ k' \<longleftrightarrow> sk_Name (sp_key p) = sk_Name (sp_key q) \<and> k = k'"
proof -
  have "bytes_of (sk_Name (sp_key p)) @ 47 # k = bytes_of (sk_Name (sp_key q)) @ 47 # k' \<longleftrightarrow>
      sk_Name (sp_key p) = sk_Name (sp_key q) \<and> k = k'"
    using upto_separator [of 47 "bytes_of (sk_Name (sp_key p))" "bytes_of (sk_Name (sp_key q))" k k'] assms
    by (auto simp: slash_bytes plain_name_def)
  then show ?thesis
    by (simp add: store_prefix_bytes assms)
qed

text \<open>The metadata keys go on with a digit, a minus sign or an \<open>l\<close>, never with a \<open>k\<close>.\<close>

lemma store_prefix_metadata:
  assumes "plain_name p"
  shows "store_prefix p @ k \<noteq> latestVersionKey" and "store_prefix p @ k \<noteq> commitInfoKey v"
proof -
  show "store_prefix p @ k \<noteq> latestVersionKey"
    by (simp add: store_prefix_bytes [OF assms] latestVersionKey_def bytes_of_def)
  show "store_prefix p @ k \<noteq> commitInfoKey v"
  proof
    assume "store_prefix p @ k = commitInfoKey v"
    then obtain bs where "bytes_of (Sprintf_d (sint v)) = bytes_of ''k'' @ bs"
      by (auto simp: store_prefix_bytes [OF assms] commitInfoKey_def bytes_of_append) (auto simp: bytes_of_def)
    then have "Sprintf_d (sint v) = ''k'' @ string_of bs"
      by (metis bytes_of_append bytes_of_inject bytes_of_string_of)
    then show False
      using dec_digits_Cons [of "nat (sint v)"] by (auto simp: Sprintf_d_def digit_value_def Let_def split: if_splits)
  qed
qed

text \<open>
  C31. Isolation: a write to one mounted store changes that key of that store and nothing else:
  not the keys of the other stores and not the metadata of the multi-store.
\<close>

theorem store_writes_isolated:
  assumes "plain_name p" and "k \<noteq> []"
  shows "\<exists>qs. spec_prog m (kv_Set lib (CommitDB MainDB (store_prefix p)) k v) n =
      Ok (CommitDB MainDB (store_prefix p), qs, n) \<and>
    (\<forall>q k'. plain_name q \<longrightarrow> apply_ops qs m (store_prefix q @ k') =
       (if sk_Name (sp_key q) = sk_Name (sp_key p) \<and> k' = k then Some v else m (store_prefix q @ k'))) \<and>
    apply_ops qs m latestVersionKey = m latestVersionKey \<and>
    (\<forall>ver. apply_ops qs m (commitInfoKey ver) = m (commitInfoKey ver))"
  using assms store_prefix_metadata [OF assms(1), THEN not_sym] store_prefix_disjoint [OF _ assms(1)]
  by (simp add: db_write_def apply_op_def)

theorem store_writes_isolated_witness:
  "\<exists>qs. spec_prog Map.empty (kv_Set sample_lib (CommitDB MainDB (bytes_of ''s/k:bank/'')) [1] [2]) 0 =
      Ok (CommitDB MainDB (bytes_of ''s/k:bank/''), qs, 0) \<and>
    apply_ops qs Map.empty (bytes_of ''s/k:bank/'' @ [1]) = Some [2] \<and>
    apply_ops qs Map.empty (bytes_of ''s/k:acc/'' @ [1]) = None"
proof -
  let ?p = "\<lambda>name. newStoreParams (sample_key name) None StoreTypeDB 0"
  have "plain_name (?p ''bank'')" "plain_name (?p ''acc'')"
    and "store_prefix (?p ''bank'') = bytes_of ''s/k:bank/''" "store_prefix (?p ''acc'') = bytes_of ''s/k:acc/''"
    and "sk_Name (sp_key (?p ''bank'')) = ''bank''" "sk_Name (sp_key (?p ''acc'')) = ''acc''"
    by (simp_all add: plain_name_def store_prefix_def newStoreParams_def sample_key_def)
  note samples = this
  obtain qs where "spec_prog Map.empty (kv_Set sample_lib (CommitDB MainDB (bytes_of ''s/k:bank/'')) [1] [2]) 0 =
      Ok (CommitDB MainDB (bytes_of ''s/k:bank/''), qs, 0)"
    and "\<And>q k'. plain_name q \<Longrightarrow> apply_ops qs Map.empty (store_prefix q @ k') =
      (if sk_Name (sp_key q) = ''bank'' \<and> k' = [1] then Some [2] else None)"
    using store_writes_isolated [OF samples(1), of "[1]" Map.empty sample_lib "[2]" 0] unfolding samples by auto
  from this(1) this(2) [OF samples(1), of "[1]"] this(2) [OF samples(2), of "[1]"]
  show ?thesis unfolding samples by auto
qed

section \<open>Branches\<close>

text \<open>A multi-store as the node mounts it: adapters over the root database, memory and transient
  stores, and nothing in the inter-block cache.\<close>

definition node_stores :: "('v, 'p) Store \<Rightarrow> bool" where
  "node_stores rs \<longleftrightarrow> rs_interBlockCache rs = None \<and> distinct (map fst (rs_stores rs)) \<and>
     (\<forall>(k, s) \<in> set (rs_stores rs). case s of Iavl _ \<Rightarrow> False | CommitDB db _ \<Rightarrow> db = MainDB | _ \<Rightarrow> True)"

definition branch_of :: "CommitInfo \<Rightarrow> int64 \<Rightarrow> 'v kvstore \<Rightarrow> 'v branch_store" where
  "branch_of ci version s = (case s of
     CommitDB db pfx \<Rightarrow> if version = ci_Version ci then Same s else AtHeight version pfx | _ \<Rightarrow> Same s)"

lemma branch_all_node:
  assumes "rs_lastCommitInfo rs = Some ci" and "rs_interBlockCache rs = None"
    and "\<forall>(k, s) \<in> set stores. map_of (rs_stores rs) k = Some s \<and> kv_GetStoreType s \<noteq> StoreTypeIAVL"
  shows "branch_all lib rs version stores = Done (Inl (map (\<lambda>(k, s). (k, branch_of ci version s)) stores))"
  using assms
proof (induction stores)
  case (Cons ks stores)
  then show ?case
    by (cases ks; cases "snd ks")
      (auto simp: branch_of_def GetCommitKVStore_def BranchStoreWithHeightLimitedDB_def Let_def)
qed simp

lemma CacheMultiStoreWithVersion_node:
  assumes "rs_lastCommitInfo rs = Some ci" and "node_stores rs"
  shows "CacheMultiStoreWithVersion lib rs version =
    Done (Inl (map (\<lambda>(k, s). (k, branch_of ci version s)) (rs_stores rs)))"
  unfolding CacheMultiStoreWithVersion_def
proof (rule branch_all_node [OF assms(1)])
  show "rs_interBlockCache rs = None"
    using assms(2) by (simp add: node_stores_def)
  have "kv_GetStoreType s \<noteq> StoreTypeIAVL" if "(k, s) \<in> set (rs_stores rs)" for k s
    using assms(2) that by (cases s) (auto simp: node_stores_def)
  then show "\<forall>(k, s) \<in> set (rs_stores rs). map_of (rs_stores rs) k = Some s \<and> kv_GetStoreType s \<noteq> StoreTypeIAVL"
    using assms(2) by (auto simp: node_stores_def)
qed

lemma adapter_Get_view:
  assumes "level_session S contents pending" and "key_universe (drv_mode d) K"
    and "reader_inv (driver_ok contents d K) hw" and "pfx @ key \<in> K" and "key \<noteq> []"
  shows "adapter_Get (driver_db S d) hw pfx key = Ok (hld_view (driver_view contents d) hw (pfx @ key))"
  using kv_point.get_contents [OF kv_read.axioms(1) [OF node_reader [OF assms(1,2)]] assms(3,4)] assms(5)
  by (simp add: adapter_Get_def node_db_def hld_db_def)

lemma branch_Get_view:
  assumes "level_session S contents pending" and "key_universe (drv_mode d) K"
    and "node_inv contents d K w" and "valid_height version" and "pfx @ key \<in> K" and "key \<noteq> []"
  shows "branch_Get (driver_db S d) (sb_store w) (branch_of ci version (CommitDB MainDB pfx)) key =
    Some (Ok (node_view contents d w (if version = ci_Version ci then 0 else version) (pfx @ key)))"
proof -
  have "reader_inv (driver_ok contents d K) (sb_store w)"
    and "reader_inv (driver_ok contents d K) (fst (sb_store w), BranchHeightLimitedDB (snd (sb_store w)) version)"
    using assms(3,4) by (auto simp: node_inv_def writer_inv_def reader_inv_def BranchHeightLimitedDB_def SetReadHeight_def)
  note reads = this [THEN adapter_Get_view [OF assms(1,2) _ assms(5,6)]]
  show ?thesis
    using reads node_contents [OF assms(3)]
    by (simp add: branch_of_def hld_view_def node_view_def BranchHeightLimitedDB_def SetReadHeight_def)
qed

text \<open>
  C6. Historical queries: the branch of the multi-store at a version can be made, has a store for
  every mounted one, and reads of its stores give the state at that height, the current state
  for the last version, under the store's own prefix. For a past version the answer stays the
  same when later blocks are committed.
\<close>

theorem historical_branch:
  assumes "level_session S contents pending" and "key_universe (drv_mode d) K"
    and "node_inv contents d K w" and "prog_ok K True g"
    and "rs_lastCommitInfo rs = Some ci" and "node_stores (rs :: ('v, 'p) Store)" and "valid_height version"
  shows "\<exists>bs. CacheMultiStoreWithVersion lib rs version = Done (Inl bs) \<and> map fst bs = map fst (rs_stores rs) \<and>
    (\<forall>k pfx key. map_of (rs_stores rs) k = Some (CommitDB MainDB pfx) \<longrightarrow> pfx @ key \<in> K \<longrightarrow> key \<noteq> [] \<longrightarrow>
      (\<exists>b. map_of bs k = Some b \<and> branch_Get (driver_db S d) (sb_store w) b key =
         Some (Ok (node_view contents d w (if version = ci_Version ci then 0 else version) (pfx @ key))) \<and>
       (\<forall>x r e w'. sb_round (node_db S d) level_rollback g w = Returned (x, r, e) w' \<longrightarrow>
          version \<noteq> ci_Version ci \<longrightarrow> version \<noteq> 0 \<longrightarrow> unat version < unat (hl_writeHeight (snd (sb_store w))) \<longrightarrow>
          branch_Get (driver_db S d) (sb_store w') b key = branch_Get (driver_db S d) (sb_store w) b key)))"
proof (intro exI conjI allI impI)
  let ?bs = "map (\<lambda>(k, s). (k, branch_of ci version s)) (rs_stores rs)"
  show "CacheMultiStoreWithVersion lib rs version = Done (Inl ?bs)"
    by (rule CacheMultiStoreWithVersion_node [OF assms(5,6)])
  show "map fst ?bs = map fst (rs_stores rs)"
    by (simp add: case_prod_beta')
  fix k pfx key
  assume k: "map_of (rs_stores rs) k = Some (CommitDB MainDB pfx)" "pfx @ key \<in> K" "key \<noteq> []"
  let ?b = "branch_of ci version (CommitDB MainDB pfx :: 'v kvstore)"
  show "map_of ?bs k = Some ?b"
    using k(1) by (simp add: map_of_map)
  note get = branch_Get_view [OF assms(1,2) _ assms(7) k(2,3)]
  show "branch_Get (driver_db S d) (sb_store w) ?b key =
      Some (Ok (node_view contents d w (if version = ci_Version ci then 0 else version) (pfx @ key)))"
    by (rule get [OF assms(3)])
  fix x r e w'
  assume round: "sb_round (node_db S d) level_rollback g w = Returned (x, r, e) w'"
    and v: "version \<noteq> ci_Version ci" "version \<noteq> 0" "unat version < unat (hl_writeHeight (snd (sb_store w)))"
  obtain x' qs n where spec: "spec_prog (node_view contents d w 0) g 0 = Ok (x', qs, n)" and inv: "node_inv contents d K w'"
    using node_round_cases [OF assms(1-4)] round by (fastforce split: res.splits)
  with node_round_view [OF assms(1-4) round spec, of version] v
  show "branch_Get (driver_db S d) (sb_store w') ?b key = branch_Get (driver_db S d) (sb_store w) ?b key"
    by (simp add: get [OF inv] get [OF assms(3)])
qed

text \<open>Sample: the state after one block that wrote a balance, and a branch below and at the block.\<close>

definition balance_key :: bytes where
  "balance_key = bytes_of ''s/k:bank/'' @ [1]"

definition balance_client :: "unit prog" where
  "balance_client = bind_prog (kv_Set sample_lib (CommitDB MainDB (bytes_of ''s/k:bank/'')) [1] [9]) (\<lambda>_. Done ())"

lemma balance_keys_universe: "key_universe mode {balance_key}"
  by (auto simp: key_universe_def separated_def extends_by_edge_def balance_key_def)

theorem historical_branch_witness:
  "\<exists>bs b. CacheMultiStoreWithVersion sample_lib (sample_root\<lparr>rs_lastCommitInfo := Some \<lparr>ci_Version = 5, ci_StoreInfos = []\<rparr>\<rparr>) 3 =
      Done (Inl bs) \<and> map_of bs (sample_key ''bank'') = Some b \<and>
    (\<forall>x r e w'. sb_round (node_db mem_db sample_driver) level_rollback balance_client sample_node = Returned (x, r, e) w' \<longrightarrow>
      branch_Get (driver_db mem_db sample_driver) (sb_store w') b [1] = Some (Ok None))"
proof -
  let ?rs = "sample_root\<lparr>rs_lastCommitInfo := Some \<lparr>ci_Version = 5, ci_StoreInfos = []\<rparr>\<rparr>"
  have inv: "node_inv mem_contents sample_driver {balance_key} sample_node"
    using driver_ok_empty
    by (auto simp: node_inv_def writer_inv_def sample_node_def NewSafeBatchDB_def sample_writer_def SetWriteHeight_def
        ApplyHeightLimitedDB_def valid_height_def intro: exI [of _ 0])
  have g: "prog_ok {balance_key} True balance_client"
    by (simp add: balance_client_def db_write_def balance_key_def split: db_reply.split)
  have rs: "rs_lastCommitInfo ?rs = Some \<lparr>ci_Version = 5, ci_StoreInfos = []\<rparr>" "node_stores ?rs"
    by (simp_all add: node_stores_def sample_root_def sample_mounts_def NewStore_def sample_key_def)
  have h: "valid_height 3" "hl_writeHeight (snd (sb_store sample_node)) = 5"
    by (simp_all add: valid_height_def sample_node_def NewSafeBatchDB_def sample_writer_def SetWriteHeight_def)
  have k: "map_of (rs_stores ?rs) (sample_key ''bank'') = Some (CommitDB MainDB (bytes_of ''s/k:bank/''))"
    "bytes_of ''s/k:bank/'' @ [1] \<in> {balance_key}"
    by (simp_all add: sample_root_def balance_key_def)
  show ?thesis
    using historical_branch [OF mem.level_session_axioms balance_keys_universe inv g rs h(1), of sample_lib] k
    by (fastforce simp: h(2) sample_node_view)
qed

section \<open>Upgrades\<close>

lemma prefix_end_None: "prefix_end p = None \<Longrightarrow> p \<le> k \<longleftrightarrow> (\<exists>r. k = p @ r)"
proof (induction p arbitrary: k)
  case (Cons b p)
  then have b: "b = 255" "prefix_end p = None" by (auto split: option.splits if_splits)
  have "\<not> (255 :: byte) < c" for c by uint_arith auto
  with Cons.IH [OF b(2)] b(1) show ?case by (cases k) auto
qed simp

lemma prefix_end_Some: "prefix_end p = Some e \<Longrightarrow> p \<le> k \<and> k < e \<longleftrightarrow> (\<exists>r. k = p @ r)"
proof (induction p arbitrary: k e)
  case (Cons b p)
  show ?case
  proof (cases "prefix_end p")
    case None
    with Cons.prems have e: "e = [b + 1]" "b \<noteq> 255" by (auto split: if_splits)
    have "c < b + 1 \<longleftrightarrow> c \<le> b" for c using e(2) by uint_arith auto
    with prefix_end_None [OF None] e(1) show ?thesis by (cases k) (auto simp: not_less order_le_less)
  next
    case (Some e')
    with Cons.prems have "e = b # e'" by simp
    with Cons.IH [OF Some] show ?thesis by (cases k) auto
  qed
qed simp

lemma prefix_range: "in_range (Some p) (prefix_end p) k \<longleftrightarrow> (\<exists>r. k = p @ r)"
  using prefix_end_None [of p k] prefix_end_Some [of p _ k] by (cases "prefix_end p") (auto simp: in_range_def)

definition store_entries :: "(bytes \<rightharpoonup> bytes) \<Rightarrow> bytes \<Rightarrow> entries" where
  "store_entries m pfx = map (\<lambda>(k, v). (drop (length pfx) k, v))
     (filter (\<lambda>(k, v). k \<noteq> pfx) (range_entries m (Some pfx) (prefix_end pfx)))"

lemma kv_Iterate_spec: "spec_prog m (kv_Iterate lib (CommitDB MainDB pfx)) n = Ok (store_entries m pfx, [], n)"
  by (simp add: store_entries_def)

lemma set_store_entries:
  "finite (dom m) \<Longrightarrow> (k, v) \<in> set (store_entries m pfx) \<longleftrightarrow> k \<noteq> [] \<and> m (pfx @ k) = Some v"
  unfolding store_entries_def set_map set_filter image_iff
  by (force simp: in_set_range_entries prefix_range)

lemma delete_keys_spec:
  assumes "[] \<notin> set ks"
  shows "spec_prog m (delete_keys lib (CommitDB MainDB pfx) ks) n =
    Ok (CommitDB MainDB pfx, map (\<lambda>k. OpDelete (pfx @ k)) ks, n)"
  using assms by (induction ks) (auto simp: spec_bind_prog db_write_def)

lemma set_entries_spec:
  assumes "[] \<notin> fst ` set es"
  shows "spec_prog m (set_entries lib (CommitDB MainDB pfx) es) n =
    Ok (CommitDB MainDB pfx, map (\<lambda>(k, v). OpSet (pfx @ k) v) es, n)"
  using assms by (induction es) (auto simp: spec_bind_prog db_write_def)

lemma apply_deletes:
  "apply_ops (map OpDelete xs) m x = (if x \<in> set xs then None else m x)"
  by (induction xs arbitrary: m) (auto simp: apply_op_def)

lemma apply_op_sets:
  assumes "\<And>k v. (k, v) \<in> set es \<Longrightarrow> g k = Some v"
  shows "apply_ops (map (\<lambda>(k, v). OpSet k v) es) m x = (if x \<in> fst ` set es then g x else m x)"
  using assms
proof (induction es arbitrary: m)
  case (Cons e es)
  then show ?case by (cases e) (force simp: apply_op_def)
qed simp

text \<open>
  C32. Renaming a store at an upgrade moves its data: afterwards every key of the old store is
  found under the new name, the old store is empty, and no other key has changed.
\<close>

theorem rename_moves_store:
  assumes "plain_name old" and "plain_name new" and "sk_Name (sp_key old) \<noteq> sk_Name (sp_key new)" and "finite (dom m)"
  shows "\<exists>r qs. spec_prog m (moveKVStoreData lib (CommitDB MainDB (store_prefix old)) (CommitDB MainDB (store_prefix new))) n =
      Ok (r, qs, n) \<and>
    (\<forall>k. apply_ops qs m (store_prefix new @ k) =
      (if k \<noteq> [] \<and> m (store_prefix old @ k) \<noteq> None then m (store_prefix old @ k) else m (store_prefix new @ k))) \<and>
    (\<forall>k. k \<noteq> [] \<longrightarrow> apply_ops qs m (store_prefix old @ k) = None) \<and>
    (\<forall>x. (\<nexists>k. x = store_prefix old @ k \<or> x = store_prefix new @ k) \<longrightarrow> apply_ops qs m x = m x)"
proof -
  let ?old = "store_prefix old" and ?new = "store_prefix new"
  define es where "es = store_entries m ?old"
  have es: "(k, v) \<in> set es \<longleftrightarrow> k \<noteq> [] \<and> m (?old @ k) = Some v" for k v
    using set_store_entries [OF assms(4)] by (simp add: es_def)
  then have ne: "[] \<notin> fst ` set es" "[] \<notin> set (map fst es)" by auto
  let ?sets = "map (\<lambda>(k, v). (?new @ k, v)) es"
  let ?qs = "map (\<lambda>(k, v). OpSet k v) ?sets @ map OpDelete (map (\<lambda>k. ?old @ k) (map fst es))"
  have spec: "spec_prog m (moveKVStoreData lib (CommitDB MainDB ?old) (CommitDB MainDB ?new)) n =
      Ok ((CommitDB MainDB ?old, CommitDB MainDB ?new), ?qs, n)"
    using set_entries_spec [OF ne(1), of m lib ?new n] delete_keys_spec [OF ne(2), of m lib ?old n]
    by (simp add: moveKVStoreData_def deleteKVStore_def spec_bind_prog kv_Iterate_spec comp_def case_prod_beta'
        del: kv_Iterate.simps flip: es_def)
  have sets: "apply_ops (map (\<lambda>(k, v). OpSet k v) ?sets) m x =
      (if x \<in> fst ` set ?sets then m (?old @ drop (length ?new) x) else m x)" for x
    by (rule apply_op_sets) (auto simp: es)
  have olds: "x \<in> set (map (\<lambda>k. ?old @ k) (map fst es)) \<longleftrightarrow> (\<exists>k. k \<in> fst ` set es \<and> x = ?old @ k)" for x
    by auto
  have news: "x \<in> fst ` set ?sets \<longleftrightarrow> (\<exists>k. k \<in> fst ` set es \<and> x = ?new @ k)" for x
    by (auto simp: image_iff case_prod_beta')
  have after: "apply_ops ?qs m x = (if \<exists>k. k \<in> fst ` set es \<and> x = ?old @ k then None
      else if \<exists>k. k \<in> fst ` set es \<and> x = ?new @ k then m (?old @ drop (length ?new) x) else m x)" for x
    unfolding apply_ops_append apply_deletes sets olds news ..
  have keys: "k \<in> fst ` set es \<longleftrightarrow> k \<noteq> [] \<and> m (?old @ k) \<noteq> None" for k
  proof -
    have "k \<in> fst ` set es \<longleftrightarrow> (\<exists>v. (k, v) \<in> set es)" by force
    then show ?thesis by (auto simp: es)
  qed
  have disj: "?new @ k \<noteq> ?old @ k'" for k k'
    using store_prefix_disjoint [OF assms(2,1)] assms(3) by simp
  show ?thesis
  proof (intro exI conjI allI impI)
    show "spec_prog m (moveKVStoreData lib (CommitDB MainDB ?old) (CommitDB MainDB ?new)) n =
      Ok ((CommitDB MainDB ?old, CommitDB MainDB ?new), ?qs, n)" by (rule spec)
    show "apply_ops ?qs m (?new @ k) = (if k \<noteq> [] \<and> m (?old @ k) \<noteq> None then m (?old @ k) else m (?new @ k))" for k
      unfolding after keys by (simp add: disj)
    show "apply_ops ?qs m (?old @ k) = None" if "k \<noteq> []" for k
      unfolding after keys using that disj [THEN not_sym] by simp
    show "apply_ops ?qs m x = m x" if "\<nexists>k. x = ?old @ k \<or> x = ?new @ k" for x
      unfolding after using that by auto
  qed
qed

text \<open>Sample: a store ''coins'' with one key becomes the store ''bank''.\<close>

definition sample_params :: "string \<Rightarrow> storeParams" where
  "sample_params name = newStoreParams (sample_key name) None StoreTypeDB 0"

theorem rename_moves_store_witness:
  "\<exists>r qs. spec_prog [bytes_of ''s/k:coins/'' @ [1] \<mapsto> [7]] (moveKVStoreData sample_lib
      (CommitDB MainDB (bytes_of ''s/k:coins/'')) (CommitDB MainDB (bytes_of ''s/k:bank/''))) 0 = Ok (r, qs, 0) \<and>
    apply_ops qs [bytes_of ''s/k:coins/'' @ [1] \<mapsto> [7]] (bytes_of ''s/k:bank/'' @ [1]) = Some [7] \<and>
    apply_ops qs [bytes_of ''s/k:coins/'' @ [1] \<mapsto> [7]] (bytes_of ''s/k:coins/'' @ [1]) = None"
proof -
  have p: "plain_name (sample_params ''coins'')" "plain_name (sample_params ''bank'')"
    "sk_Name (sp_key (sample_params ''coins'')) \<noteq> sk_Name (sp_key (sample_params ''bank''))"
    and pre: "store_prefix (sample_params ''coins'') = bytes_of ''s/k:coins/''"
      "store_prefix (sample_params ''bank'') = bytes_of ''s/k:bank/''"
    by (simp_all add: sample_params_def plain_name_def store_prefix_def newStoreParams_def sample_key_def)
  obtain r qs where "spec_prog [bytes_of ''s/k:coins/'' @ [1] \<mapsto> [7]] (moveKVStoreData sample_lib
      (CommitDB MainDB (bytes_of ''s/k:coins/'')) (CommitDB MainDB (bytes_of ''s/k:bank/''))) 0 = Ok (r, qs, 0)"
    and "\<forall>k. apply_ops qs [bytes_of ''s/k:coins/'' @ [1] \<mapsto> [7]] (bytes_of ''s/k:bank/'' @ k) =
      (if k \<noteq> [] \<and> ([bytes_of ''s/k:coins/'' @ [1] \<mapsto> [7]]) (bytes_of ''s/k:coins/'' @ k) \<noteq> None
       then ([bytes_of ''s/k:coins/'' @ [1] \<mapsto> [7]]) (bytes_of ''s/k:coins/'' @ k)
       else ([bytes_of ''s/k:coins/'' @ [1] \<mapsto> [7]]) (bytes_of ''s/k:bank/'' @ k))"
    and "\<forall>k. k \<noteq> [] \<longrightarrow> apply_ops qs [bytes_of ''s/k:coins/'' @ [1] \<mapsto> [7]] (bytes_of ''s/k:coins/'' @ k) = None"
    using rename_moves_store [OF p, of "[bytes_of ''s/k:coins/'' @ [1] \<mapsto> [7]]" sample_lib 0, unfolded pre] by auto
  then show ?thesis by force
qed

section \<open>Queries\<close>

lemma parsePath_slash:
  assumes "CHR ''/'' \<notin> set storeName"
  shows "parsePath (''/'' @ storeName @ ''/'' @ subpath) = Ok (storeName, ''/'' @ subpath)"
proof -
  have "takeWhile (\<lambda>c. c \<noteq> CHR ''/'') storeName = storeName" "dropWhile (\<lambda>c. c \<noteq> CHR ''/'') storeName = []"
    using assms by (auto simp: takeWhile_eq_all_conv)
  then show ?thesis
    by (simp add: parsePath_def takeWhile_append dropWhile_append takeWhile_eq_all_conv)
qed

lemma node_stores_not_iavl: "node_stores rs \<Longrightarrow> GetStoreByName rs name \<noteq> Some (Iavl v)"
  by (auto simp: node_stores_def GetStoreByName_def GetCommitKVStore_def split: option.splits dest!: map_of_SomeD)

text \<open>
  C34. On the stores of the node a direct query for a store is always answered by an error value,
  without touching the database: the adapters are not queryable.
\<close>

theorem node_store_queries_fail:
  assumes "node_stores rs" and "CHR ''/'' \<notin> set storeName" and "rqy_Path req = ''/'' @ storeName @ ''/'' @ subpath"
  shows "rs_Query lib rs req = Done (query_error (if GetStoreByName rs storeName = None
    then ''no such store: '' @ storeName else ''store '' @ storeName @ '' doesn't support queries''))"
  using node_stores_not_iavl [OF assms(1), of storeName] parsePath_slash [OF assms(2), of subpath] assms(3)
  by (auto simp: rs_Query_def split: option.split kvstore.split)

theorem node_store_queries_fail_witness:
  "rs_Query sample_lib sample_root \<lparr>rqy_Data = [1], rqy_Path = ''/bank/key'', rqy_Height = 3, rqy_Prove = True\<rparr> =
    Done (query_error ''store bank doesn't support queries'')"
proof -
  have "node_stores sample_root"
    by (simp add: node_stores_def sample_root_def sample_mounts_def NewStore_def sample_key_def)
  from node_store_queries_fail [OF this, of "''bank''"
      "\<lparr>rqy_Data = [1], rqy_Path = ''/bank/key'', rqy_Height = 3, rqy_Prove = True\<rparr>" "''key''" sample_lib]
  show ?thesis
    by (simp add: GetStoreByName_def GetCommitKVStore_def sample_root_def sample_mounts_def NewStore_def)
qed

end
