(* ===== verification/Local_Client.thy ===== *)
theory Local_Client
  imports Tm_Types Safe_Batch
begin

text \<open>
  \<open>src/mantlemint/client.go\<close>, \<open>src/mantlemint/appcreator.go\<close> and \<open>src/rpc/client.go\<close>: the ABCI
  client that calls the application in the process, under a lock that lets queries pass, and the
  RPC client in front of it. Every method is the list of steps it makes; calls from several
  goroutines interleave step by step. The application is a parameter and may panic.
\<close>

section \<open>The application and the lock\<close>

datatype abci_method =
    Info | SetOption | DeliverTx | CheckTx | Query | Commit | InitChain | BeginBlock | EndBlock
  | ListSnapshots | OfferSnapshot | LoadSnapshotChunk | ApplySnapshotChunk

text \<open>
  Steps of a method: taking and giving back the lock, a call of the application, the client's
  callback, setting it, and a response that needs no application. \<open>'q\<close> and \<open>'r\<close> are requests and
  responses. The unlocking steps are deferred calls.
\<close>

datatype ('q, 'r) step =
    MtxLock | MtxUnlock | MtxRLock | MtxRUnlock
  | AppCall abci_method 'q
  | RunCallback 'q
  | SetCallback bool
  | Respond "'r option"

type_synonym ('q, 'r) call = "('q, 'r) step list"

definition locked :: "('q, 'r) call \<Rightarrow> ('q, 'r) call" where
  "locked body = MtxLock # body @ [MtxUnlock]"

definition rlocked :: "('q, 'r) call \<Rightarrow> ('q, 'r) call" where
  "rlocked body = MtxRLock # body @ [MtxRUnlock]"

section \<open>Methods\<close>

definition SetResponseCallback :: "bool \<Rightarrow> ('q, 'r) call" where
  "SetResponseCallback cb = locked [SetCallback cb]"

definition FlushAsync :: "('q, 'r) call" where
  "FlushAsync = [Respond None]"

definition FlushSync :: "('q, 'r) call" where
  "FlushSync = []"

text \<open>Echo does not call the application; its asynchronous form runs the callback all the same.\<close>

definition EchoAsync :: "('q \<Rightarrow> 'r) \<Rightarrow> 'q \<Rightarrow> ('q, 'r) call" where
  "EchoAsync ToResponseEcho req = locked [Respond (Some (ToResponseEcho req)), RunCallback req]"

definition EchoSync :: "('q \<Rightarrow> 'r) \<Rightarrow> 'q \<Rightarrow> ('q, 'r) call" where
  "EchoSync ToResponseEcho req = [Respond (Some (ToResponseEcho req))]"

definition InfoAsync :: "'q \<Rightarrow> ('q, 'r) call" where
  "InfoAsync req = rlocked [AppCall Info req, RunCallback req]"

definition SetOptionAsync :: "'q \<Rightarrow> ('q, 'r) call" where
  "SetOptionAsync req = locked [AppCall SetOption req, RunCallback req]"

definition DeliverTxAsync :: "'q \<Rightarrow> ('q, 'r) call" where
  "DeliverTxAsync req = locked [AppCall DeliverTx req, RunCallback req]"

definition CheckTxAsync :: "'q \<Rightarrow> ('q, 'r) call" where
  "CheckTxAsync req = locked [AppCall CheckTx req, RunCallback req]"

definition QueryAsync :: "'q \<Rightarrow> ('q, 'r) call" where
  "QueryAsync req = [AppCall Query req, RunCallback req]"

definition CommitAsync :: "'q \<Rightarrow> ('q, 'r) call" where
  "CommitAsync req = locked [AppCall Commit req, RunCallback req]"

definition InitChainAsync :: "'q \<Rightarrow> ('q, 'r) call" where
  "InitChainAsync req = locked [AppCall InitChain req, RunCallback req]"

definition BeginBlockAsync :: "'q \<Rightarrow> ('q, 'r) call" where
  "BeginBlockAsync req = locked [AppCall BeginBlock req, RunCallback req]"

definition EndBlockAsync :: "'q \<Rightarrow> ('q, 'r) call" where
  "EndBlockAsync req = locked [AppCall EndBlock req, RunCallback req]"

definition ListSnapshotsAsync :: "'q \<Rightarrow> ('q, 'r) call" where
  "ListSnapshotsAsync req = locked [AppCall ListSnapshots req, RunCallback req]"

definition OfferSnapshotAsync :: "'q \<Rightarrow> ('q, 'r) call" where
  "OfferSnapshotAsync req = locked [AppCall OfferSnapshot req, RunCallback req]"

definition LoadSnapshotChunkAsync :: "'q \<Rightarrow> ('q, 'r) call" where
  "LoadSnapshotChunkAsync req = locked [AppCall LoadSnapshotChunk req, RunCallback req]"

definition ApplySnapshotChunkAsync :: "'q \<Rightarrow> ('q, 'r) call" where
  "ApplySnapshotChunkAsync req = locked [AppCall ApplySnapshotChunk req, RunCallback req]"

definition InfoSync :: "'q \<Rightarrow> ('q, 'r) call" where
  "InfoSync req = rlocked [AppCall Info req]"

definition SetOptionSync :: "'q \<Rightarrow> ('q, 'r) call" where
  "SetOptionSync req = locked [AppCall SetOption req]"

definition DeliverTxSync :: "'q \<Rightarrow> ('q, 'r) call" where
  "DeliverTxSync req = locked [AppCall DeliverTx req]"

definition CheckTxSync :: "'q \<Rightarrow> ('q, 'r) call" where
  "CheckTxSync req = locked [AppCall CheckTx req]"

definition QuerySync :: "'q \<Rightarrow> ('q, 'r) call" where
  "QuerySync req = [AppCall Query req]"

definition CommitSync :: "'q \<Rightarrow> ('q, 'r) call" where
  "CommitSync req = locked [AppCall Commit req]"

definition InitChainSync :: "'q \<Rightarrow> ('q, 'r) call" where
  "InitChainSync req = locked [AppCall InitChain req]"

definition BeginBlockSync :: "'q \<Rightarrow> ('q, 'r) call" where
  "BeginBlockSync req = locked [AppCall BeginBlock req]"

definition EndBlockSync :: "'q \<Rightarrow> ('q, 'r) call" where
  "EndBlockSync req = locked [AppCall EndBlock req]"

definition ListSnapshotsSync :: "'q \<Rightarrow> ('q, 'r) call" where
  "ListSnapshotsSync req = locked [AppCall ListSnapshots req]"

definition OfferSnapshotSync :: "'q \<Rightarrow> ('q, 'r) call" where
  "OfferSnapshotSync req = locked [AppCall OfferSnapshot req]"

definition LoadSnapshotChunkSync :: "'q \<Rightarrow> ('q, 'r) call" where
  "LoadSnapshotChunkSync req = locked [AppCall LoadSnapshotChunk req]"

definition ApplySnapshotChunkSync :: "'q \<Rightarrow> ('q, 'r) call" where
  "ApplySnapshotChunkSync req = locked [AppCall ApplySnapshotChunk req]"

section \<open>Interleaving\<close>

record ('q, 'r) goroutine =
  gr_client :: nat
  gr_steps :: "('q, 'r) call"
  gr_inside :: bool
  gr_res :: "'r option"
  gr_panic :: "string option"

record ('a, 'q, 'r) localClient =
  lc_app :: 'a
  lc_writer :: "nat option"
  lc_readers :: "nat list"
  lc_Callback :: "bool list"
  lc_called :: "(nat \<times> 'q \<times> 'r option) list"
  lc_procs :: "('q, 'r) goroutine list"

text \<open>
  The clients of one creator share its mutex and application; \<open>lc_Callback\<close> tells of each client
  whether its callback is set, which starts as nil.
\<close>

definition NewConcurrentQueryClientCreator :: "'a \<Rightarrow> ('a, 'q, 'r) localClient" where
  "NewConcurrentQueryClientCreator app =
     \<lparr>lc_app = app, lc_writer = None, lc_readers = [], lc_Callback = [], lc_called = [], lc_procs = []\<rparr>"

text \<open>A client joins the others under the mutex it is given, and starts its own under a nil one.\<close>

definition NewConcurrentQueryClient ::
  "('a, 'q, 'r) localClient option \<Rightarrow> 'a \<Rightarrow> nat \<times> ('a, 'q, 'r) localClient" where
  "NewConcurrentQueryClient mtx app =
     (let l = (case mtx of None \<Rightarrow> NewConcurrentQueryClientCreator app | Some l \<Rightarrow> l)
      in (length (lc_Callback l), l\<lparr>lc_Callback := lc_Callback l @ [False]\<rparr>))"

definition NewABCIClient :: "('a, 'q, 'r) localClient \<Rightarrow> nat \<times> ('a, 'q, 'r) localClient" where
  "NewABCIClient l = NewConcurrentQueryClient (Some l) (lc_app l)"

text \<open>A panic runs the deferred calls that are registered, here the unlocking at the end.\<close>

definition unwind :: "('q, 'r) call \<Rightarrow> ('q, 'r) call" where
  "unwind rest = dropWhile (\<lambda>st. st \<noteq> MtxUnlock \<and> st \<noteq> MtxRUnlock) rest"

definition set_proc :: "nat \<Rightarrow> ('q, 'r) goroutine \<Rightarrow> ('a, 'q, 'r) localClient \<Rightarrow> ('a, 'q, 'r) localClient" where
  "set_proc i p s = s\<lparr>lc_procs := (lc_procs s)[i := p]\<rparr>"

text \<open>
  One step of a goroutine; \<^const>\<open>None\<close> when it is blocked or done. A call of the application is
  two steps, going in and coming out, so that calls can overlap. Whether a waiting writer goes
  before new readers is left open.
\<close>

definition client_step ::
  "(abci_method \<Rightarrow> 'q \<Rightarrow> 'a \<Rightarrow> 'r res \<times> 'a) \<Rightarrow> nat \<Rightarrow> ('a, 'q, 'r) localClient \<Rightarrow> ('a, 'q, 'r) localClient option" where
  "client_step app i s =
     (if length (lc_procs s) \<le> i then None
      else
        let p = lc_procs s ! i in
        case gr_steps p of
          [] \<Rightarrow> None
        | st # rest \<Rightarrow>
            let next = p\<lparr>gr_steps := rest\<rparr>;
                panic = (\<lambda>e. p\<lparr>gr_steps := unwind rest, gr_inside := False, gr_panic := Some e\<rparr>)
            in (case st of
                  MtxLock \<Rightarrow>
                    if lc_writer s = None \<and> lc_readers s = [] then Some (set_proc i next (s\<lparr>lc_writer := Some i\<rparr>)) else None
                | MtxUnlock \<Rightarrow> Some (set_proc i next (s\<lparr>lc_writer := None\<rparr>))
                | MtxRLock \<Rightarrow>
                    if lc_writer s = None then Some (set_proc i next (s\<lparr>lc_readers := i # lc_readers s\<rparr>)) else None
                | MtxRUnlock \<Rightarrow> Some (set_proc i next (s\<lparr>lc_readers := remove1 i (lc_readers s)\<rparr>))
                | AppCall m req \<Rightarrow>
                    if \<not> gr_inside p then Some (set_proc i (p\<lparr>gr_inside := True\<rparr>) s)
                    else let (r, a) = app m req (lc_app s) in
                      Some (set_proc i (case r of
                          Ok res \<Rightarrow> next\<lparr>gr_inside := False, gr_res := Some res\<rparr>
                        | Err e \<Rightarrow> panic e
                        | Panic e \<Rightarrow> panic e) (s\<lparr>lc_app := a\<rparr>))
                | RunCallback req \<Rightarrow>
                    if lc_Callback s ! gr_client p
                    then Some (set_proc i next (s\<lparr>lc_called := lc_called s @ [(gr_client p, req, gr_res p)]\<rparr>))
                    else Some (set_proc i (panic nil_deref) s)
                | SetCallback cb \<Rightarrow> Some (set_proc i next (s\<lparr>lc_Callback := (lc_Callback s)[gr_client p := cb]\<rparr>))
                | Respond r \<Rightarrow> Some (set_proc i (next\<lparr>gr_res := r\<rparr>) s)))"

text \<open>A goroutine starts a method of client \<open>k\<close>.\<close>

definition client_start :: "nat \<Rightarrow> ('q, 'r) call \<Rightarrow> ('a, 'q, 'r) localClient \<Rightarrow> ('a, 'q, 'r) localClient" where
  "client_start k c s = s\<lparr>lc_procs := lc_procs s @ [\<lparr>gr_client = k, gr_steps = c, gr_inside = False, gr_res = None, gr_panic = None\<rparr>]\<rparr>"

inductive client_method :: "('q \<Rightarrow> 'r) \<Rightarrow> ('q, 'r) call \<Rightarrow> bool" for echo where
  "client_method echo (SetResponseCallback cb)"
| "client_method echo FlushAsync"
| "client_method echo FlushSync"
| "client_method echo (EchoAsync echo req)"
| "client_method echo (EchoSync echo req)"
| "client_method echo (InfoAsync req)"
| "client_method echo (SetOptionAsync req)"
| "client_method echo (DeliverTxAsync req)"
| "client_method echo (CheckTxAsync req)"
| "client_method echo (QueryAsync req)"
| "client_method echo (CommitAsync req)"
| "client_method echo (InitChainAsync req)"
| "client_method echo (BeginBlockAsync req)"
| "client_method echo (EndBlockAsync req)"
| "client_method echo (ListSnapshotsAsync req)"
| "client_method echo (OfferSnapshotAsync req)"
| "client_method echo (LoadSnapshotChunkAsync req)"
| "client_method echo (ApplySnapshotChunkAsync req)"
| "client_method echo (InfoSync req)"
| "client_method echo (SetOptionSync req)"
| "client_method echo (DeliverTxSync req)"
| "client_method echo (CheckTxSync req)"
| "client_method echo (QuerySync req)"
| "client_method echo (CommitSync req)"
| "client_method echo (InitChainSync req)"
| "client_method echo (BeginBlockSync req)"
| "client_method echo (EndBlockSync req)"
| "client_method echo (ListSnapshotsSync req)"
| "client_method echo (OfferSnapshotSync req)"
| "client_method echo (LoadSnapshotChunkSync req)"
| "client_method echo (ApplySnapshotChunkSync req)"

inductive client_reach ::
  "(abci_method \<Rightarrow> 'q \<Rightarrow> 'a \<Rightarrow> 'r res \<times> 'a) \<Rightarrow> ('q \<Rightarrow> 'r) \<Rightarrow> ('a, 'q, 'r) localClient \<Rightarrow> ('a, 'q, 'r) localClient \<Rightarrow> bool"
  for app echo s0 where
  refl: "client_reach app echo s0 s0"
| connect: "client_reach app echo s0 s \<Longrightarrow> client_reach app echo s0 (snd (NewABCIClient s))"
| start: "client_reach app echo s0 s \<Longrightarrow> k < length (lc_Callback s) \<Longrightarrow> client_method echo c \<Longrightarrow>
    client_reach app echo s0 (client_start k c s)"
| step: "client_reach app echo s0 s \<Longrightarrow> client_step app i s = Some s' \<Longrightarrow> client_reach app echo s0 s'"

lemmas client_method_defs = SetResponseCallback_def FlushAsync_def FlushSync_def EchoAsync_def EchoSync_def
  InfoAsync_def SetOptionAsync_def DeliverTxAsync_def CheckTxAsync_def QueryAsync_def
  CommitAsync_def InitChainAsync_def BeginBlockAsync_def EndBlockAsync_def ListSnapshotsAsync_def
  OfferSnapshotAsync_def LoadSnapshotChunkAsync_def ApplySnapshotChunkAsync_def InfoSync_def
  SetOptionSync_def DeliverTxSync_def CheckTxSync_def QuerySync_def CommitSync_def InitChainSync_def
  BeginBlockSync_def EndBlockSync_def ListSnapshotsSync_def OfferSnapshotSync_def
  LoadSnapshotChunkSync_def ApplySnapshotChunkSync_def

text \<open>Goroutines started and stepped in a given order.\<close>

datatype ('q, 'r) client_action = Connect | Start nat "('q, 'r) call" | Step nat

fun client_run ::
  "(abci_method \<Rightarrow> 'q \<Rightarrow> 'a \<Rightarrow> 'r res \<times> 'a) \<Rightarrow> ('q, 'r) client_action list \<Rightarrow> ('a, 'q, 'r) localClient \<Rightarrow>
   ('a, 'q, 'r) localClient option" where
  "client_run app [] s = Some s"
| "client_run app (Connect # as) s = client_run app as (snd (NewABCIClient s))"
| "client_run app (Start k c # as) s = (if k < length (lc_Callback s) then client_run app as (client_start k c s) else None)"
| "client_run app (Step i # as) s = (case client_step app i s of Some s' \<Rightarrow> client_run app as s' | None \<Rightarrow> None)"

lemma client_run_reach:
  assumes "client_run app as s = Some s'" and "client_reach app echo s0 s"
    and "\<And>k c. Start k c \<in> set as \<Longrightarrow> client_method echo c"
  shows "client_reach app echo s0 s'"
  using assms
proof (induction app as s rule: client_run.induct)
  case (2 app as s)
  then show ?case by (auto intro: client_reach.connect)
next
  case (3 app k c as s)
  then show ?case by (auto intro: client_reach.start split: if_splits)
next
  case (4 app i as s)
  then show ?case by (auto split: option.splits intro: client_reach.step)
qed simp

section \<open>The RPC client\<close>

text \<open>
  \<open>src/rpc/client.go\<close>. Queries go to \<open>QuerySync\<close> of the ABCI client, which takes no lock;
  two methods forward to the client, blocks come from Tendermint's RPC core, everything else
  panics.
\<close>

record abci_query =
  aq_Data :: bytes
  aq_Path :: string
  aq_Height :: int64
  aq_Prove :: bool

definition ABCIQueryWithOptions :: "string \<Rightarrow> bytes \<Rightarrow> int64 \<Rightarrow> bool \<Rightarrow> (abci_query, 'r) call" where
  "ABCIQueryWithOptions path data height prove =
     QuerySync \<lparr>aq_Data = data, aq_Path = path, aq_Height = height, aq_Prove = prove\<rparr>"

definition ABCIQuery :: "string \<Rightarrow> bytes \<Rightarrow> (abci_query, 'r) call" where
  "ABCIQuery path data = QuerySync \<lparr>aq_Data = data, aq_Path = path, aq_Height = 0, aq_Prove = False\<rparr>"

datatype rpc_method =
    ABCIInfo | RpcStart | OnStart | Stop | OnStop | Reset | OnReset | IsRunning | Quit | String | SetLogger
  | BroadcastTxCommit | BroadcastTxAsync | BroadcastTxSync | RpcSubscribe | Unsubscribe | UnsubscribeAll
  | Genesis | GenesisChunked | BlockchainInfo | NetInfo | DumpConsensusState | ConsensusState
  | ConsensusParams | Health | RpcBlock | BlockByHash | BlockResults | RpcCommit | Validators | Tx
  | TxSearch | BlockSearch | Status | BroadcastEvidence | UnconfirmedTxs | NumUnconfirmedTxs | RpcCheckTx

text \<open>\<open>forward\<close> is what the ABCI client or the RPC core answers.\<close>

definition rpc_client :: "(rpc_method \<Rightarrow> 'r res) \<Rightarrow> rpc_method \<Rightarrow> 'r res" where
  "rpc_client forward m =
     (if m = IsRunning \<or> m = String \<or> m = RpcBlock then forward m else Panic ''implement me'')"

section \<open>The lock is kept\<close>

text \<open>Steps between taking and giving back the lock, and which calls they make.\<close>

fun plain_step :: "(abci_method \<Rightarrow> bool) \<Rightarrow> ('q, 'r) step \<Rightarrow> bool" where
  "plain_step ok MtxLock = False"
| "plain_step ok MtxUnlock = False"
| "plain_step ok MtxRLock = False"
| "plain_step ok MtxRUnlock = False"
| "plain_step ok (AppCall m req) = ok m"
| "plain_step ok (RunCallback req) = True"
| "plain_step ok (SetCallback cb) = True"
| "plain_step ok (Respond r) = True"

text \<open>
  Where a goroutine is with respect to the lock: it does not use it and only queries, it waits
  for it, it holds it alone, it holds it for reading and only asks for information.
\<close>

inductive stage :: "bool \<Rightarrow> bool \<Rightarrow> ('q, 'r) call \<Rightarrow> bool" where
  free: "list_all (plain_step (\<lambda>m. m = Query)) b \<Longrightarrow> stage False False b"
| waitW: "list_all (plain_step (\<lambda>m. True)) b \<Longrightarrow> stage False False (MtxLock # b @ [MtxUnlock])"
| waitR: "list_all (plain_step (\<lambda>m. m = Info)) b \<Longrightarrow> stage False False (MtxRLock # b @ [MtxRUnlock])"
| holdW: "list_all (plain_step (\<lambda>m. True)) b \<Longrightarrow> stage True False (b @ [MtxUnlock])"
| holdR: "list_all (plain_step (\<lambda>m. m = Info)) b \<Longrightarrow> stage False True (b @ [MtxRUnlock])"

lemma client_method_stage: "client_method echo c \<Longrightarrow> stage False False c"
  by (induction rule: client_method.induct)
    (auto simp: client_method_defs locked_def rlocked_def intro!: stage.intros
      stage.waitW [of "[x]" for x, simplified] stage.waitW [of "[x, y]" for x y, simplified]
      stage.waitR [of "[x]" for x, simplified] stage.waitR [of "[x, y]" for x y, simplified])

lemma stage_MtxLock: "stage w r (MtxLock # rest) \<Longrightarrow> \<not> w \<and> \<not> r \<and> stage True False rest"
  by (erule stage.cases) (auto simp: Cons_eq_append_conv intro: stage.holdW)

lemma stage_MtxRLock: "stage w r (MtxRLock # rest) \<Longrightarrow> \<not> w \<and> \<not> r \<and> stage False True rest"
  by (erule stage.cases) (auto simp: Cons_eq_append_conv intro: stage.holdR)

lemma stage_MtxUnlock: "stage w r (MtxUnlock # rest) \<Longrightarrow> w \<and> \<not> r \<and> rest = []"
  by (erule stage.cases) (auto simp: Cons_eq_append_conv)

lemma stage_MtxRUnlock: "stage w r (MtxRUnlock # rest) \<Longrightarrow> \<not> w \<and> r \<and> rest = []"
  by (erule stage.cases) (auto simp: Cons_eq_append_conv)

lemma stage_plain:
  assumes "stage w r (st # rest)" and "plain_step (\<lambda>m. True) st"
  shows "stage w r rest"
  using assms by (cases rule: stage.cases) (auto simp: Cons_eq_append_conv intro: stage.intros)

lemma unwind_plain: "list_all (plain_step ok) b \<Longrightarrow> unwind (b @ c) = unwind c"
  by (induction b) (auto simp: unwind_def elim: plain_step.elims)

lemma unwind_simps [simp]: "unwind [] = []" "unwind (MtxUnlock # c) = MtxUnlock # c" "unwind (MtxRUnlock # c) = MtxRUnlock # c"
  by (simp_all add: unwind_def)

lemma stage_unwind:
  assumes "stage w r (st # rest)" and "plain_step (\<lambda>m. True) st"
  shows "stage w r (unwind rest)"
  using stage_plain [OF assms]
proof (cases rule: stage.cases)
  case free
  then show ?thesis using unwind_plain [OF free(3), of "[]"] stage.free [of "[]"] by simp
next
  case (holdW b)
  then show ?thesis using stage.holdW [of "[]"] by (simp add: unwind_plain)
next
  case (holdR b)
  then show ?thesis using stage.holdR [of "[]"] by (simp add: unwind_plain)
qed (use assms in \<open>auto elim!: stage.cases simp: Cons_eq_append_conv\<close>)

lemma stage_AppCall: "stage w r (AppCall m req # rest) \<Longrightarrow> w \<or> r \<and> m = Info \<or> \<not> r \<and> m = Query"
  by (erule stage.cases) (auto simp: Cons_eq_append_conv)

lemma stage_held: "stage w r c \<Longrightarrow> w \<or> r \<Longrightarrow> c \<noteq> [] \<and> hd c \<noteq> MtxLock \<and> hd c \<noteq> MtxRLock"
  by (erule stage.cases) (auto simp: hd_append list_all_iff split: if_splits dest!: list.set_sel(1))

definition lock_inv :: "('a, 'q, 'r) localClient \<Rightarrow> bool" where
  "lock_inv s \<longleftrightarrow>
     (\<forall>i < length (lc_procs s). stage (lc_writer s = Some i) (i \<in> set (lc_readers s)) (gr_steps (lc_procs s ! i))) \<and>
     (\<forall>i. lc_writer s = Some i \<longrightarrow> i < length (lc_procs s) \<and> lc_readers s = []) \<and>
     (\<forall>i \<in> set (lc_readers s). i < length (lc_procs s)) \<and> distinct (lc_readers s)"

lemma lock_inv_new: "lock_inv (NewConcurrentQueryClientCreator a)"
  by (simp add: lock_inv_def NewConcurrentQueryClientCreator_def)

lemma lock_inv_connect: "lock_inv s \<Longrightarrow> lock_inv (snd (NewABCIClient s))"
  by (simp add: lock_inv_def NewABCIClient_def NewConcurrentQueryClient_def)

lemma lock_inv_start:
  assumes "lock_inv s" and "client_method echo c"
  shows "lock_inv (client_start k c s)"
proof -
  have "lc_writer s \<noteq> Some (length (lc_procs s))" and "length (lc_procs s) \<notin> set (lc_readers s)"
    using assms(1) by (auto simp: lock_inv_def)
  then show ?thesis
    using assms client_method_stage [OF assms(2)]
    by (auto simp: lock_inv_def client_start_def nth_append less_Suc_eq)
qed

text \<open>A goroutine that keeps its hold of the lock.\<close>

lemma lock_inv_keep:
  assumes "lock_inv s" and "i < length (lc_procs s)"
    and "stage (lc_writer s = Some i) (i \<in> set (lc_readers s)) (gr_steps p)"
    and "lc_writer s' = lc_writer s" and "lc_readers s' = lc_readers s" and "lc_procs s' = lc_procs s"
  shows "lock_inv (set_proc i p s')"
  using assms by (auto simp: lock_inv_def set_proc_def nth_list_update)

lemma lock_inv_step:
  assumes inv: "lock_inv s" and "client_step app i s = Some s'"
  shows "lock_inv s'"
proof -
  have i: "i < length (lc_procs s)"
    using assms(2) by (simp add: client_step_def split: if_splits)
  then obtain st rest where steps: "gr_steps (lc_procs s ! i) = st # rest"
    using assms(2) by (auto simp: client_step_def Let_def split: list.splits)
  have st: "stage (lc_writer s = Some i) (i \<in> set (lc_readers s)) (st # rest)"
    using inv i steps by (metis lock_inv_def)
  note keep = lock_inv_keep [OF inv i]
  show ?thesis
  proof (cases st)
    case MtxLock
    with assms(2) i steps st inv show ?thesis
      by (auto simp: client_step_def set_proc_def lock_inv_def nth_list_update dest!: stage_MtxLock split: if_splits)
  next
    case MtxUnlock
    with st have w: "lc_writer s = Some i" and rest: "rest = []"
      by (auto dest: stage_MtxUnlock)
    with inv have "lc_readers s = []" and "stage (i = j) False (gr_steps (lc_procs s ! j))" if "j < length (lc_procs s)" for j
      using that by (auto simp: lock_inv_def)
    then have "stage False False (gr_steps (lc_procs s ! j))" if "j < length (lc_procs s)" "j \<noteq> i" for j
      using that by metis
    with MtxUnlock assms(2) i steps rest inv w stage.free [of "[]"] show ?thesis
      by (auto simp: client_step_def set_proc_def lock_inv_def nth_list_update)
  next
    case MtxRLock
    with assms(2) i steps st inv show ?thesis
      by (auto simp: client_step_def set_proc_def lock_inv_def nth_list_update dest!: stage_MtxRLock split: if_splits)
  next
    case MtxRUnlock
    with assms(2) i steps st inv stage.free [of "[]"] show ?thesis
      by (auto simp: client_step_def set_proc_def lock_inv_def nth_list_update dest!: stage_MtxRUnlock)
  qed (use assms(2) i steps st stage_plain [OF st] stage_unwind [OF st] in
      \<open>auto simp: client_step_def Let_def intro!: keep split: if_splits prod.splits res.splits\<close>)
qed

lemma lock_inv_reach: "client_reach app echo s0 s \<Longrightarrow> lock_inv s0 \<Longrightarrow> lock_inv s"
  by (induction rule: client_reach.induct) (auto intro: lock_inv_connect lock_inv_start lock_inv_step)

section \<open>Properties\<close>

text \<open>The method a goroutine is executing in the application.\<close>

definition in_call :: "('a, 'q, 'r) localClient \<Rightarrow> nat \<Rightarrow> abci_method option" where
  "in_call s i =
     (if i < length (lc_procs s) \<and> gr_inside (lc_procs s ! i) then
        (case gr_steps (lc_procs s ! i) of AppCall m req # rest \<Rightarrow> Some m | _ \<Rightarrow> None)
      else None)"

lemma in_call_stage:
  assumes "lock_inv s" and "in_call s i = Some m"
  shows "lc_writer s = Some i \<or> i \<in> set (lc_readers s) \<and> m = Info \<or> m = Query"
proof -
  obtain req rest where "i < length (lc_procs s)" and "gr_steps (lc_procs s ! i) = AppCall m req # rest"
    using assms(2) by (auto simp: in_call_def split: if_splits list.splits step.splits)
  then show ?thesis
    using assms(1) stage_AppCall [of _ _ m req rest] by (metis lock_inv_def)
qed

text \<open>
  C16. In every interleaving of calls, two calls are in the application at the same time only if
  one of them is a query or both ask for information: transactions, commits and the steps of a
  block are alone. When all calls are done, panics included, the lock is free.
\<close>

theorem abci_calls_exclusive:
  assumes "client_reach app echo (NewConcurrentQueryClientCreator a) s"
  shows "(\<forall>i j m m'. in_call s i = Some m \<longrightarrow> in_call s j = Some m' \<longrightarrow> i \<noteq> j \<longrightarrow>
      m = Query \<or> m' = Query \<or> m = Info \<and> m' = Info) \<and>
    ((\<forall>p \<in> set (lc_procs s). gr_steps p = []) \<longrightarrow> lc_writer s = None \<and> lc_readers s = [])"
proof -
  have inv: "lock_inv s"
    using lock_inv_reach [OF assms lock_inv_new] .
  have "m = Query \<or> m' = Query \<or> m = Info \<and> m' = Info"
    if "in_call s i = Some m" "in_call s j = Some m'" "i \<noteq> j" for i j m m'
    using in_call_stage [OF inv that(1)] in_call_stage [OF inv that(2)] inv that(3)
    by (auto simp: lock_inv_def)
  moreover have "lc_writer s = None \<and> lc_readers s = []" if fin: "\<forall>p \<in> set (lc_procs s). gr_steps p = []"
  proof -
    have "\<not> stage w r []" if "w \<or> r" for w r
      using stage_held [of w r "[]"] that by auto
    then have "lc_writer s \<noteq> Some i \<and> i \<notin> set (lc_readers s)" if "i < length (lc_procs s)" for i
      using inv fin that by (metis lock_inv_def nth_mem)
    then show ?thesis
      using inv by (cases "lc_writer s"; cases "lc_readers s") (auto simp: lock_inv_def)
  qed
  ultimately show ?thesis by blast
qed

text \<open>Sample: a query enters the application while a transaction is in it; an asynchronous call
  without a callback panics and gives the lock back.\<close>

definition sample_app :: "abci_method \<Rightarrow> nat \<Rightarrow> nat \<Rightarrow> nat res \<times> nat" where
  "sample_app m req a = (Ok a, if m = Query \<or> m = Info then a else a + req)"

definition sample_calls :: "(nat, nat) client_action list" where
  "sample_calls = [Connect, Connect, Start 0 (DeliverTxSync 2), Start 1 (QuerySync 0), Start 0 (CommitAsync 1), Step 0, Step 0, Step 1]"

lemma sample_calls_methods: "Start k c \<in> set sample_calls \<Longrightarrow> client_method (\<lambda>q. q) c"
  by (auto simp: sample_calls_def intro: client_method.intros)

lemma sample_calls_run:
  "\<exists>s. client_run sample_app sample_calls (NewConcurrentQueryClientCreator 0) = Some s \<and>
    in_call s 0 = Some DeliverTx \<and> in_call s 1 = Some Query \<and> length (lc_procs s) = 3 \<and>
    client_step sample_app 2 s = None \<and> gr_steps (lc_procs s ! 2) \<noteq> []"
  by (simp add: sample_calls_def NewConcurrentQueryClientCreator_def NewABCIClient_def NewConcurrentQueryClient_def client_start_def client_step_def set_proc_def in_call_def
      DeliverTxSync_def QuerySync_def CommitAsync_def locked_def)

theorem abci_calls_exclusive_witness:
  "\<exists>s. client_run sample_app sample_calls (NewConcurrentQueryClientCreator 0) = Some s \<and>
    in_call s 0 = Some DeliverTx \<and> in_call s 1 = Some Query \<and> in_call s 2 = None"
proof -
  obtain s where s: "client_run sample_app sample_calls (NewConcurrentQueryClientCreator 0) = Some s"
    "in_call s 0 = Some DeliverTx" "in_call s 1 = Some Query"
    "client_step sample_app 2 s = None" "length (lc_procs s) = 3" "gr_steps (lc_procs s ! 2) \<noteq> []"
    using sample_calls_run by blast
  have reach: "client_reach sample_app (\<lambda>q. q) (NewConcurrentQueryClientCreator 0) s"
    by (rule client_run_reach [OF s(1) client_reach.refl sample_calls_methods])
  have "m = Query \<or> m = Info" if "in_call s 2 = Some m" for m
    using abci_calls_exclusive [OF reach] s(2) that by fastforce
  moreover have "in_call s 2 \<noteq> Some m" for m
    using s(4,5) by (auto simp: in_call_def client_step_def Let_def sample_app_def split: if_splits list.splits step.splits)
  ultimately show ?thesis
    using s by (cases "in_call s 2") auto
qed

text \<open>Some goroutine can go on as long as a call is unfinished.\<close>

lemma no_deadlock:
  assumes "lock_inv s" and "i < length (lc_procs s)" and "gr_steps (lc_procs s ! i) \<noteq> []"
  shows "\<exists>j s'. client_step app j s = Some s'"
proof -
  have go: "\<exists>s'. client_step app j s = Some s'"
    if "j < length (lc_procs s)" "gr_steps (lc_procs s ! j) = st # rest"
      "st = MtxLock \<or> st = MtxRLock \<longrightarrow> lc_writer s = None \<and> lc_readers s = []" for j st rest
    using that by (cases st) (auto simp: client_step_def Let_def split: prod.splits)
  have held: "\<exists>s'. client_step app j s = Some s'"
    if "lc_writer s = Some j \<or> j \<in> set (lc_readers s)" for j
  proof -
    have j: "j < length (lc_procs s)" using that assms(1) by (auto simp: lock_inv_def)
    with assms(1) have "stage (lc_writer s = Some j) (j \<in> set (lc_readers s)) (gr_steps (lc_procs s ! j))"
      by (simp add: lock_inv_def)
    from stage_held [OF this that] show ?thesis
      using go [OF j] by (cases "gr_steps (lc_procs s ! j)") auto
  qed
  show ?thesis
  proof (cases "lc_writer s = None \<and> lc_readers s = []")
    case True
    with go [OF assms(2)] assms(3) show ?thesis
      by (cases "gr_steps (lc_procs s ! i)") auto
  next
    case False
    then obtain j where "lc_writer s = Some j \<or> j \<in> set (lc_readers s)"
      by (cases "lc_writer s"; cases "lc_readers s") auto
    with held show ?thesis by blast
  qed
qed

text \<open>Every step uses up some of the work that is left.\<close>

definition gr_work :: "('q, 'r) goroutine \<Rightarrow> nat" where
  "gr_work p = 2 * length (gr_steps p) + (if gr_inside p then 0 else 1)"

definition work_left :: "('a, 'q, 'r) localClient \<Rightarrow> nat" where
  "work_left s = sum_list (map gr_work (lc_procs s))"

lemma work_set_proc:
  assumes "i < length (lc_procs s)" and "gr_work p < gr_work (lc_procs s ! i)" and "lc_procs s' = lc_procs s"
  shows "work_left (set_proc i p s') < work_left s"
proof -
  have "gr_work (lc_procs s ! i) \<le> sum_list (map gr_work (lc_procs s))"
    using assms(1) by (intro member_le_sum_list) simp_all
  then show ?thesis
    using assms by (simp add: work_left_def set_proc_def map_update sum_list_update)
qed

lemma length_unwind: "length (unwind c) \<le> length c"
  by (simp add: unwind_def length_dropWhile_le)

lemma client_step_work: "client_step app i s = Some s' \<Longrightarrow> work_left s' < work_left s"
  using length_unwind
  by (fastforce simp: client_step_def Let_def gr_work_def less_Suc_eq_le intro!: work_set_proc
      split: if_splits list.splits step.splits prod.splits res.splits)

lemma client_run_steps:
  "client_run app (map Step is) s = Some s' \<Longrightarrow> client_reach app echo s0 s \<Longrightarrow>
    length is + work_left s' \<le> work_left s \<and> client_reach app echo s0 s'"
proof (induction "is" arbitrary: s)
  case (Cons i "is")
  then obtain s1 where "client_step app i s = Some s1" "client_run app (map Step is) s1 = Some s'"
    by (auto split: option.splits)
  moreover from this Cons.prems have "client_reach app echo s0 s1"
    by (auto intro: client_reach.step)
  ultimately show ?case
    using Cons.IH [of s1] client_step_work [of app i s s1] by simp
qed simp

text \<open>
  C37. Calls finish: from every state, a schedule of the goroutines is no longer than the work
  that is left, and when it cannot go on, every call is finished. In particular the lock never
  leads to a deadlock, not even after panics.
\<close>

theorem abci_calls_finish:
  assumes "client_reach app echo (NewConcurrentQueryClientCreator a) s" and "client_run app (map Step is) s = Some s'"
  shows "length is \<le> work_left s \<and>
    ((\<forall>j. client_step app j s' = None) \<longrightarrow> (\<forall>p \<in> set (lc_procs s'). gr_steps p = []))"
proof -
  note run = client_run_steps [OF assms(2,1)]
  have inv: "lock_inv s'"
    using lock_inv_reach [OF conjunct2 [OF run] lock_inv_new] .
  have "gr_steps p = []" if p: "p \<in> set (lc_procs s')" and stuck: "\<forall>j. client_step app j s' = None" for p
  proof (rule ccontr)
    assume "gr_steps p \<noteq> []"
    then obtain i where "i < length (lc_procs s')" "gr_steps (lc_procs s' ! i) \<noteq> []"
      using p by (auto simp: in_set_conv_nth)
    from no_deadlock [OF inv this, of app] stuck show False by auto
  qed
  moreover have "length is \<le> work_left s"
    using conjunct1 [OF run] by simp
  ultimately show ?thesis by blast
qed

lemma sample_schedule_run:
  "\<exists>s s'. client_run sample_app sample_calls (NewConcurrentQueryClientCreator 0) = Some s \<and> work_left s = 15 \<and>
    client_run sample_app (map Step [1, 0, 0, 2, 2, 2, 2, 2]) s = Some s' \<and>
    length (lc_procs s') = 3 \<and> (\<forall>j < 3. client_step sample_app j s' = None) \<and> gr_panic (lc_procs s' ! 2) \<noteq> None"
  by (simp add: sample_calls_def NewConcurrentQueryClientCreator_def NewABCIClient_def NewConcurrentQueryClient_def client_start_def client_step_def set_proc_def
      DeliverTxSync_def QuerySync_def CommitAsync_def locked_def work_left_def gr_work_def sample_app_def unwind_def
      numeral_eq_Suc less_Suc_eq All_less_Suc)

theorem abci_calls_finish_witness:
  "\<exists>s s'. client_run sample_app sample_calls (NewConcurrentQueryClientCreator 0) = Some s \<and>
    client_run sample_app (map Step [1, 0, 0, 2, 2, 2, 2, 2]) s = Some s' \<and>
    (\<forall>p \<in> set (lc_procs s'). gr_steps p = []) \<and> gr_panic (lc_procs s' ! 2) \<noteq> None"
proof -
  obtain s s' where s: "client_run sample_app sample_calls (NewConcurrentQueryClientCreator 0) = Some s"
    and run: "client_run sample_app (map Step [1, 0, 0, 2, 2, 2, 2, 2]) s = Some s'"
    and stop: "length (lc_procs s') = 3" "\<forall>j < 3. client_step sample_app j s' = None"
    and "gr_panic (lc_procs s' ! 2) \<noteq> None"
    using sample_schedule_run by blast
  moreover have "client_reach sample_app (\<lambda>q. q) (NewConcurrentQueryClientCreator 0) s"
    by (rule client_run_reach [OF s client_reach.refl sample_calls_methods])
  moreover have "\<forall>j. client_step sample_app j s' = None"
    using stop by (metis client_step_def leI)
  ultimately show ?thesis
    using abci_calls_finish [of sample_app "\<lambda>q. q" 0 s "[1, 0, 0, 2, 2, 2, 2, 2]" s'] by blast
qed

end
