(* ===== verification/Config.thy ===== *)
theory Config
  imports Richlist
begin

text \<open>
  \<open>src/config/config.go\<close>: the configuration from environment variables. The environment, the
  SDK's coin parser and the results of viper are parameters.
\<close>

record Config =
  cfg_GenesisPath :: string
  cfg_Home :: string
  cfg_ChainID :: string
  cfg_RPCEndpoints :: "string list"
  cfg_WSEndpoints :: "string list"
  cfg_MantlemintDB :: string
  cfg_IndexerDB :: string
  cfg_DisableSync :: bool
  cfg_EnableExportModule :: bool
  cfg_RichlistLength :: int
  cfg_RichlistThreshold :: "coin option"

record config_env =
  ce_Getenv :: "string \<Rightarrow> string"
  ce_DefaultNodeHome :: string
  ce_ParseCoinNormalized :: "string \<Rightarrow> coin res"
  ce_BindPFlags :: "string option"
  ce_MergeInConfig :: "string \<Rightarrow> string option"

text \<open>An unset variable is empty.\<close>

definition getValidEnv :: "config_env \<Rightarrow> string \<Rightarrow> string res" where
  "getValidEnv V tag =
     (let e = ce_Getenv V tag in
      if e = [] then Panic (''environment variable '' @ tag @ '' not set; expected string'') else Ok e)"

text \<open>\<open>strings.Split\<close> with a separator of one character.\<close>

fun Split :: "string \<Rightarrow> char \<Rightarrow> string list" where
  "Split [] sep = [[]]"
| "Split (c # cs) sep =
     (if c = sep then [] # Split cs sep
      else case Split cs sep of part # parts \<Rightarrow> (c # part) # parts | [] \<Rightarrow> [[c]])"

definition MantlemintDB_env :: "config_env \<Rightarrow> string res" where
  "MantlemintDB_env V =
     bind_res (getValidEnv V ''MANTLEMINT_DB'') (\<lambda>mantlemintDB.
       Ok (if mantlemintDB = [] then ce_DefaultNodeHome V else mantlemintDB))"

definition RichlistLength_env :: "config_env \<Rightarrow> int res" where
  "RichlistLength_env V =
     bind_res (getValidEnv V ''RICHLIST_LENGTH'') (\<lambda>lengthStr.
       case Atoi lengthStr of
         Ok n \<Rightarrow> if n < 0 then Panic ''RICHLIST_LENGTH is invalid'' else Ok n
       | Err e \<Rightarrow> Panic e
       | Panic p \<Rightarrow> Panic p)"

text \<open>The error of \<open>Atoi\<close> is dropped here and leaves 0, except that a number out of range is clipped.\<close>

definition RichlistThreshold_env :: "config_env \<Rightarrow> coin option res" where
  "RichlistThreshold_env V =
     bind_res (getValidEnv V ''RICHLIST_LENGTH'') (\<lambda>lengthStr.
       if Atoi lengthStr = Ok 0 \<or> Atoi lengthStr = Err ''invalid syntax'' then Ok None
       else bind_res (getValidEnv V ''RICHLIST_THRESHOLD'') (\<lambda>threshold.
         case ce_ParseCoinNormalized V threshold of
           Ok thresholdCoin \<Rightarrow> Ok (Some thresholdCoin)
         | Err e \<Rightarrow> Panic (''RICHLIST_THRESHOLD is invalid: '' @ e)
         | Panic p \<Rightarrow> Panic p))"

definition newConfig :: "config_env \<Rightarrow> Config res" where
  "newConfig V =
     bind_res (getValidEnv V ''GENESIS_PATH'') (\<lambda>GenesisPath.
     bind_res (getValidEnv V ''MANTLEMINT_HOME'') (\<lambda>Home.
     bind_res (getValidEnv V ''CHAIN_ID'') (\<lambda>ChainID.
     bind_res (getValidEnv V ''RPC_ENDPOINTS'') (\<lambda>RPCEndpoints.
     bind_res (getValidEnv V ''WS_ENDPOINTS'') (\<lambda>WSEndpoints.
     bind_res (MantlemintDB_env V) (\<lambda>MantlemintDB.
     bind_res (getValidEnv V ''INDEXER_DB'') (\<lambda>IndexerDB.
     bind_res (getValidEnv V ''DISABLE_SYNC'') (\<lambda>disableSync.
     bind_res (getValidEnv V ''ENABLE_EXPORT_MODULE'') (\<lambda>enableExport.
     bind_res (RichlistLength_env V) (\<lambda>RichlistLength.
     bind_res (RichlistThreshold_env V) (\<lambda>RichlistThreshold.
       case ce_BindPFlags V of
         Some bindErr \<Rightarrow> Panic bindErr
       | None \<Rightarrow>
           (case ce_MergeInConfig V (Home @ ''/config'') of
              Some err \<Rightarrow> Panic (''failed to merge configuration: '' @ err)
            | None \<Rightarrow> Ok
                \<lparr>cfg_GenesisPath = GenesisPath, cfg_Home = Home, cfg_ChainID = ChainID,
                 cfg_RPCEndpoints = Split RPCEndpoints CHR '','', cfg_WSEndpoints = Split WSEndpoints CHR '','',
                 cfg_MantlemintDB = MantlemintDB, cfg_IndexerDB = IndexerDB,
                 cfg_DisableSync = (disableSync = ''true''), cfg_EnableExportModule = (enableExport = ''true''),
                 cfg_RichlistLength = RichlistLength, cfg_RichlistThreshold = RichlistThreshold\<rparr>))))))))))))"

text \<open>What the rich list reads of it.\<close>

definition richlist_config :: "Config \<Rightarrow> richlist_cfg" where
  "richlist_config cfg = \<lparr>rc_Length = nat (cfg_RichlistLength cfg), rc_Threshold = cfg_RichlistThreshold cfg\<rparr>"

section \<open>Properties\<close>

fun Join :: "string list \<Rightarrow> char \<Rightarrow> string" where
  "Join [] sep = []"
| "Join [part] sep = part"
| "Join (part # parts) sep = part @ sep # Join parts sep"

lemma Split_not_Nil [simp]: "Split s sep \<noteq> []"
  by (induction s) (auto split: list.splits)

lemma Join_Split: "Join (Split s sep) sep = s"
proof (induction s)
  case (Cons c cs)
  obtain part parts where "Split cs sep = part # parts"
    using Split_not_Nil by (cases "Split cs sep") auto
  with Cons show ?case by (cases parts) auto
qed simp

lemma Split_parts: "part \<in> set (Split s sep) \<Longrightarrow> sep \<notin> set part"
proof (induction s arbitrary: part)
  case (Cons c cs)
  obtain p ps where "Split cs sep = p # ps"
    using Split_not_Nil by (cases "Split cs sep") auto
  with Cons show ?case by (auto split: if_splits)
qed simp

lemma getValidEnv_Ok: "getValidEnv V tag = Ok e \<longleftrightarrow> e = ce_Getenv V tag \<and> e \<noteq> []"
  by (auto simp: getValidEnv_def Let_def)

lemma RichlistLength_Ok:
  "RichlistLength_env V = Ok n \<longleftrightarrow>
    ce_Getenv V ''RICHLIST_LENGTH'' \<noteq> [] \<and> Atoi (ce_Getenv V ''RICHLIST_LENGTH'') = Ok n \<and> 0 \<le> n"
  by (auto simp: RichlistLength_env_def bind_res_eq_Ok getValidEnv_Ok split: res.splits if_splits)

lemma RichlistThreshold_Ok:
  "RichlistThreshold_env V = Ok th \<Longrightarrow> Atoi (ce_Getenv V ''RICHLIST_LENGTH'') = Ok n \<Longrightarrow> th = None \<longleftrightarrow> n = 0"
  by (auto simp: RichlistThreshold_env_def bind_res_eq_Ok getValidEnv_Ok split: res.splits if_splits)

text \<open>
  C39. A configuration that is accepted is usable: there is at least one RPC and one websocket
  endpoint, none contains a comma and together they are the variable; the names of the databases
  are not empty; the length of the rich list is not negative and it has a threshold exactly when
  it is on.
\<close>

theorem config_usable:
  assumes "newConfig V = Ok cfg"
  shows "cfg_RPCEndpoints cfg \<noteq> [] \<and> Join (cfg_RPCEndpoints cfg) CHR '','' = ce_Getenv V ''RPC_ENDPOINTS'' \<and>
    cfg_WSEndpoints cfg \<noteq> [] \<and> Join (cfg_WSEndpoints cfg) CHR '','' = ce_Getenv V ''WS_ENDPOINTS'' \<and>
    (\<forall>e \<in> set (cfg_RPCEndpoints cfg @ cfg_WSEndpoints cfg). CHR '','' \<notin> set e) \<and>
    cfg_MantlemintDB cfg = ce_Getenv V ''MANTLEMINT_DB'' \<and> cfg_MantlemintDB cfg \<noteq> [] \<and> cfg_IndexerDB cfg \<noteq> [] \<and>
    0 \<le> cfg_RichlistLength cfg \<and> (cfg_RichlistThreshold cfg = None \<longleftrightarrow> cfg_RichlistLength cfg = 0)"
  using assms RichlistThreshold_Ok [of V]
  by (auto simp: newConfig_def bind_res_eq_Ok getValidEnv_Ok RichlistLength_Ok MantlemintDB_env_def Join_Split
      split: option.splits dest: Split_parts)

definition sample_config_env :: config_env where
  "sample_config_env = \<lparr>ce_Getenv = (\<lambda>tag. if tag = ''RICHLIST_LENGTH'' then ''0'' else if tag = ''RICHLIST_THRESHOLD'' then []
       else if tag = ''RPC_ENDPOINTS'' then ''a,b'' else ''x''),
     ce_DefaultNodeHome = ''home'', ce_ParseCoinNormalized = (\<lambda>_. Err ''no coin''), ce_BindPFlags = None,
     ce_MergeInConfig = (\<lambda>_. None)\<rparr>"

theorem config_usable_witness:
  "\<exists>cfg. newConfig sample_config_env = Ok cfg \<and> cfg_RPCEndpoints cfg = [''a'', ''b''] \<and>
    Join (cfg_RPCEndpoints cfg) CHR '','' = ''a,b'' \<and> cfg_RichlistThreshold cfg = None"
proof -
  have "\<exists>cfg. newConfig sample_config_env = Ok cfg \<and> cfg_RPCEndpoints cfg = [''a'', ''b''] \<and> cfg_RichlistLength cfg = 0"
    by (simp add: newConfig_def sample_config_env_def getValidEnv_def MantlemintDB_env_def RichlistLength_env_def
        RichlistThreshold_env_def Atoi_def digit_value_def)
  then obtain cfg where "newConfig sample_config_env = Ok cfg" "cfg_RPCEndpoints cfg = [''a'', ''b'']" "cfg_RichlistLength cfg = 0"
    by blast
  with config_usable [OF this(1)] show ?thesis
    by (auto simp: sample_config_env_def)
qed

text \<open>With the rich list off, every request to its route with a height panics.\<close>

theorem disabled_richlist_panics:
  assumes "newConfig V = Ok cfg" and "cfg_RichlistLength cfg = 0" and "Atoi height = Ok n" and "height \<noteq> ''latest''"
  shows "\<exists>p. richlist_route C D y (richlist_config cfg) s (Some height) = Panic p"
proof -
  have "cfg_RichlistThreshold cfg = None"
    using assms(1,2) RichlistThreshold_Ok [of V]
    by (auto simp: newConfig_def bind_res_eq_Ok RichlistLength_Ok split: option.splits)
  then show ?thesis
    using assms(3,4)
    by (simp add: richlist_route_def richlist_serve_def richlistByHeightHandler_def getDefaultKey_def richlist_config_def
        rl_deref_def Let_def)
qed

end
