(* ===== verification/Export.thy ===== *)
theory Export
  imports Tm_Types
begin

text \<open>
  \<open>src/export\<close>: the circulating supply and the list of accounts. The keepers of the application
  are a record of what they answer at the last height; the clock is an argument. Amounts of
  \<open>uluna\<close> are the SDK's integers, whose arithmetic panics beyond 256 bits.
\<close>

section \<open>Decimals and the application\<close>

text \<open>Decimals are multiples of \<open>10 ^ -18\<close>; \<open>TruncateInt\<close> rounds towards 0.\<close>

definition TruncateInt :: "int \<Rightarrow> int" where
  "TruncateInt d = (if d < 0 then - (- d div 10 ^ 18) else d div 10 ^ 18)"

record vesting_account =
  va_Address :: string
  va_DelegatedFree :: int
  va_GetVestingCoins :: "int \<Rightarrow> int"

datatype account =
    PeriodicVestingAccount vesting_account
  | ContinuousVestingAccount vesting_account
  | DelayedVestingAccount vesting_account
  | PermanentLockedAccount vesting_account
  | BaseAccount string
  | OtherAccount string

fun GetAddress :: "account \<Rightarrow> string" where
  "GetAddress (PeriodicVestingAccount v) = va_Address v"
| "GetAddress (ContinuousVestingAccount v) = va_Address v"
| "GetAddress (DelayedVestingAccount v) = va_Address v"
| "GetAddress (PermanentLockedAccount v) = va_Address v"
| "GetAddress (BaseAccount addr) = addr"
| "GetAddress (OtherAccount addr) = addr"

record terra_app =
  ta_accounts :: "account list"
  ta_SupplyOf :: "int res"
  ta_CommunityPool :: "int res"
  ta_GetBalance :: "string \<Rightarrow> int"
  ta_DelegationTotalRewards :: "string \<Rightarrow> int res"
  ta_Delegations :: "string \<Rightarrow> (string \<times> int) list"
  ta_TokensFromShares :: "string \<Rightarrow> (int \<Rightarrow> int) option"
  ta_Unbonding :: "string \<Rightarrow> int list list"

section \<open>Circulating supply (\<open>export.go\<close>)\<close>

fun vesting_of :: "account \<Rightarrow> vesting_account option" where
  "vesting_of (PeriodicVestingAccount v) = Some v"
| "vesting_of (ContinuousVestingAccount v) = Some v"
| "vesting_of (DelayedVestingAccount v) = Some v"
| "vesting_of (PermanentLockedAccount v) = Some v"
| "vesting_of (BaseAccount addr) = None"
| "vesting_of (OtherAccount addr) = None"

fun add_vesting :: "int \<Rightarrow> int \<Rightarrow> account list \<Rightarrow> int res" where
  "add_vesting time totalVesting [] = Ok totalVesting"
| "add_vesting time totalVesting (a # as) =
     (case vesting_of a of
        Some v \<Rightarrow> bind_res (sdk_int (totalVesting + va_GetVestingCoins v time)) (\<lambda>t. add_vesting time t as)
      | None \<Rightarrow> add_vesting time totalVesting as)"

definition ExportCirculatingSupply :: "terra_app \<Rightarrow> int \<Rightarrow> int res" where
  "ExportCirculatingSupply app time =
     bind_res (add_vesting time 0 (ta_accounts app)) (\<lambda>totalVesting.
     bind_res (ta_SupplyOf app) (\<lambda>lunaTotalSupply.
     bind_res (ta_CommunityPool app) (\<lambda>communityPool.
     bind_res (sdk_int (lunaTotalSupply - TruncateInt communityPool)) (\<lambda>x. sdk_int (x - totalVesting)))))"

section \<open>List of accounts\<close>

fun add_delegations :: "terra_app \<Rightarrow> int \<Rightarrow> (string \<times> int) list \<Rightarrow> int res" where
  "add_delegations app balance [] = Ok balance"
| "add_delegations app balance ((validator, shares) # ds) =
     (case ta_TokensFromShares app validator of
        Some tokens \<Rightarrow> bind_res (sdk_int (balance + TruncateInt (tokens shares))) (\<lambda>b. add_delegations app b ds)
      | None \<Rightarrow> add_delegations app balance ds)"

fun add_unbonding :: "int \<Rightarrow> int list \<Rightarrow> int res" where
  "add_unbonding balance [] = Ok balance"
| "add_unbonding balance (e # es) = bind_res (sdk_int (balance + e)) (\<lambda>b. add_unbonding b es)"

definition account_row :: "string \<Rightarrow> int \<Rightarrow> int \<Rightarrow> string" where
  "account_row addr vested vesting = addr @ '','' @ Sprintf_d vested @ '','' @ Sprintf_d vesting"

text \<open>One account of the iteration: its row, if it has one.\<close>

definition export_account :: "terra_app \<Rightarrow> int \<Rightarrow> account \<Rightarrow> string list res" where
  "export_account app time a =
     (case ta_DelegationTotalRewards app (GetAddress a) of
        Err e \<Rightarrow> Panic e
      | Panic p \<Rightarrow> Panic p
      | Ok rewards \<Rightarrow>
          bind_res (sdk_int (ta_GetBalance app (GetAddress a) + TruncateInt rewards)) (\<lambda>balance.
          case a of
            BaseAccount addr \<Rightarrow>
              bind_res (add_delegations app balance (ta_Delegations app addr)) (\<lambda>b.
              bind_res (add_unbonding b (concat (ta_Unbonding app addr))) (\<lambda>vested.
                Ok [account_row addr vested 0]))
          | OtherAccount addr \<Rightarrow> Ok []
          | _ \<Rightarrow>
              (case vesting_of a of
                 Some v \<Rightarrow>
                   bind_res (sdk_int (balance + va_DelegatedFree v)) (\<lambda>vested.
                     Ok [account_row (va_Address v) vested (va_GetVestingCoins v time)])
               | None \<Rightarrow> Ok [])))"

fun export_rows :: "terra_app \<Rightarrow> int \<Rightarrow> account list \<Rightarrow> string list res" where
  "export_rows app time [] = Ok []"
| "export_rows app time (a # as) =
     bind_res (export_account app time a) (\<lambda>row. map_ok (\<lambda>rows. row @ rows) (export_rows app time as))"

fun join_lines :: "string list \<Rightarrow> string" where
  "join_lines [] = []"
| "join_lines [row] = row"
| "join_lines (row # rows) = row @ CHR 0x0A # join_lines rows"

text \<open>
  The worker. \<open>ex_pending\<close> counts the requests that have read the flag and not yet set it,
  \<open>ex_workers\<close> the goroutines that are running; \<open>ex_file\<close> is \<open>accounts.csv\<close>. A panic in the worker
  ends the process. The flag is read and set without a lock, so that these are two steps.
\<close>

record exporter =
  IsAccountExportWorkerRunning :: bool
  ex_pending :: nat
  ex_workers :: nat
  ex_file :: "string option"

definition export_check :: "exporter \<Rightarrow> string option \<times> exporter" where
  "export_check x =
     (if IsAccountExportWorkerRunning x then (Some ''exporting is still running'', x)
      else (None, x\<lparr>ex_pending := ex_pending x + 1\<rparr>))"

definition export_begin :: "exporter \<Rightarrow> exporter" where
  "export_begin x = x\<lparr>ex_pending := ex_pending x - 1, IsAccountExportWorkerRunning := True, ex_workers := ex_workers x + 1\<rparr>"

definition ExportAllAccounts :: "exporter \<Rightarrow> string option \<times> exporter" where
  "ExportAllAccounts x =
     (case export_check x of (Some err, x') \<Rightarrow> (Some err, x') | (None, x') \<Rightarrow> (None, export_begin x'))"

definition runAccountExportWorker :: "terra_app \<Rightarrow> int \<Rightarrow> exporter \<Rightarrow> exporter res" where
  "runAccountExportWorker app time x =
     map_ok (\<lambda>accounts. x\<lparr>ex_file := Some (join_lines accounts), IsAccountExportWorkerRunning := False,
         ex_workers := ex_workers x - 1\<rparr>)
       (export_rows app time (ta_accounts app))"

section \<open>Routes (\<open>client.go\<close>)\<close>

text \<open>
  The handlers do not return after an error: the second status is ignored by the server, and the
  supply route goes on to write the zero value of the SDK's integer, which prints as \<open><nil>\<close>.
\<close>

definition export_accounts_route :: "exporter \<Rightarrow> http_response \<times> exporter" where
  "export_accounts_route x =
     (let (err, x') = ExportAllAccounts x in
      (case err of Some e \<Rightarrow> \<lparr>hr_Status = 409, hr_Body = bytes_of e\<rparr> | None \<Rightarrow> \<lparr>hr_Status = 200, hr_Body = []\<rparr>, x'))"

definition export_supply_route :: "terra_app \<Rightarrow> int \<Rightarrow> http_response res" where
  "export_supply_route app time =
     (case ExportCirculatingSupply app time of
        Ok cs \<Rightarrow> Ok \<lparr>hr_Status = 200, hr_Body = bytes_of (Sprintf_d cs)\<rparr>
      | Err e \<Rightarrow> Ok \<lparr>hr_Status = 409, hr_Body = bytes_of (e @ ''<nil>'')\<rparr>
      | Panic p \<Rightarrow> Panic p)"

section \<open>Properties\<close>

definition vesting_amounts :: "int \<Rightarrow> account list \<Rightarrow> int list" where
  "vesting_amounts time as = map (\<lambda>v. va_GetVestingCoins v time) (List.map_filter vesting_of as)"

lemma vesting_amounts_simps [simp]:
  "vesting_amounts time [] = []"
  "vesting_amounts time (a # as) =
    (case vesting_of a of Some v \<Rightarrow> va_GetVestingCoins v time # vesting_amounts time as | None \<Rightarrow> vesting_amounts time as)"
  by (simp_all add: vesting_amounts_def List.map_filter_def split: option.split)

lemma add_vesting_sum:
  assumes "\<forall>n \<in> set (vesting_amounts time as). 0 \<le> n" and "0 \<le> t"
  shows "add_vesting time t as = (if vesting_amounts time as = [] then Ok t else sdk_int (t + sum_list (vesting_amounts time as)))"
  using assms
proof (induction as arbitrary: t)
  case (Cons a as)
  show ?case
  proof (cases "vesting_of a")
    case None
    with Cons show ?thesis by simp
  next
    case (Some v)
    have rest: "0 \<le> sum_list (vesting_amounts time as)" and v: "0 \<le> va_GetVestingCoins v time"
      using Cons.prems(1) Some by (auto intro!: sum_list_nonneg)
    show ?thesis
    proof (cases "t + va_GetVestingCoins v time < 2 ^ 256")
      case True
      then have "sdk_int (t + va_GetVestingCoins v time) = Ok (t + va_GetVestingCoins v time)"
        using Cons.prems(2) v by simp
      then show ?thesis
        using Cons.IH [of "t + va_GetVestingCoins v time"] Cons.prems Some v True by (simp add: add.assoc)
    next
      case False
      then have "sdk_int (t + va_GetVestingCoins v time) = Panic ''Int overflow''"
        "sdk_int (t + (va_GetVestingCoins v time + sum_list (vesting_amounts time as))) = Panic ''Int overflow''"
        using Cons.prems(2) rest by (intro sdk_int_Panic; linarith)+
      then show ?thesis
        using Some by simp
    qed
  qed
qed simp

text \<open>
  C40. The circulating supply is the supply less the whole coins of the community pool less
  everything that is still vesting. It is never above the supply; nothing keeps it from being
  negative, which it is exactly when pool and vesting coins exceed the supply, and the route prints
  it then too. The only other outcome is the panic of a sum or difference of more than 256 bits.
\<close>

theorem circulating_supply:
  assumes "ta_SupplyOf app = Ok supply" and "ta_CommunityPool app = Ok pool" and "0 \<le> pool" and "0 \<le> supply"
    and "supply < 2 ^ 256" and "\<forall>n \<in> set (vesting_amounts time (ta_accounts app)). 0 \<le> n"
  defines "v \<equiv> sum_list (vesting_amounts time (ta_accounts app))" and "p \<equiv> pool div 10 ^ 18"
  shows "if v < 2 ^ 256 \<and> p + v - supply < 2 ^ 256
    then \<exists>c. ExportCirculatingSupply app time = Ok c \<and> c = supply - p - v \<and> c \<le> supply \<and> (c < 0 \<longleftrightarrow> supply < p + v) \<and>
      export_supply_route app time = Ok \<lparr>hr_Status = 200, hr_Body = bytes_of (Sprintf_d c)\<rparr>
    else ExportCirculatingSupply app time = Panic ''Int overflow'' \<and> export_supply_route app time = Panic ''Int overflow''"
proof -
  have v: "0 \<le> v" and p: "0 \<le> p"
    using assms(3,6) by (auto simp: v_def p_def intro!: sum_list_nonneg)
  have "add_vesting time 0 (ta_accounts app) = sdk_int v"
    using add_vesting_sum [OF assms(6), of 0] by (simp add: v_def)
  then have eq: "ExportCirculatingSupply app time = bind_res (sdk_int v) (\<lambda>v. bind_res (sdk_int (supply - p)) (\<lambda>x. sdk_int (x - v)))"
    using assms(1-3) by (simp add: ExportCirculatingSupply_def TruncateInt_def p_def)
  have fits: "\<bar>v\<bar> < 2 ^ 256 \<longleftrightarrow> v < 2 ^ 256" "\<bar>supply - p\<bar> < 2 ^ 256 \<longleftrightarrow> p - supply < 2 ^ 256"
    "\<bar>supply - p - v\<bar> < 2 ^ 256 \<longleftrightarrow> p + v - supply < 2 ^ 256"
    using v p assms(4,5) by linarith+
  then have "ExportCirculatingSupply app time =
      (if v < 2 ^ 256 \<and> p + v - supply < 2 ^ 256 then Ok (supply - p - v) else Panic ''Int overflow'')"
    using v by (simp add: eq sdk_int_def)
  then show ?thesis
    using v p by (auto simp: export_supply_route_def)
qed

definition sample_terra :: terra_app where
  "sample_terra = \<lparr>ta_accounts = [BaseAccount ''a'', DelayedVestingAccount \<lparr>va_Address = ''b'', va_DelegatedFree = 1,
       va_GetVestingCoins = (\<lambda>t. 30)\<rparr>, OtherAccount ''m''],
     ta_SupplyOf = Ok 100, ta_CommunityPool = Ok 7500000000000000000, ta_GetBalance = (\<lambda>_. 5),
     ta_DelegationTotalRewards = (\<lambda>_. Ok 0), ta_Delegations = (\<lambda>_. [(''v'', 2)]),
     ta_TokensFromShares = (\<lambda>_. Some (\<lambda>s. s * 10 ^ 18)), ta_Unbonding = (\<lambda>_. [[3], [4]])\<rparr>"

theorem circulating_supply_witness:
  "ExportCirculatingSupply sample_terra 0 = Ok 63 \<and>
    export_supply_route sample_terra 0 = Ok \<lparr>hr_Status = 200, hr_Body = bytes_of ''63''\<rparr>"
proof -
  have "Sprintf_d 63 = ''63''" by code_simp
  then show ?thesis
    using circulating_supply [of sample_terra 100 7500000000000000000 0] by (simp add: sample_terra_def)
qed

text \<open>Requests and workers in any order; \<open>overlap\<close> tells whether requests may overlap.\<close>

inductive export_reach :: "bool \<Rightarrow> terra_app \<Rightarrow> exporter \<Rightarrow> bool" for overlap app where
  init: "export_reach overlap app
    \<lparr>IsAccountExportWorkerRunning = False, ex_pending = 0, ex_workers = 0, ex_file = f\<rparr>"
| request: "export_reach overlap app x \<Longrightarrow> export_reach overlap app (snd (export_accounts_route x))"
| check: "overlap \<Longrightarrow> export_reach overlap app x \<Longrightarrow> export_reach overlap app (snd (export_check x))"
| set_flag: "overlap \<Longrightarrow> export_reach overlap app x \<Longrightarrow> 0 < ex_pending x \<Longrightarrow> export_reach overlap app (export_begin x)"
| finish: "export_reach overlap app x \<Longrightarrow> 0 < ex_workers x \<Longrightarrow> runAccountExportWorker app time x = Ok x' \<Longrightarrow>
    export_reach overlap app x'"

text \<open>One request at a time: a second one is refused while a worker runs.\<close>

lemma one_export_worker:
  "export_reach False app x \<Longrightarrow> ex_workers x = (if IsAccountExportWorkerRunning x then 1 else 0) \<and> ex_pending x = 0"
  by (induction rule: export_reach.induct)
    (auto simp: export_accounts_route_def ExportAllAccounts_def export_check_def export_begin_def
      runAccountExportWorker_def map_ok_eq_Ok split: if_splits)

text \<open>Requests that overlap: both read the flag before either sets it, and two workers write the file.\<close>

theorem two_export_workers: "\<exists>x. export_reach True app x \<and> ex_workers x = 2"
proof -
  let ?x0 = "\<lparr>IsAccountExportWorkerRunning = False, ex_pending = 0, ex_workers = 0, ex_file = None\<rparr>"
  let ?x2 = "snd (export_check (snd (export_check ?x0)))"
  have "export_reach True app ?x2"
    by (intro export_reach.check export_reach.init TrueI)
  then have "export_reach True app (export_begin (export_begin ?x2))"
    by (intro export_reach.set_flag TrueI) (simp_all add: export_check_def export_begin_def)
  moreover have "ex_workers (export_begin (export_begin ?x2)) = 2"
    by (simp add: export_check_def export_begin_def)
  ultimately show ?thesis by blast
qed

end
