(* ===== verification/Rest_Server.thy ===== *)
theory Rest_Server
  imports Rpc_Cache_Correct Export Config
begin

text \<open>
  \<open>StartRPC\<close> of \<open>src/rpc/register.go\<close> with the routes that \<open>main\<close> registers: the handlers behind the
  routes, the middleware that chooses a cache, and the goroutine that purges one cache for every
  height the main loop sends it. The router (gorilla's \<open>mux\<close>), the parser of URLs, the routes of the SDK and
  the application are parameters. The lemmas say from where, and from when, an answer comes.
\<close>

section \<open>Routes\<close>

record http_request =
  hq_Method :: string
  hq_URL :: string
  hq_blockHeight :: "string list"

datatype rest_handler =
    TxByHash | TxsByHeight | BlockByHeight | RichlistByHeight | HealthCheck | ExportAccounts | ExportSupply

text \<open>A registered route: its pattern, the methods it is limited to (none are all methods), its handler.\<close>

type_synonym route = "string \<times> string list \<times> rest_handler"

text \<open>In the order of registration: the indexers' routes, the health check, the exports.\<close>

definition index_routes :: "route list" where
  "index_routes =
     [(''/index/tx/by_hash/{hash}'', [''GET''], TxByHash),
      (''/index/tx/by_height/{height}'', [''GET''], TxsByHeight),
      (''/index/blocks/{height}'', [''GET''], BlockByHeight),
      (''/index/richlist/{height}'', [''GET''], RichlistByHeight)]"

definition export_routes :: "route list" where
  "export_routes = [(''/export/accounts'', [''POST''], ExportAccounts), (''/export/circulating_supply'', [], ExportSupply)]"

definition rest_routes :: "Config \<Rightarrow> route list" where
  "rest_routes cfg = index_routes @ [(''/health'', [''GET''], HealthCheck)] @
     (if cfg_EnableExportModule cfg then export_routes else [])"

section \<open>Server\<close>

text \<open>
  What the router finds for a request: a route registered here with the variables of its pattern
  (\<open>mux.Vars\<close>), one of the routes the application registers after these, or none.
\<close>

datatype mux_result = Found rest_handler "(string \<times> string) list" | AppRoute | NoRoute

text \<open>
  \<open>re_mux\<close> is the router that holds the given routes and then those of the application, for a method and
  a path; \<open>re_noRoute\<close> is what it answers itself without a route, \<open>re_app\<close> what the application answers.
  \<open>re_path\<close> and \<open>re_height\<close> are the path of a URL and its query parameter \<open>height\<close>;
  \<open>re_terra\<close> and \<open>re_now\<close> are the keepers and the clock the exports read.
\<close>

record ('s, 'b, 'w) rest_env =
  re_mux :: "route list \<Rightarrow> string \<Rightarrow> string \<Rightarrow> mux_result"
  re_noRoute :: "http_request \<Rightarrow> http_response"
  re_path :: "string \<Rightarrow> string"
  re_height :: "string \<Rightarrow> string"
  re_codec :: codec
  re_db :: "('s, 'b) leveldb"
  re_snappy :: SnappyDB
  re_cfg :: Config
  re_terra :: "'w \<Rightarrow> terra_app"
  re_now :: "'w \<Rightarrow> int"
  re_app :: "'w \<Rightarrow> http_request \<Rightarrow> http_response"

record ('s, 'w) rest_world =
  rw_index :: 's
  rw_exporter :: exporter
  rw_synced :: bool
  rw_app :: 'w

definition rest_find :: "('s, 'b, 'w) rest_env \<Rightarrow> http_request \<Rightarrow> mux_result" where
  "rest_find E q = re_mux E (rest_routes (re_cfg E)) (hq_Method q) (re_path E (hq_URL q))"

definition on_index ::
  "('s, 'w) rest_world \<Rightarrow> (http_response \<times> 's) res \<Rightarrow> (http_response \<times> ('s, 'w) rest_world) res" where
  "on_index w = map_ok (\<lambda>(r, s). (r, w\<lparr>rw_index := s\<rparr>))"

text \<open>The handlers behind the middleware.\<close>

definition rest_serve ::
  "('s, 'b, 'w) rest_env \<Rightarrow> ('s, 'w) rest_world \<Rightarrow> http_request \<Rightarrow> (http_response \<times> ('s, 'w) rest_world) res" where
  "rest_serve E w q =
     (case rest_find E q of
        Found TxByHash vars \<Rightarrow> on_index w
          (tx_hash_route (re_codec E) (re_db E) (re_snappy E) (rw_index w) (map_of vars ''hash''))
      | Found TxsByHeight vars \<Rightarrow> on_index w
          (tx_height_route (re_codec E) (re_db E) (re_snappy E) (rw_index w) (map_of vars ''height''))
      | Found BlockByHeight vars \<Rightarrow> on_index w
          (block_route (re_codec E) (re_db E) (re_snappy E) (rw_index w) (map_of vars ''height''))
      | Found RichlistByHeight vars \<Rightarrow> on_index w
          (richlist_route (re_codec E) (re_db E) (re_snappy E) (richlist_config (re_cfg E)) (rw_index w) (map_of vars ''height''))
      | Found HealthCheck vars \<Rightarrow> Ok (health_route (rw_synced w), w)
      | Found ExportAccounts vars \<Rightarrow> (let (r, x) = export_accounts_route (rw_exporter w) in Ok (r, w\<lparr>rw_exporter := x\<rparr>))
      | Found ExportSupply vars \<Rightarrow>
          map_ok (\<lambda>r. (r, w)) (export_supply_route (re_terra E (rw_app w)) (re_now E (rw_app w)))
      | AppRoute \<Rightarrow> Ok (re_app E (rw_app w) q, w)
      | NoRoute \<Rightarrow> Ok (re_noRoute E q, w))"

definition as_response :: "ResponseCache \<Rightarrow> http_response" where
  "as_response c = \<lparr>hr_Status = rsp_status c, hr_Body = rsp_body c\<rparr>"

definition as_cached :: "http_response \<Rightarrow> ResponseCache" where
  "as_cached r = \<lparr>rsp_status = hr_Status r, rsp_body = hr_Body r\<rparr>"

text \<open>
  \<open>HandleCachedHTTP\<close> for a request that meets no other for its URI. A panic of the handler ends the
  connection without a response and nothing is stored.
\<close>

definition handle_alone ::
  "'l lru \<Rightarrow> 'l CacheBackend \<Rightarrow> uri \<Rightarrow> (http_response \<times> 'v) res \<Rightarrow> 'v \<Rightarrow> http_response option \<times> 'l CacheBackend \<times> 'v" where
  "handle_alone L cb u served v =
     (let (cached, cb1) = cb_Get L (cb\<lparr>cb_serveCount := cb_serveCount cb + 1\<rparr>) u in
      case cached of
        Some c \<Rightarrow> (Some (as_response c),
          cb1\<lparr>cb_cacheServeCount := cb_cacheServeCount cb1 + 1\<rparr>, v)
      | None \<Rightarrow>
          (case served of
             Ok (r, v') \<Rightarrow> (Some r, snd (cb_Set L cb1 u (as_cached r)), v')
           | _ \<Rightarrow> (None, cb1, v)))"

text \<open>
  The server with the two goroutines of the node that bear on it: \<open>rv_sending\<close> when the main loop waits to
  send a height on the unbuffered channel \<open>cacheInvalidateChan\<close>, \<open>rv_purging\<close> when the invalidator has received
  one and has not purged yet.
\<close>

record ('s, 'w, 'l) rest_server =
  rv_world :: "('s, 'w) rest_world"
  rv_cache :: "'l CacheBackend"
  rv_archival :: "'l CacheBackend"
  rv_sending :: bool
  rv_purging :: bool

definition rest_start :: "('s, 'w) rest_world \<Rightarrow> 'l CacheBackend \<Rightarrow> 'l CacheBackend \<Rightarrow> ('s, 'w, 'l) rest_server" where
  "rest_start w cache archival =
     \<lparr>rv_world = w, rv_cache = cache, rv_archival = archival, rv_sending = False, rv_purging = False\<rparr>"

text \<open>The middleware, which runs only when a route matches. For the archival cache the height is added to
  the request's header.\<close>

definition add_height :: "('s, 'b, 'w) rest_env \<Rightarrow> http_request \<Rightarrow> http_request" where
  "add_height E q = q\<lparr>hq_blockHeight := hq_blockHeight q @ [re_height E (hq_URL q)]\<rparr>"

definition cache_for :: "('s, 'b, 'w) rest_env \<Rightarrow> http_request \<Rightarrow> cache_choice" where
  "cache_for E q =
     (case rest_find E q of
        NoRoute \<Rightarrow> NoCache
      | _ \<Rightarrow> choose_cache (re_path E (hq_URL q)) (re_height E (hq_URL q)))"

definition rest_request ::
  "'l lru \<Rightarrow> ('s, 'b, 'w) rest_env \<Rightarrow> http_request \<Rightarrow> ('s, 'w, 'l) rest_server \<Rightarrow>
   http_response option \<times> ('s, 'w, 'l) rest_server" where
  "rest_request L E q v =
     (let w = rv_world v in
      case cache_for E q of
        NoCache \<Rightarrow> (case rest_serve E w q of Ok (r, w') \<Rightarrow> (Some r, v\<lparr>rv_world := w'\<rparr>) | _ \<Rightarrow> (None, v))
      | Archival \<Rightarrow>
          (let (r, cb, w') = handle_alone L (rv_archival v) (hq_URL q) (rest_serve E w (add_height E q)) w
           in (r, v\<lparr>rv_archival := cb, rv_world := w'\<rparr>))
      | Latest \<Rightarrow>
          (let (r, cb, w') = handle_alone L (rv_cache v) (hq_URL q) (rest_serve E w q) w
           in (r, v\<lparr>rv_cache := cb, rv_world := w'\<rparr>)))"

text \<open>
  What happens around a server over time: a request; the main loop changes the indexer database and the
  application (\<open>Inject\<close>, \<open>Run\<close>), flushes a block and goes on to send its height; the invalidator receives the
  height, and later purges; the flag of the feed changes; the export worker goes on.
\<close>

datatype ('s, 'w) rest_event =
    Request http_request
  | Progress 's 'w
  | FlushBlock 'w
  | Receive
  | Purge
  | Synced bool
  | Worker exporter

fun rest_step ::
  "'l lru \<Rightarrow> ('s, 'b, 'w) rest_env \<Rightarrow> ('s, 'w) rest_event \<Rightarrow> ('s, 'w, 'l) rest_server \<Rightarrow>
   (http_response option list \<times> ('s, 'w, 'l) rest_server) option" where
  "rest_step L E (Request q) v = (let (r, v') = rest_request L E q v in Some ([r], v'))"
| "rest_step L E (Progress s a) v =
     (if rv_sending v then None else Some ([], v\<lparr>rv_world := (rv_world v)\<lparr>rw_index := s, rw_app := a\<rparr>\<rparr>))"
| "rest_step L E (FlushBlock a) v =
     (if rv_sending v then None else Some ([], v\<lparr>rv_world := (rv_world v)\<lparr>rw_app := a\<rparr>, rv_sending := True\<rparr>))"
| "rest_step L E Receive v =
     (if rv_sending v \<and> \<not> rv_purging v then Some ([], v\<lparr>rv_sending := False, rv_purging := True\<rparr>) else None)"
| "rest_step L E Purge v =
     (if rv_purging v then
        let (cache, archival) = invalidate_caches L (rv_cache v, rv_archival v)
        in Some ([], v\<lparr>rv_cache := cache, rv_archival := archival, rv_purging := False\<rparr>)
      else None)"
| "rest_step L E (Synced b) v = Some ([], v\<lparr>rv_world := (rv_world v)\<lparr>rw_synced := b\<rparr>\<rparr>)"
| "rest_step L E (Worker x) v = Some ([], v\<lparr>rv_world := (rv_world v)\<lparr>rw_exporter := x\<rparr>\<rparr>)"

text \<open>The answers along a sequence of events, \<open>None\<close> when one of them cannot happen.\<close>

fun rest_run ::
  "'l lru \<Rightarrow> ('s, 'b, 'w) rest_env \<Rightarrow> ('s, 'w) rest_event list \<Rightarrow> ('s, 'w, 'l) rest_server \<Rightarrow>
   (http_response option list \<times> ('s, 'w, 'l) rest_server) option" where
  "rest_run L E [] v = Some ([], v)"
| "rest_run L E (e # es) v =
     (case rest_step L E e v of
        None \<Rightarrow> None
      | Some (rs, v1) \<Rightarrow> map_option (\<lambda>(rs', v2). (rs @ rs', v2)) (rest_run L E es v1))"

text \<open>What the handlers answer to a request, without a cache.\<close>

definition forwarded :: "('s, 'b, 'w) rest_env \<Rightarrow> http_request \<Rightarrow> http_request" where
  "forwarded E q = (if cache_for E q = Archival then add_height E q else q)"

definition serve_plain ::
  "('s, 'b, 'w) rest_env \<Rightarrow> http_request \<Rightarrow> ('s, 'w) rest_world \<Rightarrow> http_response option \<times> ('s, 'w) rest_world" where
  "serve_plain E q w =
     (case rest_serve E w (forwarded E q) of
        Ok (r, w') \<Rightarrow> (Some r, w') | _ \<Rightarrow> (None, w))"

section \<open>One request alone\<close>

text \<open>The steps of \<open>HandleCachedHTTP\<close> for request \<open>i\<close> that starts flight \<open>f\<close>, with the feeding goroutine.\<close>

definition alone_hit :: "nat \<Rightarrow> uri \<Rightarrow> cache_action list" where
  "alone_hit i u = [Arrive u, ActReq i, ActReq i, ActReq i]"

definition alone_miss :: "nat \<Rightarrow> nat \<Rightarrow> uri \<Rightarrow> ResponseCache \<Rightarrow> cache_action list" where
  "alone_miss i f u r = [Arrive u, ActReq i, ActReq i, ActReq i, Respond i r, ActReq i, ActReq i,
     CtxDone f, ActFeed f, ActFeed f, ActFeed f, ActFeed f]"

lemma as_response_cached [simp]: "as_response (as_cached r) = r" "as_cached (as_response c) = c"
  by (simp_all add: as_response_def as_cached_def)

lemma alone_hit_run:
  assumes "lru_Get L (cb_lru (sv_cb s)) u = (Some c, l)"
  shows "\<exists>s'. cache_run L (alone_hit (length (sv_reqs s)) u) s = Some s' \<and>
    sv_reqs s' = sv_reqs s @ [\<lparr>rq_uri = u, rq_pc = ReqDone c\<rparr>] \<and>
    sv_cb s' = (sv_cb s)\<lparr>cb_serveCount := cb_serveCount (sv_cb s) + 1, cb_lru := l,
      cb_cacheServeCount := cb_cacheServeCount (sv_cb s) + 1\<rparr>"
  using assms by (simp add: alone_hit_def HandleCachedHTTP_def cb_Get_def set_req_def Let_def)

lemma alone_miss_run:
  assumes "lru_Get L (cb_lru (sv_cb s)) u = (None, l)"
    and "cb_resultChan (sv_cb s) u = None" and "cb_subscribeCount (sv_cb s) u = None"
  shows "\<exists>s'. cache_run L (alone_miss (length (sv_reqs s)) (length (sv_flights s)) u r) s = Some s' \<and>
    sv_reqs s' = sv_reqs s @ [\<lparr>rq_uri = u, rq_pc = ReqDone r\<rparr>] \<and>
    sv_cb s' = snd (cb_Set L ((sv_cb s)\<lparr>cb_serveCount := cb_serveCount (sv_cb s) + 1, cb_lru := l\<rparr>) u r)"
  using assms
  by (cases "lru_Add L l u r")
    (auto simp: alone_miss_def HandleCachedHTTP_def cb_Get_def cb_Set_def set_req_def join_flight_def upd_flight_def
      feed_subscribers_def Let_def fun_upd_idem_iff nth_append list_update_append)

section \<open>Where an answer comes from\<close>

lemma rest_run_append:
  "rest_run L E (es @ es') v =
    Option.bind (rest_run L E es v) (\<lambda>(rs, v1). map_option (\<lambda>(rs', v2). (rs @ rs', v2)) (rest_run L E es' v1))"
proof (induction es arbitrary: v)
  case (Cons e es)
  then show ?case
    by (cases "rest_step L E e v")
      (auto simp: option.map_comp comp_def case_prod_unfold map_option_bind bind_map_option intro!: Option.bind_cong
        split: option.split)
qed (simp add: option.map_id)

lemma rest_run_snoc:
  assumes "rest_run L E (es @ [e]) v0 = Some (rs, v)"
  obtains rs1 v1 rs2 where "rest_run L E es v0 = Some (rs1, v1)" "rest_step L E e v1 = Some (rs2, v)" "rs = rs1 @ rs2"
  using assms by (auto simp: rest_run_append bind_eq_Some_conv split: option.splits)

text \<open>
  Without a purge the main loop flushes at most twice: its second height is received only after the
  first one's purge.
\<close>

fun flushes :: "('s, 'w) rest_event list \<Rightarrow> nat" where
  "flushes [] = 0"
| "flushes (FlushBlock a # es) = Suc (flushes es)"
| "flushes (_ # es) = flushes es"

lemma rest_request_channel:
  "rest_request L E q v = (r, v') \<Longrightarrow> rv_sending v' = rv_sending v \<and> rv_purging v' = rv_purging v"
  by (auto simp: rest_request_def Let_def split: cache_choice.splits res.splits prod.splits)

lemma flushes_le:
  "rest_run L E es v = Some (rs, v') \<Longrightarrow> Purge \<notin> set es \<Longrightarrow>
    flushes es + (if rv_sending v then 1 else 0) + (if rv_purging v then 1 else 0) \<le> 2"
proof (induction es arbitrary: v rs)
  case (Cons e es)
  from Cons.prems obtain rs1 v1 rs2 where s: "rest_step L E e v = Some (rs1, v1)" and r: "rest_run L E es v1 = Some (rs2, v')"
    by (auto split: option.splits)
  with Cons.IH [OF r] Cons.prems(2) show ?case
    by (cases e) (auto split: if_splits prod.splits dest!: rest_request_channel)
qed simp

lemma rest_run_flushes:
  assumes "rest_run L E (es1 @ e # es2) v0 = Some (rs, v)"
  shows "Purge \<notin> set es2 \<longrightarrow> flushes es2 \<le> 2"
proof
  assume "Purge \<notin> set es2"
  moreover obtain v1 rs1 where "rest_run L E es2 v1 = Some (rs1, v)"
    using assms by (auto simp: rest_run_append bind_eq_Some_conv split: option.splits)
  ultimately show "flushes es2 \<le> 2"
    using flushes_le by fastforce
qed

text \<open>
  An answer \<open>r\<close> for the URL \<open>u\<close> stems from the events \<open>es\<close>: the handlers gave it to a request with
  that URL and cache among them, for the latest cache after the last purge.
\<close>

definition origin ::
  "'l lru \<Rightarrow> ('s, 'b, 'w) rest_env \<Rightarrow> ('s, 'w, 'l) rest_server \<Rightarrow> ('s, 'w) rest_event list \<Rightarrow> cache_choice \<Rightarrow> string \<Rightarrow>
   http_response \<Rightarrow> bool" where
  "origin L E v0 es C u r \<longleftrightarrow>
     (\<exists>es1 q es2 rs1 v1. es = es1 @ Request q # es2 \<and> hq_URL q = u \<and> cache_for E q = C \<and>
        rest_run L E es1 v0 = Some (rs1, v1) \<and> fst (serve_plain E q (rv_world v1)) = Some r \<and>
        (C = Latest \<longrightarrow> Purge \<notin> set es2))"

lemma origin_snoc:
  assumes "origin L E v0 es C u r" and "C = Latest \<Longrightarrow> e \<noteq> Purge"
  shows "origin L E v0 (es @ [e]) C u r"
proof -
  obtain es1 q es2 rs1 v1 where "es = es1 @ Request q # es2" "hq_URL q = u" "cache_for E q = C"
    "rest_run L E es1 v0 = Some (rs1, v1)" "fst (serve_plain E q (rv_world v1)) = Some r" "C = Latest \<longrightarrow> Purge \<notin> set es2"
    using assms(1) unfolding origin_def by blast
  with assms(2) have "es @ [e] = es1 @ Request q # (es2 @ [e])" "C = Latest \<longrightarrow> Purge \<notin> set (es2 @ [e])"
    by auto
  with \<open>hq_URL q = u\<close> \<open>cache_for E q = C\<close> \<open>rest_run L E es1 v0 = Some (rs1, v1)\<close>
    \<open>fst (serve_plain E q (rv_world v1)) = Some r\<close> show ?thesis
    unfolding origin_def by blast
qed

lemma origin_now:
  assumes "rest_run L E es v0 = Some (rs, v)" and "fst (serve_plain E q (rv_world v)) = Some r"
  shows "origin L E v0 (es @ [Request q]) (cache_for E q) (hq_URL q) r"
  unfolding origin_def
  by (rule exI [of _ es], rule exI [of _ q], rule exI [of _ "[]"]) (use assms in simp)

definition traced ::
  "('l \<Rightarrow> string \<rightharpoonup> ResponseCache) \<Rightarrow> 'l lru \<Rightarrow> ('s, 'b, 'w) rest_env \<Rightarrow> ('s, 'w, 'l) rest_server \<Rightarrow> ('s, 'w) rest_event list \<Rightarrow>
   ('s, 'w, 'l) rest_server \<Rightarrow> bool" where
  "traced entries L E v0 es v \<longleftrightarrow>
     (\<forall>u c. entries (cb_lru (rv_cache v)) u = Some c \<longrightarrow> origin L E v0 es Latest u (as_response c)) \<and>
     (\<forall>u c. entries (cb_lru (rv_archival v)) u = Some c \<longrightarrow> origin L E v0 es Archival u (as_response c))"

context lru_cache
begin

text \<open>The three ways through the cache: a hit, a miss, a handler that panics.\<close>

lemma handle_alone_cases:
  assumes "handle_alone L cb u served v = (resp, cb', v')"
  obtains (hit) c where "entries (cb_lru cb) u = Some c" "resp = Some (as_response c)" "entries (cb_lru cb') = entries (cb_lru cb)"
  | (miss) r w where "served = Ok (r, w)" "resp = Some r"
      "\<And>k c. entries (cb_lru cb') k = Some c \<Longrightarrow> (k = u \<and> c = as_cached r) \<or> entries (cb_lru cb) k = Some c"
  | (panics) "\<And>x. served \<noteq> Ok x" "resp = None" "entries (cb_lru cb') = entries (cb_lru cb)"
proof (cases "entries (cb_lru cb) u")
  case (Some c)
  with assms lru_Get_entries [of "cb_lru cb" u] hit show thesis
    by (cases "lru_Get L (cb_lru cb) u") (auto simp: handle_alone_def cb_Get_def Let_def)
next
  case None
  obtain l where l: "lru_Get L (cb_lru cb) u = (None, l)" "entries l = entries (cb_lru cb)"
    using lru_Get_entries [of "cb_lru cb" u] None by (cases "lru_Get L (cb_lru cb) u") auto
  show thesis
  proof (cases "\<exists>r w. served = Ok (r, w)")
    case True
    then obtain r w where r: "served = Ok (r, w)" by blast
    have "(k = u \<and> c = as_cached r) \<or> entries (cb_lru cb) k = Some c" if "entries (cb_lru cb') k = Some c" for k c
      using that assms r l lru_Add_same [of l u "as_cached r"] lru_Add_other [of k u l "as_cached r"]
      by (cases "k = u") (auto simp: handle_alone_def cb_Get_def cb_Set_def Let_def split: prod.splits if_splits)
    moreover have "resp = Some r"
      using assms r l by (auto simp: handle_alone_def cb_Get_def Let_def)
    ultimately show thesis
      using miss [OF r] by blast
  next
    case False
    with assms l panics show thesis
      by (auto simp: handle_alone_def cb_Get_def Let_def split: res.splits prod.splits)
  qed
qed

text \<open>
  The middleware with one of its caches: whatever the cache holds afterwards, and the answer, stems
  from the events up to this request.
\<close>

lemma handle_alone_origin:
  assumes "rest_run L E es v0 = Some (rs, v)"
    and "\<And>u c. entries (cb_lru cb) u = Some c \<Longrightarrow> origin L E v0 es (cache_for E q) u (as_response c)"
    and "handle_alone L cb (hq_URL q) (rest_serve E (rv_world v) (forwarded E q)) w = (resp, cb', w')"
  shows "entries (cb_lru cb') u = Some c \<Longrightarrow> origin L E v0 (es @ [Request q]) (cache_for E q) u (as_response c)"
    and "(\<exists>r. resp = Some r \<and> origin L E v0 (es @ [Request q]) (cache_for E q) (hq_URL q) r) \<or>
      resp = None \<and> fst (serve_plain E q (rv_world v)) = None"
proof -
  have old: "entries (cb_lru cb) u = Some c \<Longrightarrow> origin L E v0 (es @ [Request q]) (cache_for E q) u (as_response c)" for u c
    using assms(2) by (intro origin_snoc) auto
  have "(entries (cb_lru cb') u = Some c \<longrightarrow> origin L E v0 (es @ [Request q]) (cache_for E q) u (as_response c)) \<and>
    ((\<exists>r. resp = Some r \<and> origin L E v0 (es @ [Request q]) (cache_for E q) (hq_URL q) r) \<or>
      resp = None \<and> fst (serve_plain E q (rv_world v)) = None)"
    using assms(3)
  proof (cases rule: handle_alone_cases)
    case (hit c)
    then show ?thesis using old by auto
  next
    case (miss r w1)
    then have "origin L E v0 (es @ [Request q]) (cache_for E q) (hq_URL q) r"
      using origin_now [OF assms(1), of q r] by (simp add: serve_plain_def)
    then show ?thesis using miss(2,3) old by force
  next
    case panics
    then show ?thesis using old by (simp add: serve_plain_def split: res.splits)
  qed
  then show "entries (cb_lru cb') u = Some c \<Longrightarrow> origin L E v0 (es @ [Request q]) (cache_for E q) u (as_response c)"
    and "(\<exists>r. resp = Some r \<and> origin L E v0 (es @ [Request q]) (cache_for E q) (hq_URL q) r) \<or>
      resp = None \<and> fst (serve_plain E q (rv_world v)) = None"
    by blast+
qed

lemma traced_request:
  assumes "rest_run L E es v0 = Some (rs, v)" and "traced entries L E v0 es v" and "rest_request L E q v = (resp, v')"
  shows "traced entries L E v0 (es @ [Request q]) v' \<and>
    (resp = fst (serve_plain E q (rv_world v)) \<or>
     cache_for E q \<noteq> NoCache \<and> (\<exists>r. resp = Some r \<and> origin L E v0 (es @ [Request q]) (cache_for E q) (hq_URL q) r))"
proof -
  have keep: "origin L E v0 es C u r \<Longrightarrow> origin L E v0 (es @ [Request q]) C u r" for C u r
    by (rule origin_snoc) auto
  show ?thesis
  proof (cases "cache_for E q")
    case NoCache
    then show ?thesis
      using assms(2,3) keep
      by (auto simp: rest_request_def serve_plain_def forwarded_def traced_def Let_def split: res.splits prod.splits)
  next
    case Archival
    then obtain cb w where h: "handle_alone L (rv_archival v) (hq_URL q) (rest_serve E (rv_world v) (forwarded E q)) (rv_world v) = (resp, cb, w)"
      and v': "v' = v\<lparr>rv_archival := cb, rv_world := w\<rparr>"
      using assms(3) by (auto simp: rest_request_def forwarded_def Let_def split: prod.splits)
    have "\<And>u c. entries (cb_lru (rv_archival v)) u = Some c \<Longrightarrow> origin L E v0 es (cache_for E q) u (as_response c)"
      using assms(2) Archival by (simp add: traced_def)
    note o = handle_alone_origin [OF assms(1) this h]
    show ?thesis
      using o(1) o(2) assms(2) keep Archival by (auto simp: v' traced_def)
  next
    case Latest
    then obtain cb w where h: "handle_alone L (rv_cache v) (hq_URL q) (rest_serve E (rv_world v) (forwarded E q)) (rv_world v) = (resp, cb, w)"
      and v': "v' = v\<lparr>rv_cache := cb, rv_world := w\<rparr>"
      using assms(3) by (auto simp: rest_request_def forwarded_def Let_def split: prod.splits)
    have "\<And>u c. entries (cb_lru (rv_cache v)) u = Some c \<Longrightarrow> origin L E v0 es (cache_for E q) u (as_response c)"
      using assms(2) Latest by (simp add: traced_def)
    note o = handle_alone_origin [OF assms(1) this h]
    show ?thesis
      using o(1) o(2) assms(2) keep Latest by (auto simp: v' traced_def)
  qed
qed

lemma traced_step:
  assumes "rest_run L E es v0 = Some (rs, v)" and "traced entries L E v0 es v" and "rest_step L E e v = Some (rs', v')"
  shows "traced entries L E v0 (es @ [e]) v'"
proof (cases e)
  case (Request q)
  then show ?thesis
    using traced_request [OF assms(1,2)] assms(3) by (auto split: prod.splits)
next
  case Purge
  then show ?thesis
    using assms(2,3)
    by (auto simp: traced_def invalidate_caches_def cb_Purge_def lru_Purge_empty split: if_splits intro!: origin_snoc)
qed (use assms(2,3) in \<open>auto simp: traced_def split: if_splits intro: origin_snoc\<close>)

lemma traced_run:
  "entries (cb_lru (rv_cache v0)) = Map.empty \<Longrightarrow> entries (cb_lru (rv_archival v0)) = Map.empty \<Longrightarrow>
    rest_run L E es v0 = Some (rs, v) \<Longrightarrow> traced entries L E v0 es v"
proof (induction es arbitrary: rs v rule: rev_induct)
  case (snoc e es)
  obtain rs1 v1 rs2 where "rest_run L E es v0 = Some (rs1, v1)" "rest_step L E e v1 = Some (rs2, v)"
    by (rule rest_run_snoc [OF snoc.prems(3)])
  then show ?case
    by (intro traced_step [OF _ snoc.IH [OF snoc.prems(1,2)]])
qed (simp add: traced_def)

end

section \<open>Properties\<close>

text \<open>
  A router for samples: it compares the segments of pattern and path, where a segment in braces
  matches any that is not empty. Every other path belongs to the application.
\<close>

fun sample_match :: "string list \<Rightarrow> string list \<Rightarrow> (string \<times> string) list option" where
  "sample_match [] [] = Some []"
| "sample_match (p # ps) (x # xs) =
     (if take 1 p = ''{'' then if x = [] then None else map_option ((#) (butlast (tl p), x)) (sample_match ps xs)
      else if p = x then sample_match ps xs else None)"
| "sample_match ps xs = None"

fun sample_mux :: "route list \<Rightarrow> string \<Rightarrow> string \<Rightarrow> mux_result" where
  "sample_mux [] method path = AppRoute"
| "sample_mux ((pattern, methods, handler) # routes) method path =
     (case sample_match (Split pattern CHR ''/'') (Split path CHR ''/'') of
        Some vars \<Rightarrow> if methods = [] \<or> method \<in> set methods then Found handler vars else sample_mux routes method path
      | None \<Rightarrow> sample_mux routes method path)"

text \<open>
  An application that answers with the height it has reached, or with the height in the header if it
  has reached that.
\<close>

definition sample_app :: "nat \<Rightarrow> http_request \<Rightarrow> http_response" where
  "sample_app w q =
     (case hq_blockHeight q of
        [] \<Rightarrow> http_OK [of_nat w]
      | h # hs \<Rightarrow>
          (case Atoi h of
             Ok n \<Rightarrow> if n \<le> int w then http_OK (bytes_of h) else http_Error ''height in the future'' 400
           | _ \<Rightarrow> http_Error ''height'' 400))"

definition sample_rest :: "(mem_store, mem_batch, nat) rest_env" where
  "sample_rest = \<lparr>re_mux = sample_mux, re_noRoute = (\<lambda>q. http_Error ''404 page not found'' 404),
     re_path = takeWhile (\<lambda>c. c \<noteq> CHR ''?''), re_height = (\<lambda>u. drop 8 (dropWhile (\<lambda>c. c \<noteq> CHR ''?'') u)),
     re_codec = sample_codec, re_db = mem_db, re_snappy = NewSnappyDB CompatModeEnabled,
     re_cfg = \<lparr>cfg_GenesisPath = ''g'', cfg_Home = ''h'', cfg_ChainID = ''c'', cfg_RPCEndpoints = [''a''],
       cfg_WSEndpoints = [''w''], cfg_MantlemintDB = ''m'', cfg_IndexerDB = ''i'', cfg_DisableSync = False,
       cfg_EnableExportModule = True, cfg_RichlistLength = 0, cfg_RichlistThreshold = None\<rparr>,
     re_terra = (\<lambda>w. sample_terra), re_now = (\<lambda>w. 0), re_app = sample_app\<rparr>"

definition sample_world :: "nat \<Rightarrow> (mem_store, nat) rest_world" where
  "sample_world n = \<lparr>rw_index = [], rw_exporter = \<lparr>IsAccountExportWorkerRunning = False, ex_pending = 0, ex_workers = 0,
     ex_file = None\<rparr>, rw_synced = False, rw_app = n\<rparr>"

definition sample_server :: "(mem_store, nat, lru_list) rest_server" where
  "sample_server = rest_start (sample_world 0) sample_cb (sample_cb\<lparr>cb_cacheType := ''archival''\<rparr>)"

definition get_request :: "string \<Rightarrow> http_request" where
  "get_request u = \<lparr>hq_Method = ''GET'', hq_URL = u, hq_blockHeight = []\<rparr>"

text \<open>
  C38. \<open>HandleCachedHTTP\<close> for a request that meets no other request for its URI: there is a run of
  the request and its feeding goroutine that ends with the answer of the cache, or with the
  handler's answer, which is then stored; afterwards the backend has no trace of the flight.
\<close>

theorem lone_request:
  assumes "cb_resultChan (sv_cb s) u = None" and "cb_subscribeCount (sv_cb s) u = None"
    and "handle_alone L (sv_cb s) u (Ok (r, v1)) v = (resp, cb', v')"
  shows "\<exists>as s' c. cache_run L as s = Some s' \<and> sv_reqs s' = sv_reqs s @ [\<lparr>rq_uri = u, rq_pc = ReqDone c\<rparr>] \<and>
    resp = Some (as_response c) \<and> sv_cb s' = cb'"
proof (cases "lru_Get L (cb_lru (sv_cb s)) u")
  case (Pair cached l)
  show ?thesis
  proof (cases cached)
    case None
    then show ?thesis
      using alone_miss_run [of L s u l "as_cached r"] assms Pair
      by (fastforce simp: handle_alone_def cb_Get_def Let_def)
  next
    case (Some c)
    then show ?thesis
      using alone_hit_run [of L s u c l] assms(3) Pair
      by (fastforce simp: handle_alone_def cb_Get_def Let_def)
  qed
qed

theorem lone_request_witness:
  "\<exists>as s' c. cache_run list_lru as (server_init sample_cb) = Some s' \<and>
    sv_reqs s' = [\<lparr>rq_uri = ''/a'', rq_pc = ReqDone c\<rparr>] \<and> as_response c = http_OK [7]"
proof -
  obtain resp cb' v' where h: "handle_alone list_lru sample_cb ''/a'' (Ok (http_OK [7], ())) () = (resp, cb', v')"
    by (cases "handle_alone list_lru sample_cb ''/a'' (Ok (http_OK [7], ())) ()")
  moreover have "fst (handle_alone list_lru sample_cb ''/a'' (Ok (http_OK [7], ())) ()) = Some (http_OK [7])"
    by code_simp
  ultimately show ?thesis
    using lone_request [of "server_init sample_cb" "''/a''" list_lru "http_OK [7]" "()" "()" resp cb' v']
    by (fastforce simp: server_init_def sample_cb_def)
qed

text \<open>
  C17. Freshness of the answers over any sequence of requests, blocks and purges in which requests
  are handled one after the other: an answer is what the handlers gave to a request for the
  same URL behind the same cache, the request itself or an earlier one, in the state of that moment.
  Without a cache, and when there is no answer because the handler panics, it is the request itself. An answer
  of the latest cache was given after the last purge, and the node has flushed at most two blocks
  since. The archival cache is never purged, so that its answers may come from any earlier moment.
\<close>

theorem caches_fresh:
  assumes "lru_cache L entries" and "NewCacheBackend L n ''latest'' = Ok cache" and "NewCacheBackend L n ''archival'' = Ok archival"
    and "rest_run L E (es @ [Request q]) (rest_start w cache archival) = Some (rs @ [resp], v)"
  shows "\<exists>es1 q' es2 rs1 v1. es @ [Request q] = es1 @ Request q' # es2 \<and> hq_URL q' = hq_URL q \<and> cache_for E q' = cache_for E q \<and>
    rest_run L E es1 (rest_start w cache archival) = Some (rs1, v1) \<and> resp = fst (serve_plain E q' (rv_world v1)) \<and>
    (cache_for E q = NoCache \<or> resp = None \<longrightarrow> es2 = []) \<and>
    (cache_for E q = Latest \<longrightarrow> Purge \<notin> set es2 \<and> flushes es2 \<le> 2)"
proof -
  let ?v0 = "rest_start w cache archival"
  have empty: "entries (cb_lru (rv_cache ?v0)) = Map.empty" "entries (cb_lru (rv_archival ?v0)) = Map.empty"
    using assms(2,3) lru_cache.lru_New_empty [OF assms(1)] by (auto simp: NewCacheBackend_def rest_start_def split: res.splits)
  obtain rs1 v1 where run: "rest_run L E es ?v0 = Some (rs1, v1)" and request: "rest_request L E q v1 = (resp, v)"
    by (rule rest_run_snoc [OF assms(4)]) (auto split: prod.splits)
  from lru_cache.traced_request [OF assms(1) run lru_cache.traced_run [OF assms(1) empty run] request]
  show ?thesis
  proof (elim conjE disjE exE)
    assume "resp = fst (serve_plain E q (rv_world v1))"
    then show ?thesis
      using run by (intro exI [of _ es] exI [of _ q] exI [of _ "[]"] exI [of _ rs1] exI [of _ v1]) simp
  next
    fix r
    assume r: "cache_for E q \<noteq> NoCache" "resp = Some r" "origin L E ?v0 (es @ [Request q]) (cache_for E q) (hq_URL q) r"
    then obtain es1 q' es2 rs2 v2 where o: "es @ [Request q] = es1 @ Request q' # es2" "hq_URL q' = hq_URL q"
      "cache_for E q' = cache_for E q" "rest_run L E es1 ?v0 = Some (rs2, v2)" "fst (serve_plain E q' (rv_world v2)) = Some r"
      "cache_for E q = Latest \<longrightarrow> Purge \<notin> set es2"
      unfolding origin_def by blast
    have "Purge \<notin> set es2 \<longrightarrow> flushes es2 \<le> 2"
      by (rule rest_run_flushes [of L E es1 "Request q'" es2]) (use assms(4) o(1) in simp)
    with o r(1,2) show ?thesis
      by (intro exI [of _ es1] exI [of _ q'] exI [of _ es2] exI [of _ rs2] exI [of _ v2]) auto
  qed
qed

text \<open>Two blocks are flushed, and the first one's purge is still to come: the answer is from before both.\<close>

theorem caches_fresh_witness:
  "\<exists>v es1 q' es2 rs1 v1.
    rest_run list_lru sample_rest ([Request (get_request ''/a''), FlushBlock 1, Receive, FlushBlock 2] @ [Request (get_request ''/a'')])
      sample_server = Some ([Some (http_OK [0])] @ [Some (http_OK [0])], v) \<and>
    [Request (get_request ''/a''), FlushBlock 1, Receive, FlushBlock 2] @ [Request (get_request ''/a'')] = es1 @ Request q' # es2 \<and>
    hq_URL q' = ''/a'' \<and> cache_for sample_rest q' = Latest \<and>
    rest_run list_lru sample_rest es1 sample_server = Some (rs1, v1) \<and>
    fst (serve_plain sample_rest q' (rv_world v1)) = Some (http_OK [0]) \<and> Purge \<notin> set es2 \<and> flushes es2 \<le> 2"
proof -
  let ?es = "[Request (get_request ''/a''), FlushBlock 1, Receive, FlushBlock 2]" and ?q = "get_request ''/a''"
  have new: "NewCacheBackend list_lru 2 ''archival'' = Ok (sample_cb\<lparr>cb_cacheType := ''archival''\<rparr>)"
    by (simp add: NewCacheBackend_def list_lru_def sample_cb_def)
  have "map_option fst (rest_run list_lru sample_rest (?es @ [Request ?q]) sample_server) =
      Some ([Some (http_OK [0])] @ [Some (http_OK [0])])"
    by code_simp
  then obtain v where run: "rest_run list_lru sample_rest (?es @ [Request ?q]) sample_server =
      Some ([Some (http_OK [0])] @ [Some (http_OK [0])], v)"
    by (auto simp del: append.simps rest_run.simps)
  have q: "cache_for sample_rest ?q = Latest" "hq_URL ?q = ''/a''"
    by code_simp+
  show ?thesis
    using caches_fresh [OF list_cache.lru_cache_axioms sample_cb_new new run [unfolded sample_server_def]] run
    unfolding q sample_server_def [symmetric] by metis
qed

text \<open>
  The cache looks at the URL only. A request that carries the gateway's height header leaves the
  old state behind as the latest one; a second request to export is answered by the first
  one's response, although the handler would refuse it; and the archival cache keeps the answer to a
  height that was in the future after the height has been reached.
\<close>

theorem cache_ignores_header:
  "map_option fst (rest_run list_lru sample_rest
      [FlushBlock 7, Request ((get_request ''/a'')\<lparr>hq_blockHeight := [''3'']\<rparr>), Request (get_request ''/a'')] sample_server) =
    Some [Some (http_OK (bytes_of ''3'')), Some (http_OK (bytes_of ''3''))] \<and>
   fst (serve_plain sample_rest (get_request ''/a'') (sample_world 7)) = Some (http_OK [7])"
  by code_simp

definition export_request :: http_request where
  "export_request = \<lparr>hq_Method = ''POST'', hq_URL = ''/export/accounts'', hq_blockHeight = []\<rparr>"

theorem cache_ignores_method:
  "map_option (map (map_option hr_Status) \<circ> fst) (rest_run list_lru sample_rest [Request export_request, Request export_request] sample_server) =
    Some [Some 200, Some 200] \<and>
   map_option hr_Status (fst (serve_plain sample_rest export_request (snd (serve_plain sample_rest export_request (sample_world 0))))) = Some 409"
  by code_simp

theorem archival_keeps_early_answer:
  "map_option (map (map_option hr_Status) \<circ> fst) (rest_run list_lru sample_rest
      [Request (get_request ''/a?height=5''), FlushBlock 7, Receive, Purge, Request (get_request ''/a?height=5'')] sample_server) =
    Some [Some 400, Some 400] \<and>
   fst (serve_plain sample_rest (get_request ''/a?height=5'') (sample_world 7)) = Some (http_OK (bytes_of ''5''))"
  by code_simp

end
