(* ===== verification/Node_Main.thy ===== *)
theory Node_Main
  imports Sync_Correct Config Block_Feed_Correct
begin

text \<open>
  \<open>main\<close> of \<open>src/sync.go\<close> as a whole: the stack of databases is built over a LevelDB session, the
  application and the instance are created, genesis is written, and the feed is subscribed from
  the height the node is at. The application of the SDK is a program over the database. The
  lemmas join the start, the feed and the main loop.
\<close>

section \<open>Definitions\<close>

definition new_stack :: "'s \<Rightarrow> ('s hworld, 'b level_batch) SafeBatchDB" where
  "new_stack s = NewSafeBatchDB (s, ApplyHeightLimitedDB True)"

definition node_driver :: driver where
  "node_driver = \<lparr>drv_mode = DriverModeKeySuffixDesc\<rparr>"

text \<open>\<open>newApp\<close> is the creation of the application, which loads the multi-store.\<close>

definition new_instance :: "('m, 'x, 'gen) tm_library \<Rightarrow> unit prog \<Rightarrow> ('m, 'x) Instance prog" where
  "new_instance T newApp = bind_prog newApp (\<lambda>_. NewMantlemint T None None)"

text \<open>
  Up to the loop. A panic before there is an instance has no state of the loop. \<open>i\<close> and \<open>g\<close> are the indexers' database
  and memory.
\<close>

definition main_start ::
  "('s, 'b, 'm, 'x, 'gen, 'i, 'ib, 'g) sync_env \<Rightarrow> unit prog \<Rightarrow> 'gen \<Rightarrow> int64 \<Rightarrow> 'i \<Rightarrow> 'g \<Rightarrow> 's \<Rightarrow>
   ('s, 'b, 'm, 'x, 'i, 'g) sync outcome + string" where
  "main_start E newApp genesisDoc initialHeight i g s =
     (case run_prog (node_db (se_session E) (se_driver E)) (new_instance (se_tm E) newApp) (new_stack s, []) of
        Crashed p c \<Rightarrow> Inr p
      | Returned mm c \<Rightarrow> Inl (sync_genesis E
          \<lparr>sy_node = fst c, sy_mm = mm, sy_rollback = None, sy_index = i, sy_memory = g, sy_invalidated = []\<rparr>
          genesisDoc initialHeight))"

text \<open>The subscription; without it the process waits forever.\<close>

definition main_feed :: "Config \<Rightarrow> ('s, 'b, 'm, 'x, 'i, 'g) sync \<Rightarrow> 'x feed option" where
  "main_feed cfg y =
     (if cfg_DisableSync cfg then None
      else Some (feed_init (NewAggregateBlockFeed (GetCurrentHeight (sy_mm y)) (cfg_RPCEndpoints cfg) (cfg_WSEndpoints cfg))))"

text \<open>What the loop has received from the feed.\<close>

definition received :: "'x feed \<Rightarrow> ('x tm_block \<times> block_id option) list" where
  "received s = List.map_filter (\<lambda>r. map_option (\<lambda>block. (block, bres_BlockID r)) (bres_Block r)) (fd_out s)"

section \<open>Start\<close>

text \<open>Library code as the node relies on it at the start: loading only reads, replaying stays within the keys.\<close>

definition start_ok :: "bytes set \<Rightarrow> ('m, 'x, 'gen) tm_library \<Rightarrow> unit prog \<Rightarrow> bool" where
  "start_ok K T newApp \<longleftrightarrow> (\<forall>m. reads_only K m newApp \<and> reads_only K m (tm_LoadState T)) \<and>
     (\<forall>st gen. prog_ok K True (tm_ReplayBlocks T st gen))"

lemma reads_new_instance: "start_ok K T newApp \<Longrightarrow> reads_only K m (new_instance T newApp)"
  unfolding new_instance_def NewMantlemint_def by (intro reads_only_bind) (auto simp: start_ok_def intro!: reads_only_bind split: sum.split)

lemma reads_LoadInitialState: "start_ok K T newApp \<Longrightarrow> reads_only K m (LoadInitialState T mm)"
  unfolding LoadInitialState_def by (intro reads_only_bind) (auto simp: start_ok_def Let_def split: sum.split)

lemma mm_Init_ok: "start_ok K T newApp \<Longrightarrow> prog_ok K True (mm_Init T mm genesis)"
  unfolding mm_Init_def by (auto simp: start_ok_def Let_def intro!: prog_ok_bind split: sum.split)

context node_stack
begin

lemma reader: "kv_read (node_db S d) (hld_view (driver_view contents d)) (reader_inv (driver_ok contents d K)) K"
  by (rule node_reader [OF level_session_axioms universe])

lemma run_reads_node:
  assumes "reader_inv (driver_ok contents d K) (sb_store w)"
    and "reads_only K (hld_view (driver_view contents d) (sb_store w)) g"
    and "run_prog (node_db S d) g (w, []) = Returned x c"
  shows "c = (w, [])"
  using kv_read.run_reads [OF reader, of "(w, [])" g 0] assms
  by (auto split: res.splits)

text \<open>Loading changes only the instance and the write height.\<close>

lemma load_idle:
  assumes "start_ok K (se_tm E) newApp" and "se_session E = S" and "se_driver E = d"
    and "idle contents d K t y" and "sync_load E y = Running y'"
  shows "idle contents d K t y'" and "disk contents d y' = disk contents d y" and "sy_rollback y' = sy_rollback y"
proof -
  have inv: "reader_inv (driver_ok contents d K) (sb_store (sy_node y))"
    using assms(4) by (auto simp: idle_def reader_inv_def)
  obtain mm c where run: "run_prog (node_db S d) (LoadInitialState (se_tm E) (sy_mm y)) (sy_node y, []) = Returned (mm, None) c"
    and y': "y' = y\<lparr>sy_node := on_hldb (\<lambda>hl. snd (ClearWriteHeight hl)) (fst c), sy_mm := mm\<rparr>"
    using assms(2,3,5) by (auto simp: sync_load_def split: run.splits option.splits)
  have "c = (sy_node y, [])"
    by (rule run_reads_node [OF inv reads_LoadInitialState [OF assms(1)] run])
  then show "idle contents d K t y'" and "disk contents d y' = disk contents d y" and "sy_rollback y' = sy_rollback y"
    using assms(4) y' by (auto simp: idle_def disk_def on_hldb_def ClearWriteHeight_def)
qed

text \<open>A flush of a batch to which nothing was written, at any height.\<close>

lemma empty_flush:
  assumes "driver_ok contents d K (fst (sb_store w)) t"
  shows "\<exists>r w'. sb_Flush (node_db S d) level_rollback (sb_Open (node_db S d) w) = Ok (Some r, None, w') \<and>
    driver_ok contents d K (fst (sb_store w')) t \<and> snd (sb_store w') = snd (sb_store w) \<and>
    driver_view contents d (fst (sb_store w')) = driver_view contents d (fst (sb_store w))"
proof -
  let ?b = "tm_NewBatch (node_db S d) (sb_store w)"
  have b: "?b = NewLevelDBBatch S (fst (sb_store w)) (hl_writeHeight (snd (sb_store w))) d"
    by (simp add: node_db_def hld_db_def hld_op_defs driver_db_def driver_NewBatch_def)
  obtain s' b' where w: "lb_WriteSync S (fst (sb_store w)) ?b = Ok (s', b')" and c: "contents s' = contents (fst (sb_store w))"
    using lb_write_holds [OF lb_holds_new] by (fastforce simp: b)
  obtain b'' where "batch_Close (node_db S d) b' = Ok b''"
    using stack.close_ok by (auto simp: node_db_def hld_db_def)
  with w have "sb_Flush (node_db S d) level_rollback (sb_Open (node_db S d) w) = Ok (Some (lb_RollbackBatch ?b), None,
      (sb_Open (node_db S d) w)\<lparr>sb_store := (s', snd (sb_store w)),
        sb_heap := (sb_heap (sb_Open (node_db S d) w))[length (sb_heap w) := b''], sb_batch := None\<rparr>)"
    by (simp add: sb_Flush_def sb_Open_def sb_release_def level_rollback_def node_db_def hld_db_def driver_db_def)
  moreover have "driver_ok contents d K s' t"
    using assms by (simp add: driver_ok_def c)
  moreover have "driver_view contents d s' = driver_view contents d (fst (sb_store w))"
    by (intro ext) (simp add: driver_view_def c)
  ultimately show ?thesis by fastforce
qed

text \<open>Genesis went through: it was run on the batch of the initial height, flushed, and the state was loaded.\<close>

lemma genesis_running:
  assumes "sync_genesis E y gen h = Running y'"
  obtains mm c r w where
    "run_prog (node_db (se_session E) (se_driver E)) (mm_Init (se_tm E) (sy_mm y) gen)
      (sb_Open (node_db (se_session E) (se_driver E)) (opened y h), []) = Returned (mm, None) c"
    "sb_Flush (node_db (se_session E) (se_driver E)) level_rollback (fst c) = Ok (r, None, w)"
    "sync_load E (y\<lparr>sy_mm := mm, sy_node := w\<rparr>) = Running y'"
  using assms
  by (auto simp: sync_genesis_def Let_def opened_def split: run.splits option.splits res.splits prod.splits)

text \<open>On a new chain what replaying writes is stored at the initial height.\<close>

lemma genesis_new:
  assumes "start_ok K (se_tm E) newApp" and "se_session E = S" and "se_driver E = d"
    and "idle contents d K t y" and "next_height t h" and "sync_genesis E y gen h = Running y'"
  shows "\<exists>mm qs n. spec_prog (disk contents d y 0) (mm_Init (se_tm E) (sy_mm y) gen) 0 = Ok ((mm, None), qs, n) \<and>
    idle contents d K (unat h) y' \<and> sy_rollback y' = sy_rollback y \<and>
    disk contents d y' = (\<lambda>h'. if h' \<noteq> 0 \<and> unat h' < unat h then disk contents d y h'
      else apply_ops qs (disk contents d y h'))"
proof -
  note w0 = opened_writer [OF assms(4,5)]
  obtain mm c r w where run: "run_prog (node_db S d) (mm_Init (se_tm E) (sy_mm y) gen) (sb_Open (node_db S d) (opened y h), []) =
      Returned (mm, None) c"
    and fl: "sb_Flush (node_db S d) level_rollback (fst c) = Ok (r, None, w)"
    and ld: "sync_load E (y\<lparr>sy_mm := mm, sy_node := w\<rparr>) = Running y'"
    using genesis_running [OF assms(6)] assms(2,3) by metis
  show ?thesis
    using w0(1) mm_Init_ok [OF assms(1), of "sy_mm y" gen]
  proof (cases rule: stack.node.run_open_cases)
    case (ok x qs c')
    then have x: "x = (mm, None)" and c': "c' = c"
      using run by (simp_all add: node_db_def)
    let ?y1 = "y\<lparr>sy_mm := mm, sy_node := w\<rparr>"
    from flush_at [OF assms(4,5) ok(3)] fl c'
    have y1: "idle contents d K (unat h) ?y1" and view: "disk contents d ?y1 =
        (\<lambda>h'. if h' \<noteq> 0 \<and> unat h' < unat h then disk contents d y h' else apply_ops qs (disk contents d y h'))"
      using assms(4) by (auto simp: idle_def disk_def opened_def on_hldb_def SetWriteHeight_def)
    have "spec_prog (disk contents d y 0) (mm_Init (se_tm E) (sy_mm y) gen) 0 = Ok ((mm, None), qs, length (snd c))"
      using ok(1) x c' w0(4) by simp
    moreover have "sy_rollback y' = sy_rollback y"
      using load_idle(3) [OF assms(1-3) y1 ld] by simp
    ultimately show ?thesis
      using load_idle(1,2) [OF assms(1-3) y1 ld] view by auto
  next
    case (panic e qs c')
    then show ?thesis
      using run by (simp add: node_db_def)
  qed
qed

text \<open>On a chain with blocks nothing is written.\<close>

lemma genesis_resumed:
  assumes "start_ok K (se_tm E) newApp" and "se_session E = S" and "se_driver E = d"
    and "idle contents d K t y" and "mm_lastHeight (sy_mm y) \<noteq> 0" and "sync_genesis E y gen h = Running y'"
  shows "idle contents d K t y' \<and> sy_rollback y' = sy_rollback y \<and> disk contents d y' = disk contents d y"
proof -
  obtain mm c r w where run: "run_prog (node_db S d) (mm_Init (se_tm E) (sy_mm y) gen) (sb_Open (node_db S d) (opened y h), []) =
      Returned (mm, None) c"
    and fl: "sb_Flush (node_db S d) level_rollback (fst c) = Ok (r, None, w)"
    and ld: "sync_load E (y\<lparr>sy_mm := mm, sy_node := w\<rparr>) = Running y'"
    using genesis_running [OF assms(6)] assms(2,3) by metis
  have c: "fst c = sb_Open (node_db S d) (opened y h)"
    using run assms(5) by (auto simp: mm_Init_def)
  have y: "driver_ok contents d K (fst (sb_store (opened y h))) t" "hl_readHeight (snd (sb_store (opened y h))) = 0"
    "fst (sb_store (opened y h)) = fst (sb_store (sy_node y))"
    using assms(4) by (simp_all add: idle_def opened_def on_hldb_def SetWriteHeight_def)
  let ?y1 = "y\<lparr>sy_mm := mm, sy_node := w\<rparr>"
  from empty_flush [OF y(1)] fl y(2,3)
  have y1: "idle contents d K t ?y1" and view: "disk contents d ?y1 = disk contents d y"
    by (auto simp: c idle_def disk_def)
  with load_idle [OF assms(1-3) y1 ld] show ?thesis by simp
qed

text \<open>The whole start.\<close>

lemma start_running:
  assumes "start_ok K (se_tm E) newApp" and "se_session E = S" and "se_driver E = d"
    and "driver_ok contents d K s t"
    and "main_start E newApp gen h i g s = Inl (Running y)"
  obtains mm qs n y0 where
    "spec_prog (driver_view contents d s 0) (new_instance (se_tm E) newApp) 0 = Ok (mm, qs, n)"
    "idle contents d K t y0" "sy_mm y0 = mm" "sy_rollback y0 = None" "disk contents d y0 = driver_view contents d s"
    "sync_genesis E y0 gen h = Running y"
proof -
  let ?w = "new_stack s :: ('s hworld, 'b level_batch) SafeBatchDB"
  have w: "sb_store ?w = (s, ApplyHeightLimitedDB True)" "hl_readHeight (ApplyHeightLimitedDB True) = 0"
    by (simp_all add: new_stack_def NewSafeBatchDB_def ApplyHeightLimitedDB_def)
  obtain mm c where run: "run_prog (node_db S d) (new_instance (se_tm E) newApp) (?w, []) = Returned mm c"
    and y: "sync_genesis E \<lparr>sy_node = fst c, sy_mm = mm, sy_rollback = None, sy_index = i, sy_memory = g,
      sy_invalidated = []\<rparr> gen h = Running y"
    using assms(2,3,5) by (auto simp: main_start_def split: run.splits)
  have inv: "reader_inv (driver_ok contents d K) (sb_store ?w)"
    using assms(4) w by (auto simp: reader_inv_def)
  note rd = reads_new_instance [OF assms(1)]
  have c: "c = (?w, [])"
    by (rule run_reads_node [OF inv rd run])
  from kv_read.run_reads [OF reader, of "(?w, [])" "new_instance (se_tm E) newApp" 0] inv rd run w obtain qs n where
    "spec_prog (driver_view contents d s 0) (new_instance (se_tm E) newApp) 0 = Ok (mm, qs, n)"
    by (auto simp: hld_view_def split: res.splits)
  then show thesis
    by (rule that [OF _ _ _ _ _ y]) (use assms(4) w in \<open>simp_all add: c idle_def disk_def\<close>)
qed

end

section \<open>The feed and the loop\<close>

lemma received_blocks:
  assumes "map bres_Block (fd_out s) = map (\<lambda>i. Some (f i)) [0..<length (fd_out s)]"
  shows "map fst (received s) = map f [0..<length (fd_out s)]"
proof -
  have "map bres_Block rs = map (\<lambda>i. Some (f i)) is \<Longrightarrow>
      map fst (List.map_filter (\<lambda>r. map_option (\<lambda>block. (block, bres_BlockID r)) (bres_Block r)) rs) = map f is" for rs "is"
    by (induction rs arbitrary: "is") (auto simp: Cons_eq_map_conv)
  then show ?thesis
    using assms by (simp add: received_def)
qed

lemma unat_word_small: "n < 2 ^ 63 \<Longrightarrow> unat (of_nat n :: int64) = n"
  by (simp add: unat_of_nat)

text \<open>Consecutive blocks of the chain are a feed for the loop.\<close>

lemma feed_ok_chain:
  assumes "\<And>n. n < 2 ^ 63 \<Longrightarrow> blk_Height (chain n) = of_nat n"
  shows "map fst feed = map (\<lambda>i. chain (n + i)) [0..<length feed] \<Longrightarrow> t \<le> n \<Longrightarrow> 0 < n \<Longrightarrow>
    n + length feed \<le> 2 ^ 56 - 1 \<Longrightarrow> feed_ok t feed"
proof (induction feed arbitrary: n t)
  case (Cons x feed)
  obtain block bid where x: "x = (block, bid)" by (cases x)
  have "block = chain n" and rest: "map fst feed = map (\<lambda>i. chain (Suc n + i)) [0..<length feed]"
    using Cons.prems(1) x by (simp_all add: map_upt_Suc del: upt_Suc)
  then have h: "blk_Height block = of_nat n" "unat (of_nat n :: int64) = n"
    using assms [of n] Cons.prems(4) by (simp_all add: unat_of_nat)
  then have "next_height t (blk_Height block)"
    using Cons.prems by (auto simp: next_height_def valid_height_def)
  moreover have "feed_ok n feed"
    using Cons.IH [OF rest] Cons.prems by simp
  ultimately show ?case
    using h by (simp add: x)
qed simp

lemma chain_heights:
  assumes "map fst feed = map (\<lambda>i. chain (n + 1 + i)) [0..<length feed]"
    and "\<And>n. n < 2 ^ 63 \<Longrightarrow> blk_Height (chain n) = of_nat n" and "n + length feed < 2 ^ 56 - 1"
  shows "x \<in> set feed \<Longrightarrow> n < unat (blk_Height (fst x))"
    and "feed \<noteq> [] \<Longrightarrow> unat (blk_Height (fst (last feed))) = n + length feed"
proof -
  have h: "unat (blk_Height (chain (n + 1 + i))) = n + 1 + i" if "i < length feed" for i
    using assms(2) [of "n + 1 + i"] unat_word_small [of "n + 1 + i"] assms(3) that by simp
  show "n < unat (blk_Height (fst x))" if "x \<in> set feed"
  proof -
    have "fst x \<in> set (map fst feed)"
      using that by simp
    then show ?thesis
      unfolding assms(1) using h by auto
  qed
  show "unat (blk_Height (fst (last feed))) = n + length feed" if "feed \<noteq> []"
  proof -
    have "fst (last feed) = last (map fst feed)"
      using that by (simp add: last_map)
    also have "\<dots> = chain (n + 1 + (length feed - 1))"
      using that by (cases "length feed") (auto simp: assms(1))
    finally show ?thesis
      using h [of "length feed - 1"] that by simp
  qed
qed

lemma foldl_height: "feed \<noteq> [] \<Longrightarrow>
    foldl (\<lambda>t x. unat (blk_Height (fst x))) t feed = unat (blk_Height (fst (last feed)))"
  by (induction feed arbitrary: t) auto

text \<open>What the loop receives on a network that answers as documented.\<close>

lemma received_chain:
  assumes "honest_network N chain start (cfg_RPCEndpoints cfg) n0" and "GetCurrentHeight (sy_mm y) = of_nat n0"
    and "main_feed cfg y = Some f" and "feed_reach N f s" and "n0 + length (fd_out s) < 2 ^ 56 - 1" and "t \<le> n0 + 1"
  shows "map fst (received s) = map (\<lambda>i. chain (n0 + 1 + i)) [0..<length (fd_out s)]"
    and "length (received s) = length (fd_out s)" and "feed_ok t (received s)"
proof -
  have "feed_reach N (feed_init (NewAggregateBlockFeed (of_nat n0) (cfg_RPCEndpoints cfg) (cfg_WSEndpoints cfg))) s"
    using assms(2-4) by (auto simp: main_feed_def split: if_splits)
  from honest_network.inv_reach [OF assms(1) this]
  show blocks: "map fst (received s) = map (\<lambda>i. chain (n0 + 1 + i)) [0..<length (fd_out s)]"
    by (intro received_blocks) (simp add: feed_inv_def)
  show len: "length (received s) = length (fd_out s)"
    using arg_cong [OF blocks, of length] by simp
  show "feed_ok t (received s)"
    using feed_ok_chain [of chain "received s" "n0 + 1" t] honest_network.chain_height [OF assms(1)] blocks len assms(5,6)
    by simp
qed

section \<open>Properties\<close>

text \<open>
  C36. A start that goes through leaves the node ready: no rollback batch is kept, and the store
  is well-formed. On a chain without blocks the database is what the replay of genesis writes, at
  the initial height and with nothing below it touched; on a chain with blocks genesis writes
  nothing and the database is the one found.
\<close>

theorem node_starts:
  assumes "level_session (se_session E) contents pending" and "key_universe (drv_mode (se_driver E)) K"
    and "start_ok K (se_tm E) newApp" and "driver_ok contents (se_driver E) K s t"
    and "\<forall>mm qs n. spec_prog (driver_view contents (se_driver E) s 0) (new_instance (se_tm E) newApp) 0 = Ok (mm, qs, n) \<longrightarrow>
      mm_lastHeight mm = 0 \<longrightarrow> next_height t initialHeight"
    and "main_start E newApp gen initialHeight i g s = Inl (Running y)"
  shows "sy_rollback y = None \<and>
    (\<exists>mm qs n. spec_prog (driver_view contents (se_driver E) s 0) (new_instance (se_tm E) newApp) 0 = Ok (mm, qs, n) \<and>
      (if mm_lastHeight mm = 0 then
         (\<exists>mm' qs n. spec_prog (driver_view contents (se_driver E) s 0) (mm_Init (se_tm E) mm gen) 0 = Ok ((mm', None), qs, n) \<and>
           idle contents (se_driver E) K (unat initialHeight) y \<and>
           disk contents (se_driver E) y = (\<lambda>h. if h \<noteq> 0 \<and> unat h < unat initialHeight
             then driver_view contents (se_driver E) s h else apply_ops qs (driver_view contents (se_driver E) s h)))
       else idle contents (se_driver E) K t y \<and> disk contents (se_driver E) y = driver_view contents (se_driver E) s))"
proof -
  note ns = node_stack_intro [OF assms(1,2)]
  obtain mm qs n y0 where sp: "spec_prog (driver_view contents (se_driver E) s 0) (new_instance (se_tm E) newApp) 0 = Ok (mm, qs, n)"
    and y0: "idle contents (se_driver E) K t y0" "sy_mm y0 = mm" "sy_rollback y0 = None"
      "disk contents (se_driver E) y0 = driver_view contents (se_driver E) s"
    and gen: "sync_genesis E y0 gen initialHeight = Running y"
    using node_stack.start_running [OF ns assms(3) refl refl assms(4,6)] .
  show ?thesis
  proof (cases "mm_lastHeight mm = 0")
    case True
    then have "next_height t initialHeight"
      using assms(5) sp by blast
    from node_stack.genesis_new [OF ns assms(3) refl refl y0(1) this gen, unfolded y0(2-4)] show ?thesis
      using True sp by auto
  next
    case False
    then show ?thesis
      using node_stack.genesis_resumed [OF ns assms(3) refl refl y0(1) _ gen] sp y0(2-4) by auto
  qed
qed

definition sample_start :: "(mem_store, mem_batch, unit, unit, mem_store, unit) sync outcome + string" where
  "sample_start = main_start sample_env (Done ()) () 1 [] () []"

lemma sample_start_running: "\<exists>y. sample_start = Inl (Running y)"
proof -
  have "case sample_start of Inl y \<Rightarrow> outcome_running y | Inr e \<Rightarrow> False"
    by code_simp
  then show ?thesis
    by (auto simp: outcome_running_iff split: sum.splits)
qed

lemma sample_start_ok: "start_ok sample_keys (se_tm sample_env) (Done ())"
  by (simp add: start_ok_def sample_env_def sample_tm_library_def)

theorem node_starts_witness:
  "\<exists>y. sample_start = Inl (Running y) \<and> sy_rollback y = None \<and>
    idle mem_contents sample_driver sample_keys 1 y \<and> disk mem_contents sample_driver y 5 = driver_view mem_contents sample_driver [] 5"
proof -
  obtain y where y: "sample_start = Inl (Running y)"
    using sample_start_running by blast
  have "next_height 0 1"
    by (simp add: next_height_def valid_height_def)
  moreover have "driver_ok mem_contents (se_driver sample_env) sample_keys [] 0"
    using driver_ok_empty by (simp add: sample_parts(5))
  ultimately have "sy_rollback y = None \<and> (\<exists>mm qs n.
      spec_prog (driver_view mem_contents (se_driver sample_env) [] 0) (new_instance (se_tm sample_env) (Done ())) 0 = Ok (mm, qs, n) \<and>
      (if mm_lastHeight mm = 0 then
         (\<exists>mm' qs n. spec_prog (driver_view mem_contents (se_driver sample_env) [] 0) (mm_Init (se_tm sample_env) mm ()) 0 = Ok ((mm', None), qs, n) \<and>
           idle mem_contents (se_driver sample_env) sample_keys (unat (1 :: int64)) y \<and>
           disk mem_contents (se_driver sample_env) y = (\<lambda>h. if h \<noteq> 0 \<and> unat h < unat (1 :: int64)
             then driver_view mem_contents (se_driver sample_env) [] h
             else apply_ops qs (driver_view mem_contents (se_driver sample_env) [] h)))
       else idle mem_contents (se_driver sample_env) sample_keys 0 y \<and>
         disk mem_contents (se_driver sample_env) y = driver_view mem_contents (se_driver sample_env) []))"
    using node_starts [OF sample_parts(1,2) sample_start_ok _ _ y [unfolded sample_start_def]] by blast
  then show ?thesis
    using y unfolding sample_parts(5)
    by (auto simp: sample_env_def sample_tm_library_def new_instance_def NewMantlemint_def mm_Init_def)
qed

text \<open>
  C11. The feed and the main loop together, on a network that answers as documented: the loop gets
  the blocks after the height the node is at, in order, and if it applies them all the store is
  ready at the last one and every height the node already had reads as before; if it stops at some
  block, the database is that of a whole number of these blocks. For every interleaving of the
  feed's goroutines.
\<close>

theorem node_follows_chain:
  assumes "level_session (se_session E) contents pending" and "key_universe (drv_mode (se_driver E)) K"
    and "executor_ok K (se_tm E)"
    and "honest_network N chain start (cfg_RPCEndpoints cfg) n0" and "GetCurrentHeight (sy_mm y) = of_nat n0"
    and "idle contents (se_driver E) K t y" and "sy_rollback y = None" and "t \<le> n0 + 1"
    and "main_feed cfg y = Some f" and "feed_reach N f s" and "n0 + length (fd_out s) < 2 ^ 56 - 1"
  shows "map fst (received s) = map (\<lambda>i. chain (n0 + 1 + i)) [0..<length (fd_out s)] \<and>
    (case sync_run E y (received s) of
       Running y' \<Rightarrow>
         (received s \<noteq> [] \<longrightarrow> idle contents (se_driver E) K (n0 + length (received s)) y') \<and>
         (\<forall>h. h \<noteq> 0 \<longrightarrow> unat h \<le> n0 \<longrightarrow> disk contents (se_driver E) y' h = disk contents (se_driver E) y h)
     | Halted p y' \<Rightarrow> \<exists>n y1. n < length (received s) \<and> sync_run E y (take n (received s)) = Running y1 \<and>
         disk contents (se_driver E) y' = disk contents (se_driver E) y1)"
proof -
  note ns = node_stack_intro [OF assms(1,2)]
  note rec = received_chain [OF assms(4,5,9-11,8)]
  note blocks = rec(1) and len = rec(2) and ok = rec(3) and chain = honest_network.chain_height [OF assms(4)]
  show ?thesis
  proof (cases "sync_run E y (received s)")
    case (Running y')
    note hs = chain_heights [of "received s" chain n0, unfolded len, OF blocks chain assms(11)]
    note run = node_stack.run_running [OF ns assms(3) refl refl assms(6) ok Running]
    have "disk contents (se_driver E) y' h = disk contents (se_driver E) y h" if "h \<noteq> 0" "unat h \<le> n0" for h
      using run that le_less_trans [OF _ hs(1)] by blast
    with conjunct1 [OF run] show ?thesis
      using blocks Running hs(2) len by (auto simp: foldl_height)
  next
    case (Halted p y')
    then show ?thesis
      using node_stack.run_whole_blocks [OF ns assms(3) refl refl assms(6,7) ok] blocks by simp
  qed
qed

text \<open>A library whose executor takes every block, a node at height 5, and a feed up to block 10.\<close>

definition follow_env ::
  "(mem_store, mem_batch, unit, unit, unit, mem_store, mem_batch SnappyBatch, unit) sync_env" where
  "follow_env = sample_env\<lparr>se_tm := sample_tm_library\<lparr>tm_ApplyBlock := (\<lambda>st bid b. Call (CallSet [97] (st_AppHash st))
     (\<lambda>r. Done ([EventNewBlock b \<lparr>br_Events = []\<rparr> \<lparr>br_Events = []\<rparr>], Inl (st\<lparr>st_LastBlockHeight := blk_Height b\<rparr>, 0))))\<rparr>\<rparr>"

definition follow_sync :: "(mem_store, mem_batch, unit, unit, mem_store, unit) sync" where
  "follow_sync = sample_sync\<lparr>sy_mm := sample_instance\<lparr>mm_lastState := (mm_lastState sample_instance)\<lparr>st_LastBlockHeight := 5\<rparr>\<rparr>\<rparr>"

definition follow_config :: Config where
  "follow_config = \<lparr>cfg_GenesisPath = ''g'', cfg_Home = ''h'', cfg_ChainID = ''c'', cfg_RPCEndpoints = [''a''],
     cfg_WSEndpoints = [''w''], cfg_MantlemintDB = ''m'', cfg_IndexerDB = ''i'', cfg_DisableSync = False,
     cfg_EnableExportModule = False, cfg_RichlistLength = 0, cfg_RichlistThreshold = None\<rparr>"

definition follow_schedule :: "feed_action list" where
  "follow_schedule = [ActAgg, ActWs 0, MeetWs, ActWs 0, MeetWs, ActRpc 0, MeetRpc 0, ActAgg, ActRpc 0, MeetRpc 0, ActAgg]"

lemma follow_received: "\<exists>s. feed_run sample_net follow_schedule sample_feed_start = Some s \<and>
    length (fd_out s) = 2 \<and> received s = [(sample_chain 6, None), (sample_chain 7, None)]"
proof -
  have "map_option (\<lambda>s. (length (fd_out s), received s)) (feed_run sample_net follow_schedule sample_feed_start) =
      Some (2, [(sample_chain 6, None), (sample_chain 7, None)])"
    by code_simp
  then show ?thesis by auto
qed

lemma follow_runs: "\<exists>y'. sync_run follow_env follow_sync [(sample_chain 6, None), (sample_chain 7, None)] = Running y'"
proof -
  have "outcome_running (sync_run follow_env follow_sync [(sample_chain 6, None), (sample_chain 7, None)])"
    by code_simp
  then show ?thesis by (simp add: outcome_running_iff)
qed

lemma follow_parts:
  "level_session (se_session follow_env) mem_contents mem_pending"
  "key_universe (drv_mode (se_driver follow_env)) sample_keys" "executor_ok sample_keys (se_tm follow_env)"
  "honest_network sample_net sample_chain (\<lambda>c. if c = 0 then 7 else 20) (cfg_RPCEndpoints follow_config) 5"
  "GetCurrentHeight (sy_mm follow_sync) = of_nat 5" "idle mem_contents (se_driver follow_env) sample_keys 0 follow_sync"
  "sy_rollback follow_sync = None" "main_feed follow_config follow_sync = Some sample_feed_start"
  "se_driver follow_env = sample_driver" "disk mem_contents sample_driver follow_sync = disk mem_contents sample_driver sample_sync"
  using sample_parts sample_network.honest_network_axioms
  by (simp_all add: follow_env_def follow_sync_def follow_config_def executor_ok_def sample_keys_def GetCurrentHeight_def
      main_feed_def sample_feed_start_def idle_def disk_def)

theorem node_follows_chain_witness:
  "\<exists>s y'. feed_run sample_net follow_schedule sample_feed_start = Some s \<and>
    sync_run follow_env follow_sync (received s) = Running y' \<and> idle mem_contents sample_driver sample_keys 7 y' \<and>
    disk mem_contents sample_driver y' 5 = disk mem_contents sample_driver follow_sync 5"
proof -
  obtain s where s: "feed_run sample_net follow_schedule sample_feed_start = Some s" "length (fd_out s) = 2"
    "received s = [(sample_chain 6, None), (sample_chain 7, None)]"
    using follow_received by blast
  obtain y' where y': "sync_run follow_env follow_sync (received s) = Running y'"
    using follow_runs s(3) by auto
  have "feed_reach sample_net sample_feed_start s"
    by (rule feed_run_reach [OF s(1) feed_reach.start])
  from node_follows_chain [OF follow_parts(1-7) _ follow_parts(8) this] y' s show ?thesis
    by (auto simp: follow_parts(9))
qed

end
