(* ===== verification/Block_Feed_Live.thy ===== *)
theory Block_Feed_Live
  imports Block_Feed_Correct
begin

text \<open>
  Progress of the block feed. On a network that is up, the feed never panics, no index of an
  endpoint is out of range, every schedule hands over a block within a bounded number of steps,
  and only a subscription that stopped for good can have nothing left to do.
\<close>

section \<open>A network that is up\<close>

text \<open>
  The endpoints answer, messages can be parsed and carry no error, and each of the first \<open>B\<close>
  connections delivers the two blocks that \<open>Subscribe\<close> waits for. There is an RPC endpoint for every
  websocket endpoint, since the feed uses one index for both.
\<close>

locale live_network = honest_network N chain start eps n0
  for N :: "'x network" and chain start eps n0 +
  fixes wss :: "string list" and B :: nat
  assumes wss: "wss \<noteq> []" "length wss \<le> length eps"
    and dial: "ep \<in> set wss \<Longrightarrow> net_Dial N ep c = Ok ()" "net_WriteJSON N c req = Ok ()" "net_First N c = Ok ()"
    and parse: "net_Read N c j = Some m \<Longrightarrow> net_error_code N m = Ok 0 \<and> (\<exists>v. net_ws_value N m = Ok v)"
    and rpc: "ep \<in> set eps \<Longrightarrow> n < 2 ^ 63 \<Longrightarrow> \<exists>body v. net_Get N (rpc_url ep (of_nat n)) = Ok body \<and> net_rpc_result N body = Ok v"
    and two: "c < B \<Longrightarrow> j < 2 \<Longrightarrow> net_Read N c j \<noteq> None"

text \<open>A reader from which \<open>Subscribe\<close> has taken \<open>k\<close> blocks.\<close>

definition ready :: "nat \<Rightarrow> 'x ws_proc \<Rightarrow> bool" where
  "ready k w \<longleftrightarrow> \<not> wp_closed w \<and>
     (case wp_pc w of WsReading \<Rightarrow> wp_read w = k | WsGive v \<Rightarrow> wp_read w = Suc k | _ \<Rightarrow> False)"

fun rpc_index :: "'x rpc_proc \<Rightarrow> nat" where
  "rpc_index (RpcLoop i to k) = k"
| "rpc_index (RpcGive v i to k) = k"
| "rpc_index RpcGiveDone = 0"
| "rpc_index RpcEnd = 0"

definition live :: "nat \<Rightarrow> string list \<Rightarrow> 'x feed \<Rightarrow> bool" where
  "live neps wss s \<longleftrightarrow> fd_dead s = None \<and> ag_wsEndpoints (fd_ags s) = wss \<and> ag_wsEndpointsLength (fd_ags s) = length wss \<and>
     (\<forall>p \<in> set (fd_rpcs s). rpc_index p < neps) \<and>
     (case fd_pc s of
        SubDial first i \<Rightarrow> i < length wss
      | SubFirst i \<Rightarrow> i < length wss \<and> ready 0 (last (fd_wss s))
      | SubSecond i \<Rightarrow> i < length wss \<and> ready 1 (last (fd_wss s))
      | _ \<Rightarrow> True)"

section \<open>Work until the next block\<close>

text \<open>Whether the goroutine that fetches over RPC has a block left.\<close>

fun rpc_left :: "'x rpc_proc \<Rightarrow> bool" where
  "rpc_left (RpcLoop i to k) \<longleftrightarrow> sint i \<le> sint to"
| "rpc_left (RpcGive v i to k) \<longleftrightarrow> True"
| "rpc_left RpcGiveDone \<longleftrightarrow> False"
| "rpc_left RpcEnd \<longleftrightarrow> False"

definition pc_rank :: "'x feed \<Rightarrow> nat" where
  "pc_rank s =
     (case fd_pc s of
        AggIdle \<Rightarrow> 0 | AggEmitRpc r \<Rightarrow> 1 | AggEmitWs r \<Rightarrow> 1
      | AggRpc \<Rightarrow> if rpc_left (last (fd_rpcs s)) then 2 else 8
      | SubSecond i \<Rightarrow> 3 | SubFirst i \<Rightarrow> 4 | SubDial first i \<Rightarrow> 5 | AggReconnect \<Rightarrow> 6 | AggWs \<Rightarrow> 7)"

definition ws_work :: "'x ws_proc \<Rightarrow> nat" where
  "ws_work w = (if wp_pc w = WsReading then 1 else 0)"

fun rpc_work :: "'x rpc_proc \<Rightarrow> nat" where
  "rpc_work (RpcLoop i to k) = 1"
| "rpc_work (RpcGive v i to k) = 0"
| "rpc_work RpcGiveDone = 0"
| "rpc_work RpcEnd = 0"

definition feed_work :: "'x feed \<Rightarrow> nat" where
  "feed_work s = 3 * pc_rank s + sum_list (map ws_work (fd_wss s)) + sum_list (map rpc_work (fd_rpcs s))"

lemma sum_update:
  fixes f :: "'a \<Rightarrow> nat"
  assumes "j < length xs"
  shows "sum_list (map f (xs[j := x])) + f (xs ! j) = sum_list (map f xs) + f x"
  using assms
proof (induction xs arbitrary: j)
  case (Cons y xs)
  then show ?case by (cases j) auto
qed simp

lemma sum_last:
  fixes f :: "'a \<Rightarrow> nat"
  assumes "xs \<noteq> []"
  shows "sum_list (map f (butlast xs @ [x])) + f (last xs) = sum_list (map f xs) + f x"
  using sum_update [of "length xs - 1" xs f x] assms set_update_last [OF assms, of x] by (simp add: last_conv_nth)

text \<open>What a step has to do: keep the feed alive, and deliver or use up work.\<close>

definition progress :: "nat \<Rightarrow> string list \<Rightarrow> 'x feed \<Rightarrow> 'x feed \<Rightarrow> bool" where
  "progress neps wss s s' \<longleftrightarrow> live neps wss s' \<and>
     (fd_out s' = fd_out s \<and> feed_work s' < feed_work s \<or> length (fd_out s) < length (fd_out s'))"

lemma feed_work_le: "feed_work s \<le> 24 + length (fd_wss s) + length (fd_rpcs s)"
proof -
  have "sum_list (map ws_work xs) \<le> length xs" for xs :: "'a ws_proc list"
    by (induction xs) (auto simp: ws_work_def)
  moreover have "rpc_work p \<le> 1" for p :: "'a rpc_proc"
    by (cases p) auto
  then have "sum_list (map rpc_work ps) \<le> length ps" for ps :: "'a rpc_proc list"
    by (induction ps) (auto simp: add_le_mono [of _ 1, simplified])
  moreover have "pc_rank s \<le> 8"
    by (simp add: pc_rank_def split: agg_pc.splits)
  ultimately show ?thesis
    by (simp add: feed_work_def add_le_mono)
qed

lemma conns_mono: "feed_act N a s = Some s' \<Longrightarrow> fd_conns s \<le> fd_conns s'"
  by (auto simp: feed_act.simps local_step_def agg_step_def meet_rpc_def meet_ws_def feed_panic_def subscribe_dial_def
      subscribe_decide_def agg_from_rpc_def agg_from_ws_def agg_Close_def agg_emit_def agg_reconnect_def Let_def
      split: feed_action.splits if_splits option.splits res.splits prod.splits agg_pc.splits)

lemma conns_mono_run: "feed_run N as s = Some s' \<Longrightarrow> fd_conns s \<le> fd_conns s'"
  by (induction "as" arbitrary: s) (auto split: option.splits dest: conns_mono intro: order_trans)

context live_network
begin

abbreviation lives where
  "lives \<equiv> live (length eps) wss"

abbreviation progresses where
  "progresses \<equiv> progress (length eps) wss"

lemma subscribe_ok: "i < length wss \<Longrightarrow> ws_Subscribe N wss i c = Ok ()"
  by (simp add: ws_Subscribe_def dial handleInitialHandhake_def)

text \<open>The reader.\<close>

lemma reader_live: "receiveBlockEvents N w = Some r \<Longrightarrow> \<exists>w'. r = Ok w'"
  using parse [of "wp_conn w" "wp_read w"]
  by (auto simp: receiveBlockEvents_def extractBlockFromWSResponse_def
      split: ws_pc.splits option.splits res.splits if_splits)

lemma reader_work: "receiveBlockEvents N w = Some (Ok w') \<Longrightarrow> wp_conn w' = wp_conn w \<and> ws_work w' < ws_work w"
  by (auto simp: receiveBlockEvents_def ws_work_def split: ws_pc.splits option.splits res.splits if_splits)

lemma reader_ready:
  assumes "receiveBlockEvents N w = Some (Ok w')" and "ready k w" and "k < 2" and "wp_conn w < B"
  shows "ready k w'"
  using assms two [of "wp_conn w" k] parse [of "wp_conn w" k]
  by (auto simp: receiveBlockEvents_def extractBlockFromWSResponse_def ready_def
      split: ws_pc.splits option.splits res.splits if_splits)

lemma progress_ActWs:
  assumes "inv s" and "lives s" and "fd_conns s \<le> B"
    and "local_step (receiveBlockEvents N) (fd_wss s) j (\<lambda>ps. s\<lparr>fd_wss := ps\<rparr>) s = Some s'"
  shows "progresses s s'"
proof -
  obtain r where j: "j < length (fd_wss s)" and r: "receiveBlockEvents N (fd_wss s ! j) = Some r"
    using assms(4) by (auto simp: local_step_def split: if_splits option.splits)
  obtain w' where w': "r = Ok w'"
    using reader_live [OF r] by blast
  have s': "s' = s\<lparr>fd_wss := (fd_wss s)[j := w']\<rparr>"
    using assms(4) j r w' by (simp add: local_step_def)
  have ne: "fd_wss s \<noteq> []" using j by auto
  have "wp_conn (fd_wss s ! j) < fd_conns s"
    using assms(1,2) j by (simp add: feed_inv_def live_def)
  then have "wp_conn (fd_wss s ! j) < B"
    using assms(3) by simp
  then have rdy: "ready k (last ((fd_wss s)[j := w']))" if "ready k (last (fd_wss s))" "k < 2" for k
    using reader_ready [OF r [unfolded w'], of k] that last_list_update [OF ne, of j w'] by (auto simp: last_conv_nth [OF ne])
  have "lives s'"
    using assms(2) rdy [of 0] rdy [of 1] by (auto simp: s' live_def split: agg_pc.splits)
  moreover have "feed_work s' < feed_work s"
    using sum_update [OF j, of ws_work w'] conjunct2 [OF reader_work [OF r [unfolded w']]]
    by (simp add: feed_work_def s' pc_rank_def)
  ultimately show ?thesis
    by (simp add: progress_def s')
qed

text \<open>The RPC goroutine.\<close>

lemma busy_rpc:
  assumes "inv s" and "fd_dead s = None" and "j < length (fd_rpcs s)" and "fd_rpcs s ! j \<noteq> RpcEnd"
  obtains ps p m h where "fd_rpcs s = ps @ [p]" "j = length ps" "rpc_ok chain m h p" "h < 2 ^ 63 - 1"
proof -
  let ?h = "start (wp_conn (last (fd_wss s))) + 1"
  have "\<not> rpcs_done s"
    using assms(3,4) nth_mem by (fastforce simp: rpcs_done_def)
  then obtain m where busy: "rpcs_busy chain m ?h s" and w: "fd_wss s \<noteq> []" "deliv (last (fd_wss s)) = 2"
    using assms(1,2) by (auto simp: feed_inv_def pc_ok_def Let_def split: agg_pc.splits)
  then obtain ps p where ps: "fd_rpcs s = ps @ [p]" "set ps \<subseteq> {RpcEnd}" "rpc_ok chain m ?h p"
    by (auto simp: rpcs_busy_def)
  then have "j = length ps"
    using assms(3,4) by (force simp: nth_append less_Suc_eq split: if_splits)
  moreover have "?h < 2 ^ 63 - 1"
    using deliv_bound [OF last_ws_ok [OF assms(1,2) w(1)], of 1] w(2) by simp
  ultimately show thesis
    using that ps by blast
qed

lemma fetch_live:
  assumes "SyncFromUntil N eps p = Some r" and "rpc_ok chain m h p" and "h < 2 ^ 63 - 1" and "rpc_index p < length eps"
  obtains p' where "r = Ok p'" "rpc_index p' < length eps" "rpc_left p' = rpc_left p" "rpc_work p' < rpc_work p"
proof -
  obtain i to k where p: "p = RpcLoop i to k"
    using assms(1) by (cases p) auto
  have k: "k < length eps"
    using assms(4) p by simp
  show thesis
  proof (cases "sint i \<le> sint to")
    case True
    then have "m + 1 \<le> h"
      using assms(2,3) p sint_of_nat_small [of "m + 1"] sint_of_nat_small [of h] by auto
    then obtain body v where "net_Get N (rpc_url (eps ! k) i) = Ok body" "net_rpc_result N body = Ok v"
      using rpc [of "eps ! k" "m + 1"] k assms(2,3) p by auto
    then show thesis
      using that [of "RpcGive v i to k"] assms(1) p k True by (simp add: ExtractBlockFromRPCResponse_def)
  next
    case False
    then show thesis
      using that [of RpcGiveDone] assms(1) p k by (cases eps) auto
  qed
qed

lemma progress_ActRpc:
  assumes "inv s" and "lives s"
    and "local_step (SyncFromUntil N (ag_rpcEndpoints (fd_ags s))) (fd_rpcs s) j (\<lambda>ps. s\<lparr>fd_rpcs := ps\<rparr>) s = Some s'"
  shows "progresses s s'"
proof -
  have alive: "fd_dead s = None" and eps: "ag_rpcEndpoints (fd_ags s) = eps"
    using assms(1,2) by (simp_all add: live_def feed_inv_def)
  obtain r where j: "j < length (fd_rpcs s)" and r: "SyncFromUntil N eps (fd_rpcs s ! j) = Some r"
    using assms(3) eps by (auto simp: local_step_def split: if_splits option.splits)
  then obtain ps p m h where ps: "fd_rpcs s = ps @ [p]" "j = length ps" and p: "rpc_ok chain m h p" "h < 2 ^ 63 - 1"
    using busy_rpc [OF assms(1) alive j] by (metis SyncFromUntil.simps(4) option.distinct(1))
  obtain p' where p': "r = Ok p'" "rpc_index p' < length eps" "rpc_left p' = rpc_left p" "rpc_work p' < rpc_work p"
    using fetch_live [OF _ p, of r] r ps assms(2) by (auto simp: live_def)
  have s': "s' = s\<lparr>fd_rpcs := ps @ [p']\<rparr>"
    using assms(3) j r p'(1) ps eps by (simp add: local_step_def)
  have "lives s'"
    using assms(2) p'(2) ps(1) by (auto simp: s' live_def split: agg_pc.splits)
  moreover have "feed_work s' < feed_work s"
    using p'(3,4) ps(1) by (simp add: feed_work_def s' pc_rank_def split: agg_pc.splits)
  ultimately show ?thesis
    by (simp add: progress_def s')
qed

text \<open>The subscription alone.\<close>

lemma progress_ActAgg:
  assumes "inv s" and "lives s" and "agg_step N s = Some s'"
  shows "progresses s s'"
proof (cases "fd_pc s")
  case (SubDial first i)
  then have i: "i < length wss" "ag_wsEndpoints (fd_ags s) = wss"
    using assms(2) by (simp_all add: live_def)
  have "s' = subscribe_dial N first i s"
    using assms(3) SubDial by (simp add: agg_step_def)
  then have "s' = s\<lparr>fd_conns := fd_conns s + 1, fd_ags := setSyncState (fd_ags s) False,
      fd_wss := fd_wss s @ [new_ws (fd_conns s)], fd_pc := SubFirst i\<rparr>"
    using subscribe_ok [OF i(1)] i(2) by (simp add: subscribe_dial_def Let_def)
  then show ?thesis
    using assms(2) SubDial
    by (simp add: progress_def live_def feed_work_def pc_rank_def ws_work_def ready_def new_ws_def setSyncState_def)
next
  case AggReconnect
  then show ?thesis
    using assms(2,3) wss
    by (auto simp: agg_step_def agg_reconnect_def nextWSEndpoint_def Let_def progress_def live_def feed_work_def pc_rank_def)
next
  case (AggEmitRpc r)
  then show ?thesis
    using assms by (auto simp: agg_step_def agg_emit_def Let_def progress_def live_def feed_inv_def pc_ok_def)
next
  case (AggEmitWs r)
  then show ?thesis
    using assms by (auto simp: agg_step_def agg_emit_def Let_def progress_def live_def feed_inv_def pc_ok_def)
qed (use assms(3) in \<open>simp_all add: agg_step_def\<close>)

text \<open>Receiving from RPC.\<close>

lemma progress_MeetRpc:
  assumes "inv s" and "lives s" and "meet_rpc j s = Some s'"
  shows "progresses s s'"
proof -
  have alive: "fd_dead s = None"
    using assms(2) by (simp add: live_def)
  obtain r q' where pc: "fd_pc s = AggRpc" "j < length (fd_rpcs s)" "rpc_send (fd_rpcs s ! j) = Some (r, q')"
    and s': "s' = agg_from_rpc r (s\<lparr>fd_rpcs := (fd_rpcs s)[j := q']\<rparr>)"
    using assms(3) by (auto simp: meet_rpc_def split: if_splits option.splits prod.splits)
  then obtain ps p m h where ps: "fd_rpcs s = ps @ [p]" "j = length ps" and p: "rpc_ok chain m h p"
    using busy_rpc [OF assms(1) alive pc(2)] by (metis option.distinct(1) rpc_send.simps(4))
  then have send: "rpc_send p = Some (r, q')" and upd: "s' = agg_from_rpc r (s\<lparr>fd_rpcs := ps @ [q']\<rparr>)"
    using pc(3) s' by simp_all
  show ?thesis
    using send p assms(2) ps(1) pc(1) unfolding upd
    by (cases p) (auto simp: agg_from_rpc_def progress_def live_def feed_work_def pc_rank_def)
qed

text \<open>Receiving from the websocket.\<close>

lemma ready_send:
  assumes "ready k w" and "ws_send w = Some (r, w')" and "ws_ok N chain start w"
  shows "ready (Suc k) w'" "\<exists>b. r = Some b \<and> bres_Block b = Some (chain (start (wp_conn w) + k))"
  using assms by (auto simp: ready_def ws_send_def ws_ok_def split: ws_pc.splits)

lemma work_moved:
  assumes "fd_wss s \<noteq> []" and "3 * pc_rank (moved s pc rs ags w') + sum_list (map rpc_work rs) + 1 <
    3 * pc_rank s + sum_list (map rpc_work (fd_rpcs s))"
  shows "feed_work (moved s pc rs ags w') < feed_work s"
proof -
  have "sum_list (map ws_work (fd_wss (moved s pc rs ags w'))) \<le> sum_list (map ws_work (fd_wss s)) + 1"
    using sum_last [OF assms(1), of ws_work w'] by (simp add: ws_work_def split: if_splits)
  with assms(2) show ?thesis
    by (simp add: feed_work_def)
qed

lemma progress_decide:
  assumes "inv s" and "lives s" and ne: "fd_wss s \<noteq> []" and pc: "fd_pc s = SubSecond i"
    and send: "ws_send (last (fd_wss s)) = Some (r, w')"
  shows "progresses s (subscribe_decide i r (s\<lparr>fd_wss := butlast (fd_wss s) @ [w']\<rparr>))"
proof -
  let ?l = "n0 + length (fd_out s)" and ?c = "wp_conn (last (fd_wss s))"
  have i: "i < length wss" and rdy: "ready 1 (last (fd_wss s))" and alive: "fd_dead s = None"
    using assms(2) pc by (simp_all add: live_def)
  have at: "?l \<le> start ?c" and last: "ag_lastKnownBlock (fd_ags s) = of_nat ?l"
    using assms(1) alive pc by (auto simp: feed_inv_def pc_ok_def Let_def)
  note w_ok = last_ws_ok [OF assms(1) alive ne]
  obtain b where b: "r = Some b" "bres_Block b = Some (chain (start ?c + 1))"
    using ready_send(2) [OF rdy send w_ok] by auto
  have "deliv (last (fd_wss s)) = 1" "wp_pc (last (fd_wss s)) \<noteq> WsReading"
    using rdy send by (auto simp: ready_def deliv_def ws_send_def split: ws_pc.splits)
  then obtain m where "net_Read N ?c 1 = Some m"
    using reader_send(3) [OF send w_ok] b(1) by auto
  then have bound: "start ?c + 1 < 2 ^ 63 - 1"
    by (rule ws_bound)
  let ?p = "RpcLoop (of_nat (?l + 1)) (of_nat (start ?c + 1)) i"
  let ?rs = "if start ?c = ?l then fd_rpcs s else fd_rpcs s @ [?p]"
  let ?pc = "if start ?c = ?l then AggIdle else AggRpc"
  have "(of_nat (start ?c + 1) :: int64) = of_nat (?l + 1) \<longleftrightarrow> start ?c + 1 = ?l + 1"
    using bound at by (intro word_of_nat_small) auto
  then have eq: "subscribe_decide i r (s\<lparr>fd_wss := butlast (fd_wss s) @ [w']\<rparr>) = moved s ?pc ?rs (fd_ags s) w'"
    using b chain_height [of "start ?c + 1"] bound last by (auto simp: subscribe_decide_def moved_def)
  have "rpc_left ?p"
    using bound at sint_of_nat_small [of "?l + 1"] sint_of_nat_small [of "start ?c + 1"] by auto
  then have "feed_work (moved s ?pc ?rs (fd_ags s) w') < feed_work s"
    by (intro work_moved [OF ne]) (simp add: pc_rank_def pc)
  moreover have "lives (moved s ?pc ?rs (fd_ags s) w')"
    using assms(2) i wss(2) by (auto simp: live_def moved_def)
  ultimately show ?thesis
    by (simp add: eq progress_def)
qed

lemma progress_MeetWs:
  assumes "inv s" and "lives s" and "meet_ws s = Some s'"
  shows "progresses s s'"
proof -
  obtain r w' where ne: "fd_wss s \<noteq> []" and send: "ws_send (last (fd_wss s)) = Some (r, w')"
    using assms(3) by (auto simp: meet_ws_def split: if_splits option.splits prod.splits)
  have alive: "fd_dead s = None"
    using assms(2) by (simp add: live_def)
  have s': "(case fd_pc s of SubFirst i \<Rightarrow> Some (s\<lparr>fd_wss := butlast (fd_wss s) @ [w'], fd_pc := SubSecond i\<rparr>)
      | SubSecond i \<Rightarrow> Some (subscribe_decide i r (s\<lparr>fd_wss := butlast (fd_wss s) @ [w']\<rparr>))
      | AggWs \<Rightarrow> Some (agg_from_ws r (s\<lparr>fd_wss := butlast (fd_wss s) @ [w']\<rparr>)) | _ \<Rightarrow> None) = Some s'"
    using assms(3) ne send by (simp add: meet_ws_def Let_def set_update_last [simplified])
  have moved: "progresses s (moved s pc (fd_rpcs s) ags v)"
    if "lives (moved s pc (fd_rpcs s) ags v)" "pc_rank (moved s pc (fd_rpcs s) ags v) < pc_rank s" for pc ags v
    using that work_moved [OF ne, of pc "fd_rpcs s" ags v] by (simp add: progress_def)
  show ?thesis
  proof (cases "fd_pc s")
    case (SubFirst i)
    then have "ready 1 w'"
      using ready_send(1) [OF _ send last_ws_ok [OF assms(1) alive ne], of 0] assms(2) by (simp add: live_def)
    moreover have "s' = moved s (SubSecond i) (fd_rpcs s) (fd_ags s) w'"
      using SubFirst s' by (auto simp: moved_def)
    ultimately show ?thesis
      using moved [of "SubSecond i" "fd_ags s" w'] SubFirst assms(2) by (auto simp: live_def pc_rank_def moved_def)
  next
    case (SubSecond i)
    with s' progress_decide [OF assms(1,2) ne _ send] show ?thesis by simp
  next
    case AggWs
    show ?thesis
    proof (cases r)
      case None
      then have "s' = moved s AggReconnect (fd_rpcs s) (setSyncState (fd_ags s) False) (w'\<lparr>wp_closed := True\<rparr>)"
        using AggWs s' by (auto simp: agg_from_ws_def agg_Close_snoc moved_def)
      then show ?thesis
        using moved [of AggReconnect "setSyncState (fd_ags s) False" "w'\<lparr>wp_closed := True\<rparr>"] AggWs assms(2)
        by (auto simp: live_def pc_rank_def moved_def setSyncState_def)
    next
      case (Some b)
      then have "s' = moved s (AggEmitWs b) (fd_rpcs s) (setSyncState (fd_ags s) True) w'"
        using AggWs s' by (auto simp: agg_from_ws_def moved_def)
      then show ?thesis
        using moved [of "AggEmitWs b" "setSyncState (fd_ags s) True" w'] AggWs assms(2)
        by (auto simp: live_def pc_rank_def moved_def setSyncState_def)
    qed
  qed (use s' in auto)
qed

lemma progress_act:
  assumes "inv s" and "lives s" and "fd_conns s \<le> B" and "feed_act N a s = Some s'"
  shows "progresses s s'"
  using assms(4) progress_ActRpc [OF assms(1,2)] progress_ActWs [OF assms(1-3)] progress_ActAgg [OF assms(1,2)]
    progress_MeetRpc [OF assms(1,2)] progress_MeetWs [OF assms(1,2)]
  by (auto simp: feed_act.simps split: if_splits feed_action.splits)

text \<open>Only a subscription that returned without a goroutine has nothing to do.\<close>

lemma enabled:
  assumes "inv s" and "lives s" and "fd_pc s \<noteq> AggIdle"
  shows "\<exists>a. feed_act N a s \<noteq> None"
proof -
  have alive: "fd_dead s = None"
    using assms(2) by (simp add: live_def)
  consider (agg) "agg_step N s \<noteq> None" | (rpc) "fd_pc s = AggRpc"
    | (ws) "fd_wss s \<noteq> []" "(\<exists>i. fd_pc s = SubFirst i \<or> fd_pc s = SubSecond i) \<or> fd_pc s = AggWs"
    using assms(1,3) alive by (cases "fd_pc s") (auto simp: agg_step_def feed_inv_def pc_ok_def Let_def)
  then show ?thesis
  proof cases
    case agg
    then show ?thesis
      using alive by (intro exI [of _ ActAgg]) (simp add: feed_act.simps)
  next
    case rpc
    then obtain ps p m h where p: "fd_rpcs s = ps @ [p]" "rpc_ok chain m h p"
      using assms(1) alive by (auto simp: feed_inv_def pc_ok_def Let_def rpcs_busy_def)
    show ?thesis
    proof (cases "rpc_send p")
      case None
      with p(2) have "SyncFromUntil N (ag_rpcEndpoints (fd_ags s)) p \<noteq> None"
        by (cases p) auto
      then show ?thesis
        using alive p(1) by (intro exI [of _ "ActRpc (length ps)"]) (auto simp: feed_act.simps local_step_def split: res.splits)
    next
      case (Some a)
      then show ?thesis
        using alive p(1) rpc by (intro exI [of _ "MeetRpc (length ps)"]) (auto simp: feed_act.simps meet_rpc_def split: prod.splits)
    qed
  next
    case ws
    show ?thesis
    proof (cases "ws_send (last (fd_wss s))")
      case None
      then have "receiveBlockEvents N (fd_wss s ! (length (fd_wss s) - 1)) \<noteq> None"
        using ws(1) by (auto simp: ws_send_def receiveBlockEvents_def last_conv_nth split: ws_pc.splits)
      then show ?thesis
        using alive ws(1) by (intro exI [of _ "ActWs (length (fd_wss s) - 1)"]) (auto simp: feed_act.simps local_step_def split: res.splits)
    next
      case (Some a)
      then show ?thesis
        using alive ws by (intro exI [of _ MeetWs]) (auto simp: feed_act.simps meet_ws_def Let_def split: prod.splits)
    qed
  qed
qed

text \<open>All states that are reached with at most \<open>B\<close> connections.\<close>

lemma lives_init: "lives (feed_init (NewAggregateBlockFeed (of_nat n0) eps wss))"
  using wss(1) by (simp add: live_def feed_init_def NewAggregateBlockFeed_def)

lemma lives_reach:
  "feed_reach N (feed_init (NewAggregateBlockFeed (of_nat n0) eps wss)) s \<Longrightarrow> fd_conns s \<le> B \<Longrightarrow> lives s"
proof (induction rule: feed_reach.induct)
  case start
  show ?case by (rule lives_init)
next
  case (step s a s')
  have "fd_conns s \<le> B"
    using conns_mono [OF step.hyps(2)] step.prems by simp
  then show ?case
    using progress_act [OF inv_reach [OF step.hyps(1)] step.IH _ step.hyps(2)] by (simp add: progress_def)
qed

lemma run_work:
  assumes "inv s" and "lives s" and "feed_run N as s = Some s'" and "fd_conns s' \<le> B"
  shows "length (fd_out s) < length (fd_out s') \<or> fd_out s' = fd_out s \<and> length as + feed_work s' \<le> feed_work s"
  using assms
proof (induction "as" arbitrary: s)
  case (Cons a as)
  obtain t where t: "feed_act N a s = Some t" "feed_run N as t = Some s'"
    using Cons.prems(3) by (auto split: option.splits)
  have "fd_conns s \<le> B"
    using conns_mono [OF t(1)] conns_mono_run [OF t(2)] Cons.prems(4) by simp
  then have p: "progresses s t"
    using progress_act [OF Cons.prems(1,2) _ t(1)] by simp
  then have "length (fd_out t) < length (fd_out s') \<or> fd_out s' = fd_out t \<and> length as + feed_work s' \<le> feed_work t"
    using Cons.IH [OF inv_act [OF Cons.prems(1) t(1)] _ t(2) Cons.prems(4)] by (simp add: progress_def)
  with p show ?case
    by (auto simp: progress_def)
qed simp

end

section \<open>Sample network\<close>

text \<open>The sample network with every endpoint up.\<close>

definition sample_up :: "unit network" where
  "sample_up = sample_net\<lparr>net_Dial := (\<lambda>ep c. Ok ())\<rparr>"

lemma honest_dial:
  "honest_network N chain start eps n0 \<Longrightarrow> honest_network (N\<lparr>net_Dial := d\<rparr>) chain start eps n0"
  by (simp add: honest_network_def)

interpretation sample_live: live_network sample_up sample_chain "\<lambda>c. if c = 0 then 7 else 20" "[''a'']" 5 "[''w'']" 1
proof -
  have "honest_network sample_up sample_chain (\<lambda>c. if c = 0 then 7 else 20) [''a''] 5"
    unfolding sample_up_def by (rule honest_dial [OF sample_network.honest_network_axioms])
  moreover have "\<exists>body v. net_Get sample_up (rpc_url ''a'' (of_nat n)) = Ok body \<and> net_rpc_result sample_up body = Ok v"
    if "n < 2 ^ 63" for n
    using that by (simp add: sample_up_def sample_net_def rpc_url_def sint_of_nat_small Atoi_Sprintf_d)
  ultimately show "live_network sample_up sample_chain (\<lambda>c. if c = 0 then 7 else 20) [''a''] 5 [''w''] 1"
    by (simp add: live_network_def live_network_axioms_def)
      (simp add: sample_up_def sample_net_def)
qed

section \<open>Property\<close>

text \<open>
  C13. On a network that is up and over its first \<open>B\<close> connections, the feed never panics, hands
  another block to \<open>main\<close> within \<open>24 + w + r\<close> steps of any schedule, where \<open>w\<close> and \<open>r\<close> are the numbers
  of websocket and RPC goroutines started so far, and some goroutine can move as long as the
  subscription has one.
\<close>

theorem feed_delivers:
  assumes "live_network N chain start eps n0 wss B"
    and "feed_reach N (feed_init (NewAggregateBlockFeed (of_nat n0) eps wss)) s"
    and "feed_run N as s = Some s'" and "fd_conns s' \<le> B"
  shows "fd_dead s' = None \<and>
    (24 + length (fd_wss s) + length (fd_rpcs s) < length as \<longrightarrow> length (fd_out s) < length (fd_out s')) \<and>
    (fd_pc s' \<noteq> AggIdle \<longrightarrow> (\<exists>a. feed_act N a s' \<noteq> None))"
proof (intro conjI)
  note live = live_network.lives_reach [OF assms(1)]
    and inv = honest_network.inv_reach [OF live_network.axioms(1) [OF assms(1)]]
  have reach': "feed_reach N (feed_init (NewAggregateBlockFeed (of_nat n0) eps wss)) s'"
    by (rule feed_run_reach [OF assms(3,2)])
  have lives': "live (length eps) wss s'"
    by (rule live [OF reach' assms(4)])
  then show "fd_dead s' = None"
    by (simp add: live_def)
  show "fd_pc s' \<noteq> AggIdle \<longrightarrow> (\<exists>a. feed_act N a s' \<noteq> None)"
    using live_network.enabled [OF assms(1) inv [OF reach'] lives'] by blast
  have "fd_conns s \<le> B"
    using conns_mono_run [OF assms(3)] assms(4) by simp
  then show "24 + length (fd_wss s) + length (fd_rpcs s) < length as \<longrightarrow> length (fd_out s) < length (fd_out s')"
    using live_network.run_work [OF assms(1) inv [OF assms(2)] live [OF assms(2)] assms(3,4)] feed_work_le [of s] by auto
qed

definition sample_long_schedule :: "feed_action list" where
  "sample_long_schedule = sample_schedule @ [ActWs 0, MeetWs, ActAgg]"

theorem feed_delivers_witness:
  "\<exists>s'. feed_run sample_up sample_long_schedule sample_feed_start = Some s' \<and> fd_dead s' = None \<and>
    0 < length (fd_out s') \<and> (\<exists>a. feed_act sample_up a s' \<noteq> None)"
proof -
  have "map_option (\<lambda>s. (fd_conns s, fd_pc s)) (feed_run sample_up sample_long_schedule sample_feed_start) =
      Some (1, SubDial False 0)"
    by code_simp
  then obtain s' where s': "feed_run sample_up sample_long_schedule sample_feed_start = Some s'"
    and c: "fd_conns s' \<le> 1" "fd_pc s' \<noteq> AggIdle"
    by auto
  have "24 < length sample_long_schedule"
    by code_simp
  moreover have "feed_init (NewAggregateBlockFeed (of_nat 5) [''a''] [''w'']) = sample_feed_start"
    by (simp add: sample_feed_start_def)
  moreover have "fd_wss sample_feed_start = []" "fd_rpcs sample_feed_start = []" "fd_out sample_feed_start = []"
    by (simp_all add: sample_feed_start_def feed_init_def)
  ultimately show ?thesis
    using feed_delivers [OF sample_live.live_network_axioms, of sample_feed_start sample_long_schedule s'] s' c
    by (auto intro: feed_reach.start)
qed

end
