(* ===== verification/Node_Boot.thy ===== *)
theory Node_Boot
  imports Node_Main Rest_Server Rootmulti_Correct Block_Feed_Live
begin

text \<open>
  \<open>main\<close> of \<open>src/sync.go\<close> from its first line to the loop: the SDK is configured, the database is
  opened, the application, the instance and the genesis document are read, the indexers and the
  API server are started, and the node waits or follows the feed. The property carries the
  history found on disk through the start and a whole run of the loop.
\<close>

section \<open>Definitions\<close>

subsection \<open>SDK configuration\<close>

record core_config =
  cc_CoinType :: nat
  cc_AccountAddressPrefix :: string
  cc_BondDenom :: string

record sdk_config =
  sc_CoinType :: nat
  sc_Account :: "string \<times> string"
  sc_Validator :: "string \<times> string"
  sc_ConsensusNode :: "string \<times> string"
  sc_AddressVerifier :: "bytes \<Rightarrow> string option"
  sc_sealed :: bool

text \<open>Each kind of address has a prefix for addresses and one for public keys.\<close>

definition main_sdk_config :: "core_config \<Rightarrow> (bytes \<Rightarrow> string option) \<Rightarrow> sdk_config" where
  "main_sdk_config core verifier =
     (let prefix = cc_AccountAddressPrefix core in
      \<lparr>sc_CoinType = cc_CoinType core, sc_Account = (prefix, prefix @ ''pub''),
       sc_Validator = (prefix @ ''valoper'', prefix @ ''valoperpub''),
       sc_ConsensusNode = (prefix @ ''valcons'', prefix @ ''valconspub''),
       sc_AddressVerifier = verifier, sc_sealed = True\<rparr>)"

subsection \<open>Genesis\<close>

definition lower_digit :: "nat \<Rightarrow> char" where
  "lower_digit n = ''0123456789abcdef'' ! (n mod 16)"

definition hex_EncodeToString :: "bytes \<Rightarrow> string" where
  "hex_EncodeToString bs = concat (map (\<lambda>b. [lower_digit (unat b div 16), lower_digit (unat b)]) bs)"

text \<open>
  The file is read twice, once for the log line, where an error is dropped. \<open>read\<close> gives what was
  read and the error, \<open>fromFile\<close> is \<open>tendermint.GenesisDocFromFile\<close>.
\<close>

definition getGenesisDoc ::
  "(string \<Rightarrow> bytes \<times> string option) \<Rightarrow> (bytes \<Rightarrow> bytes) \<Rightarrow> (string \<Rightarrow> 'gen res) \<Rightarrow> string \<Rightarrow> string \<times> 'gen res" where
  "getGenesisDoc read sha1 fromFile genesisPath =
     (let jsonBlob = fst (read genesisPath) in
      (''[v0.34.x/sync] genesis shasum='' @ hex_EncodeToString (sha1 jsonBlob),
       case fromFile genesisPath of Ok genesis \<Rightarrow> Ok genesis | Err e \<Rightarrow> Panic e | Panic p \<Rightarrow> Panic p))"

subsection \<open>API server\<close>

text \<open>
  How \<open>apiSrv.Start\<close> ends: it serves, it fails before the time for starting is over, or it fails
  later. A late error stays with its goroutine, which nobody receives from any more.
\<close>

datatype api_start = Serves | FailsFirst string | FailsLate string

definition StartRPC :: "'l lru \<Rightarrow> api_start \<Rightarrow> ('l CacheBackend \<times> 'l CacheBackend) res" where
  "StartRPC L start =
     bind_res (NewCacheBackend L 16384 ''latest'') (\<lambda>cache.
     bind_res (NewCacheBackend L 16384 ''archival'') (\<lambda>archivalCache.
       case start of FailsFirst err \<Rightarrow> Err err | _ \<Rightarrow> Ok (cache, archivalCache)))"

subsection \<open>\<open>main\<close>\<close>

text \<open>
  What \<open>main\<close> is linked with: the core application, the two LevelDB sessions, tendermint, the
  indexers' libraries, the files and the API server. \<open>ml_newApp\<close> is \<open>terra.NewTerraApp\<close>, which mounts its stores
  on the multi-store it is given and loads them; its result is that store afterwards. \<open>ml_closed\<close> is the
  indexer database before it is opened.
\<close>

record ('s, 'b, 'm, 'x, 'gen, 'i, 'ib, 'tx, 'acc, 't, 'l, 'v, 'p) main_lib =
  ml_core :: core_config
  ml_verifier :: "bytes \<Rightarrow> string option"
  ml_RegisterDenom :: "string \<Rightarrow> int \<times> nat \<Rightarrow> string option"
  ml_open :: "string \<Rightarrow> string \<Rightarrow> 's res"
  ml_session :: "('s, 'b) leveldb"
  ml_pruningManager :: 'p
  ml_defaultCacheSize :: int
  ml_newApp :: "sdk_config \<Rightarrow> ('v, 'p) Store \<Rightarrow> ('v, 'p) Store prog"
  ml_OnStart :: "string option"
  ml_tm :: "('m, 'x, 'gen) tm_library"
  ml_ReadFile :: "string \<Rightarrow> bytes \<times> string option"
  ml_sha1 :: "bytes \<Rightarrow> bytes"
  ml_GenesisDocFromFile :: "string \<Rightarrow> 'gen res"
  ml_InitialHeight :: "'gen \<Rightarrow> int64"
  ml_open_index :: "string \<Rightarrow> string \<Rightarrow> 'i res"
  ml_closed :: 'i
  ml_index_session :: "('i, 'ib) leveldb"
  ml_codec :: codec
  ml_tx :: "'tx tx_library"
  ml_MarshalBlock :: "'x BlockRecord \<Rightarrow> bytes res"
  ml_MarshalRichlist :: "jsonlist \<Rightarrow> bytes res"
  ml_sdk :: "'acc sdk"
  ml_btree :: "'t btree"
  ml_visit :: "(string \<times> int) list \<Rightarrow> (string \<times> int) list"
  ml_lru :: "'l lru"
  ml_api :: api_start

text \<open>The application is created on a new multi-store and its connections are started; a failure panics.\<close>

definition started_app ::
  "('s, 'b, 'm, 'x, 'gen, 'i, 'ib, 'tx, 'acc, 't, 'l, 'v, 'p) main_lib \<Rightarrow> ('v, 'p) Store prog" where
  "started_app M =
     (let cms = NewStore (ml_pruningManager M) (ml_defaultCacheSize M) in
      bind_prog (ml_newApp M (main_sdk_config (ml_core M) (ml_verifier M)) cms) (\<lambda>cms.
        case ml_OnStart M of Some startErr \<Rightarrow> Abort startErr | None \<Rightarrow> Done cms))"

definition main_instance ::
  "('s, 'b, 'm, 'x, 'gen, 'i, 'ib, 'tx, 'acc, 't, 'l, 'v, 'p) main_lib \<Rightarrow> (('v, 'p) Store \<times> ('m, 'x) Instance) prog" where
  "main_instance M =
     bind_prog (started_app M) (\<lambda>cms. bind_prog (NewMantlemint (ml_tm M) None None) (\<lambda>mm. Done (cms, mm)))"

definition register_indexers ::
  "('s, 'b, 'm, 'x, 'gen, 'i, 'ib, 'tx, 'acc, 't, 'l, 'v, 'p) main_lib \<Rightarrow> Config \<Rightarrow> ('x, 't Richlist) Indexer \<Rightarrow>
   ('x, 't Richlist) Indexer" where
  "register_indexers M cfg idx =
     RegisterIndexerService (RegisterIndexerService (RegisterIndexerService idx
       ''tx'' (CreateIndexer (IndexTx (ml_tx M))))
       ''block'' (CreateIndexer (IndexBlock (ml_MarshalBlock M))))
       ''richlist'' (CreateIndexer (IndexRichlist (ml_MarshalRichlist M) (ml_sdk M) (ml_btree M)
         (richlist_config cfg) (ml_visit M)))"

text \<open>The parts as the loop uses them.\<close>

definition main_env ::
  "('s, 'b, 'm, 'x, 'gen, 'i, 'ib, 'tx, 'acc, 't, 'l, 'v, 'p) main_lib \<Rightarrow> Config \<Rightarrow> driver \<Rightarrow> SnappyDB \<Rightarrow>
   ('x, 't Richlist) Indexer \<Rightarrow> ('s, 'b, 'm, 'x, 'gen, 'i, 'ib SnappyBatch, 't Richlist) sync_env" where
  "main_env M cfg d snappy idx =
     \<lparr>se_session = ml_session M, se_driver = d, se_tm = ml_tm M,
      se_index_db = snappy_db (ml_codec M) (ml_index_session M) snappy, se_indexer = register_indexers M cfg idx\<rparr>"

text \<open>How far \<open>main\<close> gets: a panic before or after there is an instance, waiting without a feed, or the loop.\<close>

datatype ('e, 'y, 'r, 'f, 'c) boot =
    BootPanic string
  | BootHalted string 'y
  | Waiting 'e 'y 'r 'c
  | Following 'e 'y 'r 'f 'c

text \<open>Services, server and subscription, once the state is loaded.\<close>

definition main_services ::
  "('s, 'b, 'm, 'x, 'gen, 'i, 'ib, 'tx, 'acc, 't, 'l, 'v, 'p) main_lib \<Rightarrow> Config \<Rightarrow> driver \<Rightarrow>
   ('v, 'p) Store \<Rightarrow> ('s, 'b, 'm, 'x, 'i, 't Richlist) sync \<Rightarrow>
   (('s, 'b, 'm, 'x, 'gen, 'i, 'ib SnappyBatch, 't Richlist) sync_env, ('s, 'b, 'm, 'x, 'i, 't Richlist) sync,
    ('v, 'p) Store, 'x feed, 'l CacheBackend \<times> 'l CacheBackend) boot" where
  "main_services M cfg d cms y =
     (case NewIndexer (ml_open_index M) (cfg_IndexerDB cfg) (cfg_Home cfg) of
        Err indexerInstanceErr \<Rightarrow> BootHalted indexerInstanceErr y
      | Panic p \<Rightarrow> BootHalted p y
      | Ok (i, snappy, idx) \<Rightarrow>
          let E = main_env M cfg d snappy idx; y1 = y\<lparr>sy_index := i\<rparr> in
          (case StartRPC (ml_lru M) (ml_api M) of
             Err rpcErr \<Rightarrow> BootHalted rpcErr y1
           | Panic p \<Rightarrow> BootHalted p y1
           | Ok caches \<Rightarrow>
               (case main_feed cfg y1 of
                  None \<Rightarrow> Waiting E y1 cms caches
                | Some f \<Rightarrow> Following E y1 cms f caches)))"

definition main_boot ::
  "('s, 'b, 'm, 'x, 'gen, 'i, 'ib, 'tx, 'acc, 't, 'l, 'v, 'p) main_lib \<Rightarrow> Config \<Rightarrow>
   (('s, 'b, 'm, 'x, 'gen, 'i, 'ib SnappyBatch, 't Richlist) sync_env, ('s, 'b, 'm, 'x, 'i, 't Richlist) sync,
    ('v, 'p) Store, 'x feed, 'l CacheBackend \<times> 'l CacheBackend) boot" where
  "main_boot M cfg =
     (case ml_RegisterDenom M (cc_BondDenom (ml_core M)) (1, 6) of
        Some err \<Rightarrow> BootPanic err
      | None \<Rightarrow>
     (case NewLevelDBDriver (ml_open M)
         \<lparr>cfg_Name = cfg_MantlemintDB cfg, cfg_Dir = cfg_Home cfg, cfg_Mode = DriverModeKeySuffixDesc\<rparr> of
        Err ldbErr \<Rightarrow> BootPanic ldbErr
      | Panic p \<Rightarrow> BootPanic p
      | Ok (s, d) \<Rightarrow>
     (let E = main_env M cfg d (NewSnappyDB CompatModeEnabled) \<lparr>ix_indexerTags = [], ix_indexers = []\<rparr> in
      case run_prog (node_db (ml_session M) d) (main_instance M) (new_stack s, []) of
        Crashed p c \<Rightarrow> BootPanic p
      | Returned (cms, mm) c \<Rightarrow>
     (case snd (getGenesisDoc (ml_ReadFile M) (ml_sha1 M) (ml_GenesisDocFromFile M) (cfg_GenesisPath cfg)) of
        Err e \<Rightarrow> BootPanic e
      | Panic p \<Rightarrow> BootPanic p
      | Ok genesisDoc \<Rightarrow>
     (case sync_genesis E
         \<lparr>sy_node = fst c, sy_mm = mm, sy_rollback = None, sy_index = ml_closed M,
          sy_memory = NewRichlist (ml_btree M) 0 (cfg_RichlistThreshold cfg), sy_invalidated = []\<rparr>
         genesisDoc (ml_InitialHeight M genesisDoc) of
        Halted p y \<Rightarrow> BootHalted p y
      | Running y \<Rightarrow> main_services M cfg d cms y)))))"

section \<open>A start that goes through\<close>

text \<open>The creation of the application without its result, as \<open>new_instance\<close> takes it.\<close>

definition loading :: "('s, 'b, 'm, 'x, 'gen, 'i, 'ib, 'tx, 'acc, 't, 'l, 'v, 'p) main_lib \<Rightarrow> unit prog" where
  "loading M = bind_prog (started_app M) (\<lambda>_. Done ())"

lemma main_instance_run:
  "run_prog D (main_instance M) c = Returned (cms, mm) c' \<Longrightarrow> run_prog D (new_instance (ml_tm M) (loading M)) c = Returned mm c'"
  by (auto simp: main_instance_def new_instance_def loading_def run_bind_prog split: run.splits)

lemma boot_following:
  assumes "main_boot M cfg = Following E y cms f caches"
  obtains s gen i y0 where "ml_open M (cfg_MantlemintDB cfg) (cfg_Home cfg) = Ok s"
    "ml_GenesisDocFromFile M (cfg_GenesisPath cfg) = Ok gen" "se_session E = ml_session M" "se_driver E = node_driver"
    "se_tm E = ml_tm M"
    "main_start E (loading M) gen (ml_InitialHeight M gen) (ml_closed M)
      (NewRichlist (ml_btree M) 0 (cfg_RichlistThreshold cfg)) s = Inl (Running y0)"
    "y = y0\<lparr>sy_index := i\<rparr>" "main_feed cfg y = Some f"
proof -
  let ?cfg = "\<lparr>cfg_Name = cfg_MantlemintDB cfg, cfg_Dir = cfg_Home cfg, cfg_Mode = DriverModeKeySuffixDesc\<rparr>"
  let ?E = "\<lambda>d. main_env M cfg d (NewSnappyDB CompatModeEnabled) \<lparr>ix_indexerTags = [], ix_indexers = []\<rparr>"
  let ?y = "\<lambda>mm c. \<lparr>sy_node = fst c, sy_mm = mm, sy_rollback = None, sy_index = ml_closed M,
    sy_memory = NewRichlist (ml_btree M) 0 (cfg_RichlistThreshold cfg), sy_invalidated = []\<rparr>"
  obtain s d cms' mm c gen y0 where open_: "NewLevelDBDriver (ml_open M) ?cfg = Ok (s, d)"
    and inst: "run_prog (node_db (ml_session M) d) (main_instance M) (new_stack s, []) = Returned (cms', mm) c"
    and gen: "snd (getGenesisDoc (ml_ReadFile M) (ml_sha1 M) (ml_GenesisDocFromFile M) (cfg_GenesisPath cfg)) = Ok gen"
    and y0: "sync_genesis (?E d) (?y mm c) gen (ml_InitialHeight M gen) = Running y0"
    and services: "main_services M cfg d cms' y0 = Following E y cms f caches"
    using assms by (auto simp: main_boot_def Let_def split: option.splits res.splits run.splits outcome.splits)
  have s: "ml_open M (cfg_MantlemintDB cfg) (cfg_Home cfg) = Ok s" "d = node_driver"
    using open_ by (auto simp: NewLevelDBDriver_def bind_res_eq_Ok node_driver_def)
  have fromFile: "ml_GenesisDocFromFile M (cfg_GenesisPath cfg) = Ok gen"
    using gen by (simp add: getGenesisDoc_def Let_def split: res.splits)
  obtain i snappy idx where "NewIndexer (ml_open_index M) (cfg_IndexerDB cfg) (cfg_Home cfg) = Ok (i, snappy, idx)"
    and E: "E = main_env M cfg d snappy idx" and y: "y = y0\<lparr>sy_index := i\<rparr>" "main_feed cfg y = Some f"
    using services by (auto simp: main_services_def Let_def split: option.splits res.splits)
  then have "E = ?E d"
    by (auto simp: NewIndexer_def bind_res_eq_Ok)
  then show thesis
    using that [OF s(1) fromFile _ _ _ _ y] main_instance_run [OF inst] y0 s(2) by (simp add: main_env_def main_start_def)
qed

text \<open>Loading and genesis leave what lies below the newest height on disk.\<close>

context node_stack
begin

lemma start_history:
  assumes "start_ok K (se_tm E) newApp" and "se_session E = S" and "se_driver E = d" and "driver_ok contents d K s t"
    and "\<And>mm qs n. spec_prog (driver_view contents d s 0) (new_instance (se_tm E) newApp) 0 = Ok (mm, qs, n) \<Longrightarrow>
      mm_lastHeight mm = 0 \<Longrightarrow> next_height t h0 \<and> unat h0 \<le> m"
    and "t \<le> m" and "main_start E newApp gen h0 i g s = Inl (Running y)"
  obtains t' where "t \<le> t'" "t' \<le> m" "idle contents d K t' y" "sy_rollback y = None"
    "\<And>h. h \<noteq> 0 \<Longrightarrow> unat h < t \<Longrightarrow> disk contents d y h = driver_view contents d s h"
proof -
  obtain mm qs n y0 where sp: "spec_prog (driver_view contents d s 0) (new_instance (se_tm E) newApp) 0 = Ok (mm, qs, n)"
    and y0: "idle contents d K t y0" "sy_mm y0 = mm" "sy_rollback y0 = None" "disk contents d y0 = driver_view contents d s"
    and gen: "sync_genesis E y0 gen h0 = Running y"
    using start_running [OF assms(1-4,7)] .
  show thesis
  proof (cases "mm_lastHeight mm = 0")
    case True
    then have h0: "next_height t h0" "unat h0 \<le> m"
      using assms(5) [OF sp] by simp_all
    from genesis_new [OF assms(1-3) y0(1) h0(1) gen] y0(3,4) h0 show thesis
      by (intro that [of "unat h0"]) (auto simp: next_height_def)
  next
    case False
    with genesis_resumed [OF assms(1-3) y0(1) _ gen] y0(2-4) assms(6) show thesis
      by (intro that [of t]) auto
  qed
qed

text \<open>The loop leaves what lies below its blocks, also when it stops.\<close>

lemma run_history:
  assumes "executor_ok K (se_tm E)" and "se_session E = S" and "se_driver E = d"
    and "idle contents d K t y" and "sy_rollback y = None" and "feed_ok t feed" and "h \<noteq> 0" and "unat h < t"
  shows "case sync_run E y feed of
      Running y' \<Rightarrow> (\<exists>t'. idle contents d K t' y') \<and> disk contents d y' h = disk contents d y h
    | Halted p y' \<Rightarrow> disk contents d y' h = disk contents d y h"
proof -
  have below: "\<forall>x\<in>set xs. unat h < unat (blk_Height (fst x))" if "feed_ok t' xs" "unat h < t'" for t' xs
    using that by (induction t' xs rule: feed_ok.induct) (auto simp: next_height_def)
  have prefix: "feed_ok t (take n feed)" for n
    using assms(6) by (induction t feed arbitrary: n rule: feed_ok.induct) (auto simp: take_Cons split: nat.split)
  show ?thesis
  proof (cases "sync_run E y feed")
    case (Running y')
    then show ?thesis
      using run_running [OF assms(1-4,6) Running] below [OF assms(6,8)] assms(7) by auto
  next
    case (Halted p y')
    then obtain n y1 where "sync_run E y (take n feed) = Running y1" "disk contents d y' = disk contents d y1"
      using run_whole_blocks [OF assms(1-6)] by blast
    then show ?thesis
      using run_running [OF assms(1-4) prefix] below [OF prefix assms(8)] assms(7) Halted by auto
  qed
qed

end

lemma branch_reads:
  assumes "level_session S contents pending" and "key_universe (drv_mode d) K" and "driver_ok contents d K (fst hw) t"
    and "valid_height version" and "pfx @ key \<in> K" and "key \<noteq> []"
  shows "branch_Get (driver_db S d) hw (AtHeight version pfx) key = Some (Ok (driver_view contents d (fst hw) version (pfx @ key)))"
proof -
  have "reader_inv (driver_ok contents d K) (fst hw, BranchHeightLimitedDB (snd hw) version)"
    using assms(3,4) by (auto simp: reader_inv_def BranchHeightLimitedDB_def SetReadHeight_def)
  from adapter_Get_view [OF assms(1,2) this assms(5,6)] show ?thesis
    by (simp add: hld_view_def BranchHeightLimitedDB_def SetReadHeight_def)
qed

section \<open>Property\<close>

text \<open>
  C12. What the node found on disk is served as it was found. \<open>main\<close> is started on a database whose
  newest block is at \<open>t\<close>, creates the application on its multi-store \<open>cms\<close>, goes through genesis and loading,
  and follows a network that answers as documented. In every state the feed reaches, after the blocks the
  loop has received so far, the multi-store, with the mounted stores of \<open>cms\<close> and whatever commit it is at,
  has at a version below \<open>t\<close> a branch that reads the state of that version as it was before the start;
  if the loop stops, at whatever block, that state is still the one on disk.
\<close>

theorem history_survives:
  assumes "level_session (ml_session M) contents pending" and "key_universe (drv_mode node_driver) K"
    and "start_ok K (ml_tm M) (loading M)" and "executor_ok K (ml_tm M)"
    and "main_boot M cfg = Following E y cms f caches"
    and "ml_open M (cfg_MantlemintDB cfg) (cfg_Home cfg) = Ok s0" and "driver_ok contents node_driver K s0 t"
    and "\<forall>mm qs n gen. spec_prog (driver_view contents node_driver s0 0) (new_instance (ml_tm M) (loading M)) 0 = Ok (mm, qs, n) \<longrightarrow>
      mm_lastHeight mm = 0 \<longrightarrow> ml_GenesisDocFromFile M (cfg_GenesisPath cfg) = Ok gen \<longrightarrow>
      next_height t (ml_InitialHeight M gen) \<and> unat (ml_InitialHeight M gen) \<le> n0 + 1"
    and "honest_network N chain start (cfg_RPCEndpoints cfg) n0" and "GetCurrentHeight (sy_mm y) = of_nat n0" and "t \<le> n0 + 1"
    and "feed_reach N f s" and "n0 + length (fd_out s) < 2 ^ 56 - 1"
    and "node_stores cms" and "rs_stores rs = rs_stores cms" and "rs_interBlockCache rs = None" and "rs_lastCommitInfo rs = Some ci"
    and "version \<noteq> 0" and "unat version < t" and "valid_height version" and "version \<noteq> ci_Version ci"
  shows "case sync_run E y (received s) of
      Running y' \<Rightarrow> \<exists>bs. CacheMultiStoreWithVersion lib rs version = Done (Inl bs) \<and>
        (\<forall>k pfx key. map_of (rs_stores cms) k = Some (CommitDB MainDB pfx) \<longrightarrow> pfx @ key \<in> K \<longrightarrow> key \<noteq> [] \<longrightarrow>
          (\<exists>b. map_of bs k = Some b \<and> branch_Get (driver_db (ml_session M) node_driver) (sb_store (sy_node y')) b key =
            Some (Ok (driver_view contents node_driver s0 version (pfx @ key)))))
    | Halted p y' \<Rightarrow> disk contents node_driver y' version = driver_view contents node_driver s0 version"
proof -
  note ns = node_stack_intro [OF assms(1,2)]
  have rs: "node_stores rs"
    using assms(14-16) by (simp add: node_stores_def)
  obtain gen i y0 where gen: "ml_GenesisDocFromFile M (cfg_GenesisPath cfg) = Ok gen"
    and E: "se_session E = ml_session M" "se_driver E = node_driver" "se_tm E = ml_tm M"
    and y0: "main_start E (loading M) gen (ml_InitialHeight M gen) (ml_closed M)
      (NewRichlist (ml_btree M) 0 (cfg_RichlistThreshold cfg)) s0 = Inl (Running y0)"
    and y: "y = y0\<lparr>sy_index := i\<rparr>" and f: "main_feed cfg y = Some f"
    by (rule boot_following [OF assms(5)]) (use assms(6) in auto)
  obtain t' where t': "t \<le> t'" "t' \<le> n0 + 1" "idle contents node_driver K t' y0" "sy_rollback y0 = None"
    and found: "\<And>h. h \<noteq> 0 \<Longrightarrow> unat h < t \<Longrightarrow> disk contents node_driver y0 h = driver_view contents node_driver s0 h"
    by (rule node_stack.start_history [OF ns _ E(1,2) assms(7) _ assms(11) y0]) (use assms(3,8) gen in \<open>auto simp: E(3)\<close>)
  have idle: "idle contents node_driver K t' y" "sy_rollback y = None"
    and disk: "disk contents node_driver y = disk contents node_driver y0"
    using t'(3,4) by (simp_all add: y idle_def disk_def)
  have feed: "feed_ok t' (received s)"
    by (rule received_chain(3) [OF assms(9,10) f assms(12,13) t'(2)])
  have "unat version < t'"
    using assms(19) t'(1) by simp
  note run = node_stack.run_history [OF ns _ E(1,2) idle feed assms(18) this, unfolded E(3), OF assms(4), unfolded disk found [OF assms(18,19)]]
  show ?thesis
  proof (cases "sync_run E y (received s)")
    case (Running y')
    then obtain t'' where ok: "driver_ok contents node_driver K (fst (sb_store (sy_node y'))) t''"
      and view: "driver_view contents node_driver (fst (sb_store (sy_node y'))) version = driver_view contents node_driver s0 version"
      using run by (auto simp: idle_def disk_def)
    let ?bs = "map (\<lambda>(k, s). (k, branch_of ci version s)) (rs_stores rs)"
    have "\<exists>b. map_of ?bs k = Some b \<and> branch_Get (driver_db (ml_session M) node_driver) (sb_store (sy_node y')) b key =
        Some (Ok (driver_view contents node_driver s0 version (pfx @ key)))"
      if "map_of (rs_stores cms) k = Some (CommitDB MainDB pfx)" "pfx @ key \<in> K" "key \<noteq> []" for k pfx key
      using that branch_reads [OF assms(1,2) ok assms(20) that(2,3)] view assms(15,21)
      by (simp add: map_of_map branch_of_def)
    then show ?thesis
      using Running CacheMultiStoreWithVersion_node [OF assms(17) rs, of lib version] by auto
  next
    case (Halted p y')
    with run show ?thesis by simp
  qed
qed

text \<open>
  Sample: a disk with the blocks 4 and 5, each of which stored its height as a balance; the node
  resumes at 5 and follows the sample network to 7.
\<close>

definition boot_tm :: "(unit, unit, unit) tm_library" where
  "boot_tm = sample_tm_library
     \<lparr>tm_ApplyBlock := (\<lambda>st bid b. Call (CallSet [98, 1] [ucast (blk_Height b)]) (\<lambda>r.
        Done ([EventNewBlock b \<lparr>br_Events = []\<rparr> \<lparr>br_Events = []\<rparr>], Inl (st\<lparr>st_LastBlockHeight := blk_Height b\<rparr>, 0)))),
      tm_LoadState := Done (Inl \<lparr>st_AppHash = [], st_LastBlockHeight = 5, st_InitialHeight = 1, st_LastResultsHash = [],
        st_rest = ()\<rparr>)\<rparr>"

definition boot_history :: "(mem_store, mem_batch, unit, unit, mem_store, unit) sync outcome" where
  "boot_history = sync_run (sample_env\<lparr>se_tm := boot_tm\<rparr>) sample_sync [(sample_chain 4, None), (sample_chain 5, None)]"

definition boot_disk :: mem_store where
  "boot_disk = [([2, 98, 1, 255, 255, 255, 255, 255, 255, 255, 250], [0, 5]), ([1, 98, 1], []), ([0, 98, 1], [5]),
     ([2, 98, 1, 255, 255, 255, 255, 255, 255, 255, 251], [0, 4]), ([1, 98, 1], []), ([0, 98, 1], [4])]"

definition boot_lru :: "unit lru" where
  "boot_lru = \<lparr>lru_New = (\<lambda>n. Ok ()), lru_Add = (\<lambda>_ _ _. (False, ())), lru_Get = (\<lambda>_ _. (None, ())), lru_Len = (\<lambda>_. 0),
     lru_Purge = (\<lambda>_. ())\<rparr>"

text \<open>The application mounts one store, whose version 5 is committed.\<close>

definition boot_mounted :: "(unit, unit) Store \<Rightarrow> (unit, unit) Store" where
  "boot_mounted cms = cms\<lparr>rs_stores := [(sample_key ''bank'', CommitDB MainDB [98])],
     rs_lastCommitInfo := Some \<lparr>ci_Version = 5, ci_StoreInfos = []\<rparr>\<rparr>"

definition boot_lib ::
  "(mem_store, mem_batch, unit, unit, unit, mem_store, mem_batch, bytes, string, Ranker list, unit, unit, unit) main_lib" where
  "boot_lib = \<lparr>ml_core = \<lparr>cc_CoinType = 330, cc_AccountAddressPrefix = ''terra'', cc_BondDenom = ''uluna''\<rparr>,
     ml_verifier = (\<lambda>a. None), ml_RegisterDenom = (\<lambda>d p. None), ml_open = (\<lambda>name dir. Ok boot_disk), ml_session = mem_db,
     ml_pruningManager = (), ml_defaultCacheSize = 0, ml_newApp = (\<lambda>c cms. Done (boot_mounted cms)), ml_OnStart = None, ml_tm = boot_tm, ml_ReadFile = (\<lambda>f. ([], None)), ml_sha1 = (\<lambda>b. []),
     ml_GenesisDocFromFile = (\<lambda>f. Ok ()), ml_InitialHeight = (\<lambda>g. 1), ml_open_index = (\<lambda>name dir. Ok []), ml_closed = [],
     ml_index_session = mem_db, ml_codec = sample_codec, ml_tx = sample_tx_library, ml_MarshalBlock = (\<lambda>r. Ok [66]),
     ml_MarshalRichlist = (\<lambda>j. Ok []), ml_sdk = sample_sdk, ml_btree = list_btree, ml_visit = (\<lambda>x. x), ml_lru = boot_lru,
     ml_api = Serves\<rparr>"

lemma boot_history_disk: "case boot_history of Running y \<Rightarrow> fst (sb_store (sy_node y)) = boot_disk | Halted p y \<Rightarrow> False"
  by code_simp

lemma boot_disk_reads:
  "branch_Get (driver_db mem_db node_driver) (boot_disk, ApplyHeightLimitedDB True) (AtHeight 4 [98] :: unit branch_store) [1] =
    Some (Ok (Some [4]))"
  by code_simp

lemma boot_starts:
  "case main_boot boot_lib follow_config of
     Following E y cms f c \<Rightarrow> GetCurrentHeight (sy_mm y) = 5 \<and> f = sample_feed_start \<and>
       rs_stores cms = [(sample_key ''bank'', CommitDB MainDB [98])] \<and> rs_interBlockCache cms = None \<and>
       rs_lastCommitInfo cms = Some \<lparr>ci_Version = 5, ci_StoreInfos = []\<rparr> \<and>
       outcome_running (sync_run E y [(sample_chain 6, None), (sample_chain 7, None)])
   | _ \<Rightarrow> False"
  by code_simp

lemma boot_universe: "key_universe (drv_mode d) {[98, 1]}"
  by (auto simp: key_universe_def separated_def extends_by_edge_def)

lemma node_driver_sample: "node_driver = sample_driver"
  by (simp add: node_driver_def sample_driver_def)

lemma boot_executor: "executor_ok {[98, 1]} boot_tm" "start_ok {[98, 1]} (ml_tm boot_lib) (loading boot_lib)"
  by (simp_all add: executor_ok_def start_ok_def loading_def started_app_def boot_lib_def boot_tm_def sample_tm_library_def)

lemma boot_disk_ok: "driver_ok mem_contents node_driver {[98, 1]} boot_disk 5"
proof -
  obtain y where y: "boot_history = Running y" "fst (sb_store (sy_node y)) = boot_disk"
    using boot_history_disk by (auto split: outcome.splits)
  have "idle mem_contents sample_driver {[98, 1]} 0 sample_sync"
    using driver_ok_empty by (simp add: idle_def sample_sync_def NewSafeBatchDB_def ApplyHeightLimitedDB_def)
  moreover have "feed_ok 0 [(sample_chain 4, None), (sample_chain 5, None)]"
    by (simp add: sample_chain_def next_height_def valid_height_def)
  ultimately have "idle mem_contents sample_driver {[98, 1]} 5 y"
    using node_stack.run_running [OF node_stack_intro [OF mem.level_session_axioms boot_universe], of "sample_env\<lparr>se_tm := boot_tm\<rparr>" sample_driver]
      boot_executor(1) y(1)
    by (fastforce simp: boot_history_def sample_env_def sample_chain_def)
  then show ?thesis
    using y(2) by (simp add: idle_def node_driver_sample)
qed

theorem history_survives_witness:
  "\<exists>E y cms f c s y' bs b. main_boot boot_lib follow_config = Following E y cms f c \<and> feed_run sample_net follow_schedule f = Some s \<and>
    sync_run E y (received s) = Running y' \<and> CacheMultiStoreWithVersion sample_lib cms 4 = Done (Inl bs) \<and>
    map_of bs (sample_key ''bank'') = Some b \<and>
    branch_Get (driver_db mem_db node_driver) (sb_store (sy_node y')) b [1] = Some (Ok (Some [4]))"
proof -
  obtain E y cms c where boot: "main_boot boot_lib follow_config = Following E y cms sample_feed_start c"
    and cms: "rs_stores cms = [(sample_key ''bank'', CommitDB MainDB [98])]" "rs_interBlockCache cms = None"
      "rs_lastCommitInfo cms = Some \<lparr>ci_Version = 5, ci_StoreInfos = []\<rparr>"
    and h: "GetCurrentHeight (sy_mm y) = of_nat 5"
    and "outcome_running (sync_run E y [(sample_chain 6, None), (sample_chain 7, None)])"
    using boot_starts by (auto split: boot.splits)
  moreover obtain s where s: "feed_run sample_net follow_schedule sample_feed_start = Some s" "length (fd_out s) = 2"
    "received s = [(sample_chain 6, None), (sample_chain 7, None)]"
    using follow_received by blast
  ultimately obtain y' where y': "sync_run E y (received s) = Running y'"
    by (auto simp: outcome_running_iff)
  have val: "driver_view mem_contents node_driver boot_disk 4 [98, 1] = Some [4]"
    using branch_reads [OF mem.level_session_axioms boot_universe, of node_driver "(boot_disk, ApplyHeightLimitedDB True)" 5 4 "[98]" "[1]"]
      boot_disk_ok boot_disk_reads by (simp add: valid_height_def)
  have lib: "level_session (ml_session boot_lib) mem_contents mem_pending" "executor_ok {[98, 1]} (ml_tm boot_lib)"
    "ml_open boot_lib (cfg_MantlemintDB follow_config) (cfg_Home follow_config) = Ok boot_disk" "ml_session boot_lib = mem_db"
    using mem.level_session_axioms boot_executor(1) by (simp_all add: boot_lib_def)
  have new: "\<forall>mm qs n gen. spec_prog (driver_view mem_contents node_driver boot_disk 0) (new_instance (ml_tm boot_lib) (loading boot_lib)) 0 =
      Ok (mm, qs, n) \<longrightarrow> mm_lastHeight mm = 0 \<longrightarrow> ml_GenesisDocFromFile boot_lib (cfg_GenesisPath follow_config) = Ok gen \<longrightarrow>
      next_height 5 (ml_InitialHeight boot_lib gen) \<and> unat (ml_InitialHeight boot_lib gen) \<le> 5 + 1"
    by (simp add: boot_lib_def loading_def started_app_def new_instance_def NewMantlemint_def boot_tm_def)
  have root: "node_stores cms" "rs_interBlockCache cms = None" "rs_lastCommitInfo cms = Some \<lparr>ci_Version = 5, ci_StoreInfos = []\<rparr>"
    "map_of (rs_stores cms) (sample_key ''bank'') = Some (CommitDB MainDB [98])"
    by (simp_all add: cms node_stores_def)
  have reach: "feed_reach sample_net sample_feed_start s"
    by (rule feed_run_reach [OF s(1) feed_reach.start])
  have side: "(5 :: nat) \<le> 5 + 1" "5 + length (fd_out s) < 2 ^ 56 - 1" "(4 :: int64) \<noteq> 0" "unat (4 :: int64) < 5" "valid_height 4"
    "4 \<noteq> ci_Version \<lparr>ci_Version = 5, ci_StoreInfos = []\<rparr>"
    by (simp_all add: s(2) valid_height_def)
  note kept = history_survives [OF lib(1) boot_universe boot_executor(2) lib(2) boot lib(3) boot_disk_ok new follow_parts(4) h side(1)
    reach side(2) root(1) refl root(2,3) side(3-6), of sample_lib, unfolded y' outcome.case lib(4)]
  obtain bs where bs: "CacheMultiStoreWithVersion sample_lib cms 4 = Done (Inl bs)"
    and reads: "\<And>k pfx key. map_of (rs_stores cms) k = Some (CommitDB MainDB pfx) \<Longrightarrow> pfx @ key \<in> {[98, 1]} \<Longrightarrow> key \<noteq> [] \<Longrightarrow>
      \<exists>b. map_of bs k = Some b \<and> branch_Get (driver_db mem_db node_driver) (sb_store (sy_node y')) b key =
        Some (Ok (driver_view mem_contents node_driver boot_disk 4 (pfx @ key)))"
    using kept by blast
  obtain b where "map_of bs (sample_key ''bank'') = Some b"
    "branch_Get (driver_db mem_db node_driver) (sb_store (sy_node y')) b [1] = Some (Ok (Some [4]))"
    using reads [OF root(4), of "[1]"] val by auto
  with boot s(1) y' bs show ?thesis
    by (intro exI conjI)
qed

end
