(* ===== verification/Spec2Isabelle.thy ===== *)
theory Spec2Isabelle
  imports Level_Correct Hld_Contract Node_Store Snappy_DB Richlist_Correct Index_Correct Sync_Correct
    Block_Feed_Correct Rpc_Cache_Correct Rootmulti_Correct Local_Client Config Export Rest_Server Node_Main
    Block_Feed_Live Node_Boot
begin

text \<open>
  Mantlemint, a node that follows a Tendermint chain without consensus and serves queries.

  \<^bold>\<open>The program.\<close> The main loop (\<open>src/sync.go\<close>) takes blocks from a feed
  (\<open>src/block_feed\<close>), injects each one into the application (\<open>src/mantlemint\<close>), runs the indexers
  over it (\<open>src/indexer\<close>), flushes the block to disk and purges the response cache of the REST
  server (\<open>src/rpc\<close>). Blocks reach the application through a local ABCI client with one mutex,
  queries without it (\<open>src/mantlemint/client.go\<close>). All state of the application goes through a stack of databases
  (\<open>src/db\<close>): a safe batch database that gathers the writes of a block, over a height-limited
  database that adds a read and a write height, over a LevelDB driver that keeps every version of
  every key. The application's multi-store (\<open>src/store/rootmulti\<close>) writes to that stack and
  branches read-only views at past heights from it. The indexers write to a second database that
  compresses values.

  \<^bold>\<open>Conventions.\<close> A call returns \<open>Ok x\<close>, \<open>Err e\<close> for an error value or \<open>Panic p\<close>
  (\<open>Prelude\<close>); \<open>int64\<close> and \<open>uint64\<close> are 64-bit words, so arithmetic wraps; byte strings are lists
  of 8-bit words ordered like \<open>bytes.Compare\<close>. Mutable objects are records passed and returned. A
  database is a record of its methods (\<open>Tm_DB.tmdb\<close>), as in the interface of \<open>tm-db\<close>. Code that
  talks to the database of the node is a client program (\<open>Safe_Batch.prog\<close>), a tree of calls and
  continuations, so that what the database answers decides how it goes on; Go maps are lists of
  entries in the order the iteration visits them; goroutines are state machines that one action
  at a time makes step, so that the theorems hold for all interleavings. Code outside the
  repository (LevelDB, the snappy codec, the Tendermint executor and state store, the SDK's trees,
  pruning manager and encodings, the B-tree, the LRU list, the HTTP router, websocket and JSON) is a
  parameter, with what is documented of it as the assumptions of a locale, and every such locale
  has an instance.

  \<^bold>\<open>Theories.\<close>
  \<^item> \<open>Prelude\<close>, \<open>Tm_DB\<close>: results, byte strings, big-endian numbers, the database interface, its
    contracts \<open>kv_point\<close>, \<open>kv_read\<close>, \<open>kv_batch\<close> and \<open>level_session\<close>, and an in-memory database
    that meets them.
  \<^item> \<open>Lib_Bytes\<close> (\<open>src/lib/bytes.go\<close>), \<open>Rollbackable\<close> (\<open>src/db/rollbackable\<close>), \<open>Hld_Height\<close>
    (\<open>src/db/hld/cluster_utils.go\<close>).
  \<^item> \<open>He_LevelDB\<close>: \<open>src/db/heleveldb\<close>, the driver. \<open>Level_History\<close> has the abstract history of a
    key, \<open>Level_Read\<close>, \<open>Level_Iter\<close> and \<open>Level_Write\<close> show that reads, iterators and batches of the
    driver implement it, \<open>Level_Correct\<close> has the properties of the driver.
  \<^item> \<open>Hld\<close>, \<open>Hld_Contract\<close>: \<open>src/db/hld\<close>; the locales \<open>height_store\<close> and \<open>height_rollback\<close> are the
    contract between it and the driver, which meets them.
  \<^item> \<open>Safe_Batch\<close>, \<open>Safe_Batch_Atomic\<close>: \<open>src/db/safe_batch\<close>; \<open>spec_prog\<close> is the specification of a
    block of client calls, \<open>kv_store\<close> the contract it needs from the store below.
  \<^item> \<open>Node_Store\<close>: the stack the node builds, with atomicity, history and roll back of a block.
  \<^item> \<open>Snappy_DB\<close>: \<open>src/db/snappy\<close>.
  \<^item> \<open>Tm_Types\<close>, \<open>Event_Collector\<close>, \<open>Mantlemint\<close>: the blocks and events of Tendermint the code
    uses, \<open>src/mantlemint/event.go\<close> and \<open>src/mantlemint/reactor.go\<close>.
  \<^item> \<open>Indexer\<close>, \<open>Richlist\<close>, \<open>Index_Correct\<close>, \<open>Richlist_Correct\<close>: \<open>src/indexer\<close>.
  \<^item> \<open>Sync\<close>, \<open>Sync_Correct\<close>: \<open>main\<close> of \<open>src/sync.go\<close> from the initialisation with genesis on.
  \<^item> \<open>Config\<close>: \<open>src/config\<close>. \<open>Node_Main\<close>: the start of \<open>main\<close> with the stack it builds, and
    its subscription; the feed and the loop together. \<open>Node_Boot\<close>: \<open>main\<close> from its first line, with the
    configuration of the SDK, the genesis file, the indexers and the start of the API server
    (\<open>src/rpc/register.go\<close>), and the history of the node from one start to the next.
  \<^item> \<open>Local_Client\<close>: \<open>src/mantlemint/client.go\<close> and \<open>src/rpc/client.go\<close>; a method is the list of its
    steps on the lock, the application and the callback, which the goroutines interleave.
  \<^item> \<open>Block_Feed\<close>, \<open>Block_Feed_Correct\<close>, \<open>Block_Feed_Live\<close>: \<open>src/block_feed\<close>, the order of the blocks on
    a network that answers as documented (\<open>honest_network\<close>), and progress on one that is up
    (\<open>live_network\<close>).
  \<^item> \<open>Rpc_Cache\<close>, \<open>Rpc_Cache_Correct\<close>: \<open>src/rpc/cache.go\<close> and the choice of the cache, health route and
    invalidator of \<open>src/rpc/register.go\<close>. \<open>Export\<close>: \<open>src/export\<close>. \<open>Rest_Server\<close>: the routes, the
    middleware and the caches of \<open>StartRPC\<close> over time, with the channel between the main loop and the
    invalidator; a request is one step there, its interleavings are in \<open>Rpc_Cache_Correct\<close>.
  \<^item> \<open>Rootmulti\<close>, \<open>Rootmulti_Correct\<close>: \<open>src/store/rootmulti\<close>.

  \<^bold>\<open>What is shown.\<close> The driver's reads and iterators at a height give the state after the
  blocks up to that height; committing a block changes exactly the heights from its own on, and
  its rollback batch restores the session. The stack makes a block atomic: a client sees the
  state at \<open>Open\<close>, \<open>Flush\<close> applies all its writes in order, a panic none. The main loop is crash
  consistent: whenever it stops, the disk holds a whole number of blocks; a failed injection takes
  the block before it back. The multi-store finds its commits again after a restart, commits the
  same information whatever the order of map iteration, keeps its stores apart, and its branches
  at a height keep their answers. Indexed blocks and transactions are served as they were indexed;
  the rich list follows the balances. The feed hands on consecutive blocks in every interleaving,
  against endpoints that answer as documented, and on a network that is up it never panics and
  hands on a block within a bounded number of steps of any schedule; the response cache answers only with genuine
  responses and leaves no waiting request behind. The node as a whole: a start leaves it ready,
  with genesis written once; the feed and the loop together apply consecutive blocks of the chain
  and stop at a whole number of them; from a start through any reachable state of the feed, on a
  network that answers as documented, the multi-store's branches read at the heights found on disk what
  was there. Calls into the application exclude each other except for
  queries, and they all finish. For requests that do not overlap, an answer of the server is one the
  handlers gave for that URL, from the latest cache after the last purge and at most two blocks ago. The
  changes the rich list gathers are the net amounts the bank module reports, the saved list is the
  shortest top part with the wanted number of accounts, and sums of \<open>sdk.Int\<close> panic beyond 256 bits. Theorems also pin down defects: reads that alias
  a key with an extension of it, the wrapped iterator that always panics, the raw values that the
  compatibility mode never migrates, the guard of the after-callback, the subscription that stalls
  when the node is one block behind, catching up that skips blocks, the purge that misses running
  requests, the cache that looks at neither the method nor the height header, the archival cache that
  keeps an answer to a height in the future, the rich list route
  that panics when the list is off, and the export worker that can be started twice.

  \<^bold>\<open>Bounds.\<close> Heights are valid below \<open>2 ^ 56 - 1\<close>: the driver's height suffix is compared as an
  unsigned number whose top byte must not reach the edge byte that ends a range. The keys of a
  universe (\<open>key_universe\<close>) are non-empty and none extends another by the edge byte, which is what
  reads at a height need. Heights of the feed stay below \<open>2 ^ 63 - 1\<close>; since every connection of a live network delivers two
  blocks, progress is shown over the first \<open>B\<close> connections, for any \<open>B\<close>. No definition needs fuel:
  loops recurse on lists, the loop over a LevelDB iterator on the entries left, and the state
  machines make one step per action.

  \<^bold>\<open>Not modelled.\<close> The inside of the SDK application, of the stock executor
  (\<open>src/mantlemint/executor.go\<close>), of the API server with its client context and of the parser of the
  genesis document: the code only calls them, they are parameters. \<open>Print\<close> and \<open>Stats\<close> of
  the databases, \<open>Metric\<close> of batch and cache, getters and interface declarations only print or
  forward.
\<close>

end
